theory Spec2Isabelle
  imports Complex_Main "HOL-Library.Code_Target_Nat"
begin

section \<open>Selections: the expression parsers of expr.cpp\<close>

text \<open>
  The parsers of expr.cpp work on a token stream between two iterators \<open>begin\<close> and
  \<open>end\<close>; the model passes the tokens that remain (\<open>begin .. end\<close>) as a list and
  returns the list that is left after \<open>begin\<close> was advanced. The stream is the reversed
  postfix form of the selection: for \<open>index == 4\<close> it is \<open>==\<close>, \<open>4\<close>, \<open>index\<close>, so
  \<open>begin[2]\<close> is the selector, \<open>begin[1]\<close> the value and \<open>begin[0]\<close> the operator.
  A C++ \<open>double\<close> is modelled by a real number (rounding is not modelled).
\<close>

datatype BinOp = EQ | NEQ | LT | LE | GT | GE

text \<open>
  Token types \<open>Token::EQ\<close> .. \<open>Token::GE\<close> are the binary operators, converted by
  \<open>BinOp(begin->type())\<close>; here they are \<open>BINOP op\<close>. \<open>ident\<close> and \<open>number\<close> are the
  accessors of the same name.
\<close>

datatype Token = LPAREN | RPAREN | BINOP (binop: BinOp) | NOT | AND | OR
  | IDENT (ident: string) | NUM (number: real)

definition is_binary_op :: "Token \<Rightarrow> bool" where
  "is_binary_op t = (case t of BINOP _ \<Rightarrow> True | _ \<Rightarrow> False)"

definition is_ident :: "Token \<Rightarrow> bool" where
  "is_ident t = (case t of IDENT _ \<Rightarrow> True | _ \<Rightarrow> False)"

definition is_number :: "Token \<Rightarrow> bool" where
  "is_number t = (case t of NUM _ \<Rightarrow> True | _ \<Rightarrow> False)"

datatype Coordinate = X | Y | Z

datatype Expr =
    NameExpr string bool
  | PositionExpr Coordinate BinOp real
  | VelocityExpr Coordinate BinOp real
  | IndexExpr BinOp nat
  | AndExpr (and_lhs: Expr) (and_rhs: Expr)
  | OrExpr (or_lhs: Expr) (or_rhs: Expr)
  | NotExpr Expr

text \<open>
  What a parser can end with other than a value: a \<open>ParserError\<close>, built from a message
  and nothing else (\<open>throw ParserError("...")\<close>); a \<open>std::runtime_error\<close>; a failed
  \<open>assert\<close>; and the conversion of a double outside the range of \<open>size_t\<close>, which C++
  leaves undefined.
\<close>

datatype parser_exception =
    ParserError (what: string)
  | runtime_error string
  | assertion_failure
  | undefined_conversion

text \<open>The byte offset an exception carries: a \<open>ParserError\<close> holds its message only.\<close>

definition byte_offset :: "parser_exception \<Rightarrow> nat option" where
  "byte_offset e = (case e of ParserError _ \<Rightarrow> None | runtime_error _ \<Rightarrow> None
     | assertion_failure \<Rightarrow> None | undefined_conversion \<Rightarrow> None)"

type_synonym parse_result = "parser_exception + Expr \<times> Token list"

text \<open>\<open>'and'\<close>, with the apostrophes of the C++ message.\<close>

definition quoted :: "string \<Rightarrow> string" where
  "quoted s = [CHR 0x27] @ s @ [CHR 0x27]"

fun parse_NameExpr :: "Token list \<Rightarrow> parse_result" where
  "parse_NameExpr (t0 # t1 # t2 # rest) =
     (if \<not> is_ident t2 then Inl assertion_failure
      else if ident t2 \<noteq> ''name'' then Inl assertion_failure
      else if \<not> is_ident t1 \<or> \<not> (t0 = BINOP EQ \<or> t0 = BINOP NEQ) then
        Inl (ParserError (''Name selection must follow the pattern: ''
               @ quoted ''name == {name} | name != {name}''))
      else Inr (NameExpr (ident t1) (t0 = BINOP EQ), rest))"
| "parse_NameExpr _ = Inl assertion_failure"

fun parse_PositionExpr :: "Token list \<Rightarrow> parse_result" where
  "parse_PositionExpr (t0 # t1 # t2 # rest) =
     (if \<not> is_ident t2 then Inl assertion_failure
      else if \<not> (ident t2 = ''x'' \<or> ident t2 = ''y'' \<or> ident t2 = ''z'') then
        Inl assertion_failure
      else if \<not> is_binary_op t0 then Inl assertion_failure
      else case (if ident t2 = ''x'' then Some X
                 else if ident t2 = ''y'' then Some Y
                 else if ident t2 = ''z'' then Some Z
                 else None) of
          None \<Rightarrow> Inl (runtime_error ''Hit the default case in coordinate identification'')
        | Some coord \<Rightarrow>
            if \<not> is_number t1 then
              Inl (ParserError ''Position selection can only contain number as criterium.'')
            else Inr (PositionExpr coord (binop t0) (number t1), rest))"
| "parse_PositionExpr _ = Inl assertion_failure"

fun parse_VelocityExpr :: "Token list \<Rightarrow> parse_result" where
  "parse_VelocityExpr (t0 # t1 # t2 # rest) =
     (if \<not> is_ident t2 then Inl assertion_failure
      else if \<not> (ident t2 = ''vx'' \<or> ident t2 = ''vy'' \<or> ident t2 = ''vz'') then
        Inl assertion_failure
      else if \<not> is_binary_op t0 then Inl assertion_failure
      else case (if ident t2 = ''vx'' then Some X
                 else if ident t2 = ''vy'' then Some Y
                 else if ident t2 = ''vz'' then Some Z
                 else None) of
          None \<Rightarrow> Inl (runtime_error ''Hit the default case in coordinate identification'')
        | Some coord \<Rightarrow>
            if \<not> is_number t1 then
              Inl (ParserError ''Veclocity selection can only contain number as criterium.'')
            else Inr (VelocityExpr coord (binop t0) (number t1), rest))"
| "parse_VelocityExpr _ = Inl assertion_failure"

text \<open>
  \<open>static_cast<std::size_t>\<close> of a double that is a whole number: its value when it
  fits a 64-bit \<open>size_t\<close>, undefined otherwise.
\<close>

definition size_t_of_double :: "real \<Rightarrow> nat option" where
  "size_t_of_double x = (if 0 \<le> x \<and> x < 2 ^ 64 then Some (nat \<lfloor>x\<rfloor>) else None)"

fun parse_IndexExpr :: "Token list \<Rightarrow> parse_result" where
  "parse_IndexExpr (t0 # t1 # t2 # rest) =
     (if \<not> is_ident t2 then Inl assertion_failure
      else if ident t2 \<noteq> ''index'' then Inl assertion_failure
      else if \<not> is_binary_op t0 then Inl assertion_failure
      else if is_number t1 then
        (if of_int \<lceil>number t1\<rceil> \<noteq> number t1 then
           Inl (ParserError ''Index selection should contain an integer'')
         else case size_t_of_double (number t1) of
             None \<Rightarrow> Inl undefined_conversion
           | Some val \<Rightarrow> Inr (IndexExpr (binop t0) val, rest))
      else Inl (ParserError ''Index selection should contain an integer''))"
| "parse_IndexExpr _ = Inl assertion_failure"

text \<open>
  The boolean parsers call \<open>dispatch_parsing\<close>, which is defined in parser.cpp and is
  missing from the sources: it is a parameter here. \<open>catch (const ParserError& e)\<close>
  rewraps a \<open>ParserError\<close> only; any other exception passes through.
\<close>

definition rethrow :: "string \<Rightarrow> parser_exception \<Rightarrow> parser_exception" where
  "rethrow prefix e = (case e of ParserError msg \<Rightarrow> ParserError (prefix @ msg) | _ \<Rightarrow> e)"

definition parse_AndExpr :: "(Token list \<Rightarrow> parse_result) \<Rightarrow> Token list \<Rightarrow> parse_result" where
  "parse_AndExpr dispatch_parsing toks =
     (case toks of
        AND # begin1 \<Rightarrow>
          if begin1 = [] then
            Inl (ParserError (''Missing right-hand side operand to '' @ quoted ''and''))
          else (case dispatch_parsing begin1 of
              Inl e \<Rightarrow>
                Inl (rethrow (''Error in right-hand side operand to '' @ quoted ''and'' @ '': '') e)
            | Inr (rhs, begin2) \<Rightarrow>
                if begin2 = [] then
                  Inl (ParserError (''Missing left-hand side operand to '' @ quoted ''and''))
                else (case dispatch_parsing begin2 of
                    Inl e \<Rightarrow>
                      Inl (rethrow (''Error in left-hand side operand to '' @ quoted ''and'' @ '': '') e)
                  | Inr (lhs, begin3) \<Rightarrow> Inr (AndExpr lhs rhs, begin3)))
      | _ \<Rightarrow> Inl assertion_failure)"

definition parse_OrExpr :: "(Token list \<Rightarrow> parse_result) \<Rightarrow> Token list \<Rightarrow> parse_result" where
  "parse_OrExpr dispatch_parsing toks =
     (case toks of
        OR # begin1 \<Rightarrow>
          if begin1 = [] then
            Inl (ParserError (''Missing right-hand side operand to '' @ quoted ''or''))
          else (case dispatch_parsing begin1 of
              Inl e \<Rightarrow>
                Inl (rethrow (''Error in right-hand side operand to '' @ quoted ''or'' @ '': '') e)
            | Inr (rhs, begin2) \<Rightarrow>
                if begin2 = [] then
                  Inl (ParserError (''Missing left-hand side operand to '' @ quoted ''or''))
                else (case dispatch_parsing begin2 of
                    Inl e \<Rightarrow>
                      Inl (rethrow (''Error in left-hand side operand to '' @ quoted ''or'' @ '': '') e)
                  | Inr (lhs, begin3) \<Rightarrow> Inr (OrExpr lhs rhs, begin3)))
      | _ \<Rightarrow> Inl assertion_failure)"

definition parse_NotExpr :: "(Token list \<Rightarrow> parse_result) \<Rightarrow> Token list \<Rightarrow> parse_result" where
  "parse_NotExpr dispatch_parsing toks =
     (case toks of
        NOT # begin1 \<Rightarrow>
          if begin1 = [] then Inl (ParserError (''Missing operand to '' @ quoted ''not''))
          else (case dispatch_parsing begin1 of
              Inl e \<Rightarrow> Inl (rethrow (''Error in operand of '' @ quoted ''not'' @ '': '') e)
            | Inr (ast, begin2) \<Rightarrow> Inr (NotExpr ast, begin2))
      | _ \<Rightarrow> Inl assertion_failure)"

text \<open>
  Modelled from the spec: \<open>dispatch_parsing\<close> of parser.cpp is missing. The spec calls
  the parser a recursive descent over the grammar: the first token selects the parser, a
  boolean operator goes to the boolean parsers above and a binary operator to the parser
  of the selector found two tokens further. Only the expressions of expr.cpp are
  dispatched. The first argument bounds the nesting depth, so that the recursion through
  the boolean parsers is structural.
\<close>

primrec dispatch_parsing :: "nat \<Rightarrow> Token list \<Rightarrow> parse_result" where
  "dispatch_parsing 0 = (\<lambda>toks. Inl (ParserError ''Could not parse the selection''))"
| "dispatch_parsing (Suc depth) = (\<lambda>toks.
     case toks of
       AND # _ \<Rightarrow> parse_AndExpr (dispatch_parsing depth) toks
     | OR # _ \<Rightarrow> parse_OrExpr (dispatch_parsing depth) toks
     | NOT # _ \<Rightarrow> parse_NotExpr (dispatch_parsing depth) toks
     | BINOP _ # _ # IDENT sel # _ \<Rightarrow>
         if sel = ''name'' then parse_NameExpr toks
         else if sel = ''index'' then parse_IndexExpr toks
         else if sel = ''x'' \<or> sel = ''y'' \<or> sel = ''z'' then parse_PositionExpr toks
         else if sel = ''vx'' \<or> sel = ''vy'' \<or> sel = ''vz'' then parse_VelocityExpr toks
         else Inl (ParserError (''Unknown operation: '' @ sel))
     | _ \<Rightarrow> Inl (ParserError ''Could not parse the selection''))"

section \<open>The frame data model\<close>

text \<open>
  Frame.hpp declares the class \<open>Frame\<close> with the members below; the classes it is built
  from (\<open>Vector3D\<close>, \<open>Matrix3D\<close>, \<open>Property\<close>, \<open>Atom\<close>, \<open>Residue\<close>, \<open>Topology\<close>,
  \<open>UnitCell\<close>) are declared in headers that are missing from the sources and follow
  section 3 of the specification. A \<open>double\<close> is a real number. \<open>size_t\<close> and \<open>uint64_t\<close> are natural numbers
  below \<open>2 ^ 64\<close>; where the code can overflow the wrap-around is written out.
\<close>

type_synonym Vector3D = "real \<times> real \<times> real"

definition Vector3D_zero :: Vector3D where
  "Vector3D_zero = (0, 0, 0)"

text \<open>\<open>Matrix3D(m00, m01, m02, m10, m11, m12, m20, m21, m22)\<close>, row by row.\<close>

datatype Matrix3D = Matrix3D real real real real real real real real real

datatype Property = BOOL bool | DOUBLE real | STRING string | VECTOR3D Vector3D

text \<open>
  Modelled from the spec: \<open>Atom(name)\<close>. The type defaults to the name; mass and charge
  are looked up from the type and are not represented.
\<close>

datatype Atom = Atom (atom_name: string)

text \<open>
  Modelled from the spec: \<open>Residue\<close>, a name, an optional id and an ordered set of atom
  indices. \<open>Residue(name, id)\<close> starts without atoms.
\<close>

record Residue =
  res_name :: string
  res_id :: "nat option"
  res_atoms :: "nat list"

definition Residue_new :: "string \<Rightarrow> nat \<Rightarrow> Residue" where
  "Residue_new resname resid = \<lparr>res_name = resname, res_id = Some resid, res_atoms = []\<rparr>"

definition Residue_add_atom :: "nat \<Rightarrow> Residue \<Rightarrow> Residue" where
  "Residue_add_atom i r =
     (if i \<in> set (res_atoms r) then r else r\<lparr>res_atoms := insort i (res_atoms r)\<rparr>)"

text \<open>
  Modelled from the spec: \<open>Topology\<close>, the atoms, the residues and the bonds.
  \<open>resize\<close> truncates the atoms, dropping the residues and bonds that refer to a removed
  atom, or pads with default atoms.
\<close>

record Topology =
  atoms :: "Atom list"
  residues :: "Residue list"
  bonds :: "(nat \<times> nat) list"

definition Topology_empty :: Topology where
  "Topology_empty = \<lparr>atoms = [], residues = [], bonds = []\<rparr>"

definition Topology_resize :: "nat \<Rightarrow> Topology \<Rightarrow> Topology" where
  "Topology_resize n t =
     \<lparr>atoms = take n (atoms t) @ replicate (n - length (atoms t)) (Atom ''''),
      residues = filter (\<lambda>r. \<forall>a \<in> set (res_atoms r). a < n) (residues t),
      bonds = filter (\<lambda>(i, j). i < n \<and> j < n) (bonds t)\<rparr>"

definition Topology_add_atom :: "Atom \<Rightarrow> Topology \<Rightarrow> Topology" where
  "Topology_add_atom a t = t\<lparr>atoms := atoms t @ [a]\<rparr>"

definition Topology_add_residue :: "Residue \<Rightarrow> Topology \<Rightarrow> Topology" where
  "Topology_add_residue r t = t\<lparr>residues := residues t @ [r]\<rparr>"

definition residue_for_atom :: "Topology \<Rightarrow> nat \<Rightarrow> Residue option" where
  "residue_for_atom t i = find (\<lambda>r. i \<in> set (res_atoms r)) (residues t)"

text \<open>
  Modelled from the spec: \<open>UnitCell\<close>, by the constructor that built it. \<open>UnitCell()\<close> is
  the infinite cell, \<open>UnitCell(a, b, c)\<close> the orthorhombic cell with these lengths and
  \<open>UnitCell(H)\<close> the triclinic cell with the upper triangular matrix \<open>H\<close>.
\<close>

datatype UnitCell =
    UnitCell_infinite
  | UnitCell_lengths real real real
  | UnitCell_matrix Matrix3D

datatype CellShape = ORTHORHOMBIC | TRICLINIC | INFINITE

fun shape :: "UnitCell \<Rightarrow> CellShape" where
  "shape UnitCell_infinite = INFINITE"
| "shape (UnitCell_lengths a b c) = ORTHORHOMBIC"
| "shape (UnitCell_matrix H) = TRICLINIC"

text \<open>The lengths \<open>a()\<close>, \<open>b()\<close>, \<open>c()\<close> are the norms of the columns of the matrix.\<close>

fun cell_lengths :: "UnitCell \<Rightarrow> Vector3D" where
  "cell_lengths UnitCell_infinite = (0, 0, 0)"
| "cell_lengths (UnitCell_lengths a b c) = (a, b, c)"
| "cell_lengths (UnitCell_matrix (Matrix3D m00 m01 m02 m10 m11 m12 m20 m21 m22)) =
     (sqrt (m00 * m00 + m10 * m10 + m20 * m20),
      sqrt (m01 * m01 + m11 * m11 + m21 * m21),
      sqrt (m02 * m02 + m12 * m12 + m22 * m22))"

text \<open>The square root has no code equation; evaluation never needs this case.\<close>

lemma cell_lengths_code [code]:
  "cell_lengths UnitCell_infinite = (0, 0, 0)"
  "cell_lengths (UnitCell_lengths a b c) = (a, b, c)"
  by simp_all

fun cell_matrix :: "UnitCell \<Rightarrow> Matrix3D" where
  "cell_matrix UnitCell_infinite = Matrix3D 0 0 0 0 0 0 0 0 0"
| "cell_matrix (UnitCell_lengths a b c) = Matrix3D a 0 0 0 b 0 0 0 c"
| "cell_matrix (UnitCell_matrix H) = H"

text \<open>The private members of \<open>Frame\<close> (Frame.hpp), without their trailing underscore.\<close>

record Frame =
  step :: nat
  positions :: "Vector3D list"
  velocities :: "Vector3D list option"
  topology :: Topology
  cell :: UnitCell
  properties :: "string \<rightharpoonup> Property"

text \<open>\<open>Frame()\<close>: no atoms, an infinite unit cell, no velocities.\<close>

definition Frame_empty :: Frame where
  "Frame_empty = \<lparr>step = 0, positions = [], velocities = None,
     topology = Topology_empty, cell = UnitCell_infinite, properties = Map.empty\<rparr>"

text \<open>
  The class invariant of section 3 of the specification: as many positions as atoms, and
  as many velocities when there are velocities.
\<close>

definition Frame_invariant :: "Frame \<Rightarrow> bool" where
  "Frame_invariant f \<longleftrightarrow>
     length (atoms (topology f)) = length (positions f) \<and>
     (case velocities f of None \<Rightarrow> True | Some vs \<Rightarrow> length vs = length (positions f))"

text \<open>
  Modelled from the spec: the member functions of \<open>Frame\<close> that GRO.cpp calls, whose
  bodies (Frame.cpp) are missing. They follow section 3 of the specification and their
  documentation in Frame.hpp:
  \<open>add_velocities\<close> does nothing when velocities are already defined and initialises new
  velocities to 0; \<open>resize\<close> keeps the values that exist, sets missing data to 0 and
  removes the atoms and connectivity elements after the new size; \<open>reserve\<close> does not
  change the number of atoms; \<open>add_atom\<close> uses the velocity only if the frame contains
  velocity data, and its velocity defaults to \<open>Vector3D()\<close>; \<open>set\<close> replaces a property
  of the same name.
\<close>

definition Frame_size :: "Frame \<Rightarrow> nat" where
  "Frame_size f = length (positions f)"

definition add_velocities :: "Frame \<Rightarrow> Frame" where
  "add_velocities f =
     (case velocities f of
        Some _ \<Rightarrow> f
      | None \<Rightarrow> f\<lparr>velocities := Some (replicate (Frame_size f) Vector3D_zero)\<rparr>)"

definition resize_vectors :: "nat \<Rightarrow> Vector3D list \<Rightarrow> Vector3D list" where
  "resize_vectors n vs = take n vs @ replicate (n - length vs) Vector3D_zero"

definition Frame_resize :: "nat \<Rightarrow> Frame \<Rightarrow> Frame" where
  "Frame_resize n f =
     f\<lparr>positions := resize_vectors n (positions f),
       velocities := map_option (resize_vectors n) (velocities f),
       topology := Topology_resize n (topology f)\<rparr>"

definition Frame_reserve :: "nat \<Rightarrow> Frame \<Rightarrow> Frame" where
  "Frame_reserve n f = f"

definition add_atom :: "Atom \<Rightarrow> Vector3D \<Rightarrow> Vector3D \<Rightarrow> Frame \<Rightarrow> Frame" where
  "add_atom atom pos vel f =
     f\<lparr>positions := positions f @ [pos],
       velocities := map_option (\<lambda>vs. vs @ [vel]) (velocities f),
       topology := Topology_add_atom atom (topology f)\<rparr>"

definition Frame_set :: "string \<Rightarrow> Property \<Rightarrow> Frame \<Rightarrow> Frame" where
  "Frame_set name v f = f\<lparr>properties := (properties f)(name \<mapsto> v)\<rparr>"

definition set_cell :: "UnitCell \<Rightarrow> Frame \<Rightarrow> Frame" where
  "set_cell c f = f\<lparr>cell := c\<rparr>"

definition add_residue :: "Residue \<Rightarrow> Frame \<Rightarrow> Frame" where
  "add_residue r f = f\<lparr>topology := Topology_add_residue r (topology f)\<rparr>"

section \<open>Errors, helpers and the text file\<close>

text \<open>
  The exceptions of the library: \<open>FileError\<close> and \<open>FormatError\<close> derive from \<open>Error\<close>,
  so \<open>catch (const Error&)\<close> catches all three. A failed \<open>assert\<close> is not an exception
  and is caught by nothing.
\<close>

datatype error = FileError string | FormatError string | Error string | assertion_failed

fun error_what :: "error \<Rightarrow> string" where
  "error_what (FileError m) = m"
| "error_what (FormatError m) = m"
| "error_what (Error m) = m"
| "error_what assertion_failed = ''''"

text \<open>
  GRO.cpp uses helpers of utils.hpp and of the fmt library that are missing from the
  sources. They are parameters of the model: \<open>parse<size_t>\<close> and
  \<open>parse<double>\<close>, which throw an \<open>Error\<close> (here \<open>Inl\<close> of its message) when the string
  is not a number; \<open>trim\<close>; \<open>split\<close>; and the fixed-point conversion \<open>{:W.Pf}\<close> of a
  double, with its width and precision.
\<close>

record utils =
  parse_size_t :: "string \<Rightarrow> string + nat"
  parse_double :: "string \<Rightarrow> string + real"
  trim :: "string \<Rightarrow> string"
  split :: "string \<Rightarrow> char \<Rightarrow> string list"
  format_f :: "nat \<Rightarrow> nat \<Rightarrow> real \<Rightarrow> string"

text \<open>\<open>SIZE_MAX\<close> is \<open>2 ^ 64 - 1\<close>; \<open>size_t\<close> arithmetic is modulo \<open>2 ^ 64\<close>.\<close>

definition SIZE_MAX :: nat where
  "SIZE_MAX = 18446744073709551615"

definition size_t_wrap :: "nat \<Rightarrow> nat" where
  "size_t_wrap n = n mod 18446744073709551616"

text \<open>\<open>s.substr(pos, len)\<close> for \<open>pos \<le> s.length()\<close>, which holds at every call.\<close>

definition substr :: "string \<Rightarrow> nat \<Rightarrow> nat \<Rightarrow> string" where
  "substr s pos len = take len (drop pos s)"

text \<open>
  Modelled from the spec: the text file of the file substrate (\<open>TextFile\<close> is missing).
  The file is its lines and the stream position, counted in lines. \<open>readline\<close> returns
  the next line or fails with \<open>FileError\<close> at the end of the file; \<open>readlines(n)\<close>
  returns exactly \<open>n\<close> lines or fails with \<open>FileError\<close>, having read up to the end;
  \<open>tellg\<close>, \<open>seekg\<close>, \<open>rewind\<close> and \<open>eof\<close> read and set the position. This file has
  no input/output failure: \<open>tellg\<close> never returns \<open>streampos(-1)\<close> (here \<open>None\<close>) and the
  stream is never in a failed state (\<open>good\<close>). Printing a line appends it and leaves the
  position at the end.
\<close>

record TextFile =
  path :: string
  lines :: "string list"
  position :: nat

definition readline :: "TextFile \<Rightarrow> (error + string) \<times> TextFile" where
  "readline f =
     (if position f < length (lines f) then
        (Inr (lines f ! position f), f\<lparr>position := Suc (position f)\<rparr>)
      else (Inl (FileError ''no more lines in the file''), f))"

definition readlines :: "nat \<Rightarrow> TextFile \<Rightarrow> (error + string list) \<times> TextFile" where
  "readlines n f =
     (if position f + n \<le> length (lines f) then
        (Inr (take n (drop (position f) (lines f))), f\<lparr>position := position f + n\<rparr>)
      else (Inl (FileError ''no more lines in the file''),
            f\<lparr>position := max (position f) (length (lines f))\<rparr>))"

definition tellg :: "TextFile \<Rightarrow> nat option" where
  "tellg f = Some (position f)"

definition seekg :: "nat \<Rightarrow> TextFile \<Rightarrow> TextFile" where
  "seekg p f = f\<lparr>position := p\<rparr>"

definition rewind :: "TextFile \<Rightarrow> TextFile" where
  "rewind f = f\<lparr>position := 0\<rparr>"

definition eof :: "TextFile \<Rightarrow> bool" where
  "eof f \<longleftrightarrow> length (lines f) \<le> position f"

definition good :: "TextFile \<Rightarrow> bool" where
  "good f \<longleftrightarrow> True"

definition print_line :: "string \<Rightarrow> TextFile \<Rightarrow> TextFile" where
  "print_line l f = f\<lparr>lines := lines f @ [l], position := Suc (length (lines f))\<rparr>"

section \<open>The GRO format (GRO.cpp)\<close>

text \<open>
  The members of \<open>GROFormat\<close>: the file \<open>file_\<close> (here \<open>gro_file\<close>), the position of each step
  \<open>steps_positions_\<close> and the residues of the step being read \<open>residues_\<close>, a
  \<open>std::map\<close> from residue id to residue. The map is an
  association list with increasing keys, which is the order in which it is iterated.
\<close>

record GROFormat =
  gro_file :: TextFile
  steps_positions :: "nat list"
  format_residues :: "(nat \<times> Residue) list"

definition map_find :: "nat \<Rightarrow> (nat \<times> 'v) list \<Rightarrow> 'v option" where
  "map_find k m = map_of m k"

fun map_insert :: "nat \<Rightarrow> 'v \<Rightarrow> (nat \<times> 'v) list \<Rightarrow> (nat \<times> 'v) list" where
  "map_insert k v [] = [(k, v)]"
| "map_insert k v ((k', v') # m) =
     (if k < k' then (k, v) # (k', v') # m
      else if k = k' then (k', v') # m
      else (k', v') # map_insert k v m)"

definition map_at :: "nat \<Rightarrow> ('v \<Rightarrow> 'v) \<Rightarrow> (nat \<times> 'v) list \<Rightarrow> (nat \<times> 'v) list" where
  "map_at k f m = map (\<lambda>(k', v). if k' = k then (k', f v) else (k', v)) m"

text \<open>
  \<open>forward\<close>: skip one step. Every exception of the first \<open>try\<close> block is an \<open>Error\<close>
  and gives \<open>false\<close>; in the second block a \<open>FileError\<close> becomes a \<open>FormatError\<close>.
  \<open>natoms + 1\<close> is computed in \<open>size_t\<close>.
\<close>

definition forward :: "utils \<Rightarrow> TextFile \<Rightarrow> (error + bool) \<times> TextFile" where
  "forward u f =
     (if \<not> good f then (Inr False, f)
      else case readline f of
          (Inl e, f1) \<Rightarrow> (Inr False, f1)
        | (Inr comment, f1) \<Rightarrow>
            (case readline f1 of
               (Inl e, f2) \<Rightarrow> (Inr False, f2)
             | (Inr count, f2) \<Rightarrow>
                 (case parse_size_t u count of
                    Inl m \<Rightarrow> (Inr False, f2)
                  | Inr natoms \<Rightarrow>
                      (case readlines (size_t_wrap (natoms + 1)) f2 of
                         (Inl (FileError m), f3) \<Rightarrow>
                           (Inl (FormatError (''not enough lines in '' @ quoted (path f)
                                    @ '' for GRO format'')), f3)
                       | (Inl e, f3) \<Rightarrow> (Inl e, f3)
                       | (Inr ls, f3) \<Rightarrow> (Inr True, f3)))))"

lemma forward_progress:
  assumes "\<not> eof f" and "forward u f = (r, f')"
  shows "lines f' = lines f \<and> position f < position f' \<and> position f' \<le> length (lines f)"
  using assms
  by (auto simp: forward_def eof_def good_def readline_def readlines_def
      split: if_splits sum.splits error.splits)

text \<open>
  The constructor: the loop \<open>while (!file_->eof())\<close> records the position before each
  step that \<open>forward\<close> could skip, then the file is rewound. \<open>file\<close> is a pointer that
  is never null, so of the test \<open>!file_ || position == streampos(-1)\<close> only the second
  half can hold.
\<close>

function GROFormat_scan :: "utils \<Rightarrow> TextFile \<Rightarrow> nat list \<Rightarrow> error + TextFile \<times> nat list" where
  "GROFormat_scan u f steps =
     (if eof f then Inr (f, steps)
      else case tellg f of
          None \<Rightarrow> Inl (FormatError (''IO error while reading '' @ quoted (path f) @ '' as GRO''))
        | Some pos \<Rightarrow>
            (case forward u f of
               (Inl e, f') \<Rightarrow> Inl e
             | (Inr found, f') \<Rightarrow> GROFormat_scan u f' (if found then steps @ [pos] else steps)))"
  by pat_completeness auto
termination
proof (relation "measure (\<lambda>(u, f, steps). length (lines f) - position f)")
  show "wf (measure (\<lambda>(u, f, steps). length (lines f) - position f))" by simp
next
  fix u f steps pos r f' found
  assume "\<not> eof f" and "(r, f') = forward u f"
  then have "lines f' = lines f \<and> position f < position f' \<and> position f' \<le> length (lines f)"
    using forward_progress [of f u r f'] by simp
  then show "((u, f', if found then steps @ [pos] else steps), u, f, steps)
      \<in> measure (\<lambda>(u, f, steps). length (lines f) - position f)"
    by auto
qed

declare GROFormat_scan.simps [simp del]

definition GROFormat_open :: "utils \<Rightarrow> TextFile \<Rightarrow> error + GROFormat" where
  "GROFormat_open u f =
     (case GROFormat_scan u f [] of
        Inl e \<Rightarrow> Inl e
      | Inr (f', steps) \<Rightarrow>
          Inr \<lparr>gro_file = rewind f', steps_positions = steps, format_residues = []\<rparr>)"

definition nsteps :: "GROFormat \<Rightarrow> nat" where
  "nsteps fmt = length (steps_positions fmt)"

text \<open>Sequencing of computations that can throw.\<close>

definition and_then :: "error + 'a \<Rightarrow> ('a \<Rightarrow> error + 'b) \<Rightarrow> error + 'b" where
  "and_then r k = (case r of Inl e \<Rightarrow> Inl e | Inr x \<Rightarrow> k x)"

text \<open>\<open>parse<double>(s)\<close> as a computation: its \<open>Error\<close> is not caught in \<open>read\<close>.\<close>

definition parse_d :: "utils \<Rightarrow> string \<Rightarrow> error + real" where
  "parse_d u s = (case parse_double u s of Inl m \<Rightarrow> Inl (Error m) | Inr x \<Rightarrow> Inr x)"

text \<open>\<open>assert(parse<double>(s) == 0)\<close>.\<close>

definition assert_zero :: "utils \<Rightarrow> string \<Rightarrow> error + unit" where
  "assert_zero u s =
     and_then (parse_d u s) (\<lambda>x. if x = 0 then Inr () else Inl assertion_failed)"

text \<open>The residue bookkeeping at the end of the loop body of \<open>read\<close>.\<close>

definition update_residues ::
  "nat \<Rightarrow> string \<Rightarrow> nat \<Rightarrow> (nat \<times> Residue) list \<Rightarrow> (nat \<times> Residue) list" where
  "update_residues resid resname i rs =
     (if resid \<noteq> SIZE_MAX then
        (if map_find resid rs = None then
           map_insert resid (Residue_add_atom i (Residue_new resname resid)) rs
         else map_at resid (Residue_add_atom i) rs)
      else rs)"

text \<open>The body of the loop over the atom lines.\<close>

definition read_atom_line ::
  "utils \<Rightarrow> string \<Rightarrow> Frame \<times> (nat \<times> Residue) list \<Rightarrow> error + Frame \<times> (nat \<times> Residue) list" where
  "read_atom_line u line st =
     (case st of (frame, rs) \<Rightarrow>
        if length line < 44 then
          Inl (FormatError (''GRO Atom line is too small: '' @ quoted line))
        else
          let resid = (case parse_size_t u (substr line 0 5) of
                         Inl m \<Rightarrow> SIZE_MAX | Inr r \<Rightarrow> r);
              resname = trim u (substr line 5 5);
              name = trim u (substr line 10 5)
          in
          and_then (parse_d u (substr line 20 8)) (\<lambda>x0.
          and_then (parse_d u (substr line 28 8)) (\<lambda>y0.
          and_then (parse_d u (substr line 36 8)) (\<lambda>z0.
          let x = x0 * 10; y = y0 * 10; z = z0 * 10 in
          and_then
            (if length line \<ge> 68 then
               and_then (parse_d u (substr line 44 8)) (\<lambda>vx0.
               and_then (parse_d u (substr line 52 8)) (\<lambda>vy0.
               and_then (parse_d u (substr line 60 8)) (\<lambda>vz0.
               Inr (add_atom (Atom name) (x, y, z) (vx0 * 10, vy0 * 10, vz0 * 10) frame))))
             else Inr (add_atom (Atom name) (x, y, z) Vector3D_zero frame))
            (\<lambda>frame'. Inr (frame', update_residues resid resname (Frame_size frame' - 1) rs))))))"

fun read_atoms ::
  "utils \<Rightarrow> string list \<Rightarrow> Frame \<times> (nat \<times> Residue) list
     \<Rightarrow> (error + unit) \<times> Frame \<times> (nat \<times> Residue) list" where
  "read_atoms u [] st = (Inr (), st)"
| "read_atoms u (line # rest) st =
     (case read_atom_line u line st of
        Inl e \<Rightarrow> (Inl e, st)
      | Inr st' \<Rightarrow> read_atoms u rest st')"

text \<open>The box line.\<close>

definition read_box :: "utils \<Rightarrow> string \<Rightarrow> Frame \<Rightarrow> error + Frame" where
  "read_box u box frame =
     (let box_values = split u box (CHR '' '') in
      if length box_values = 3 then
        and_then (parse_d u (box_values ! 0)) (\<lambda>a0.
        and_then (parse_d u (box_values ! 1)) (\<lambda>b0.
        and_then (parse_d u (box_values ! 2)) (\<lambda>c0.
        Inr (set_cell (UnitCell_lengths (a0 * 10) (b0 * 10) (c0 * 10)) frame))))
      else if length box_values = 9 then
        and_then (parse_d u (box_values ! 0)) (\<lambda>v1_x0.
        and_then (parse_d u (box_values ! 1)) (\<lambda>v2_y0.
        and_then (parse_d u (box_values ! 2)) (\<lambda>v3_z0.
        and_then (assert_zero u (box_values ! 3)) (\<lambda>_.
        and_then (assert_zero u (box_values ! 4)) (\<lambda>_.
        and_then (parse_d u (box_values ! 5)) (\<lambda>v2_x0.
        and_then (assert_zero u (box_values ! 6)) (\<lambda>_.
        and_then (parse_d u (box_values ! 7)) (\<lambda>v3_x0.
        and_then (parse_d u (box_values ! 8)) (\<lambda>v3_y0.
        let v1_x = v1_x0 * 10; v2_y = v2_y0 * 10; v3_z = v3_z0 * 10;
            v2_x = v2_x0 * 10; v3_x = v3_x0 * 10; v3_y = v3_y0 * 10;
            H = Matrix3D v1_x v2_x v3_x
                         0 v2_y v3_y
                         0 0 v3_z
        in Inr (set_cell (UnitCell_matrix H) frame))))))))))
      else Inr frame)"

text \<open>
  \<open>GROFormat::read\<close>. The result is the exception or the normal return, together with
  the frame and the format as the call leaves them: the frame is a reference and keeps
  what was done to it before an exception.
\<close>

definition GROFormat_read ::
  "utils \<Rightarrow> GROFormat \<Rightarrow> Frame \<Rightarrow> (error + unit) \<times> Frame \<times> GROFormat" where
  "GROFormat_read u fmt frame =
     (case readline (gro_file fmt) of
        (Inl e, f1) \<Rightarrow>
          (Inl (FormatError (''can not read next step as GRO: '' @ error_what e)),
           frame, fmt\<lparr>gro_file := f1\<rparr>)
      | (Inr title, f1) \<Rightarrow>
          let frame1 = Frame_set ''name'' (STRING title) frame in
          (case readline f1 of
             (Inl e, f2) \<Rightarrow>
               (Inl (FormatError (''can not read next step as GRO: '' @ error_what e)),
                frame1, fmt\<lparr>gro_file := f2\<rparr>)
           | (Inr count, f2) \<Rightarrow>
               (case parse_size_t u count of
                  Inl m \<Rightarrow>
                    (Inl (FormatError (''can not read next step as GRO: '' @ m)),
                     frame1, fmt\<lparr>gro_file := f2\<rparr>)
                | Inr natoms \<Rightarrow>
                    let frame2 = Frame_resize 0 (Frame_reserve natoms (add_velocities frame1)) in
                    (case readlines natoms f2 of
                       (Inl e, f3) \<Rightarrow> (Inl e, frame2, fmt\<lparr>gro_file := f3, format_residues := []\<rparr>)
                     | (Inr ls, f3) \<Rightarrow>
                         (case read_atoms u ls (frame2, []) of
                            (Inl e, frame3, rs) \<Rightarrow>
                              (Inl e, frame3, fmt\<lparr>gro_file := f3, format_residues := rs\<rparr>)
                          | (Inr _, frame3, rs) \<Rightarrow>
                              (case readline f3 of
                                 (Inl e, f4) \<Rightarrow>
                                   (Inl e, frame3, fmt\<lparr>gro_file := f4, format_residues := rs\<rparr>)
                               | (Inr box, f4) \<Rightarrow>
                                   (case read_box u box frame3 of
                                      Inl e \<Rightarrow>
                                        (Inl e, frame3, fmt\<lparr>gro_file := f4, format_residues := rs\<rparr>)
                                    | Inr frame4 \<Rightarrow>
                                        (Inr (),
                                         foldl (\<lambda>fr kr. add_residue (snd kr) fr) frame4 rs,
                                         fmt\<lparr>gro_file := f4, format_residues := rs\<rparr>))))))))"

text \<open>\<open>GROFormat::read_step\<close>, with its \<open>assert\<close>.\<close>

definition GROFormat_read_step ::
  "utils \<Rightarrow> nat \<Rightarrow> GROFormat \<Rightarrow> Frame \<Rightarrow> (error + unit) \<times> Frame \<times> GROFormat" where
  "GROFormat_read_step u i fmt frame =
     (if \<not> i < length (steps_positions fmt) then (Inl assertion_failed, frame, fmt)
      else GROFormat_read u (fmt\<lparr>gro_file := seekg (steps_positions fmt ! i) (gro_file fmt)\<rparr>) frame)"

section \<open>Writing the GRO format\<close>

text \<open>
  \<open>std::to_string\<close> of an unsigned integer: its decimal digits.
\<close>

fun to_string :: "nat \<Rightarrow> string" where
  "to_string n =
     (if n < 10 then [char_of (48 + n)]
      else to_string (n div 10) @ [char_of (48 + n mod 10)])"

declare to_string.simps [simp del]

text \<open>
  The replacement fields \<open>{: >5}\<close> and \<open>{: <5}\<close> of the fmt library: the string, padded
  with blanks on the left or on the right to the width; a longer string is not cut.
\<close>

definition right_align :: "nat \<Rightarrow> string \<Rightarrow> string" where
  "right_align w s = replicate (w - length s) (CHR '' '') @ s"

definition left_align :: "nat \<Rightarrow> string \<Rightarrow> string" where
  "left_align w s = s @ replicate (w - length s) (CHR '' '')"

text \<open>\<open>to_gro_index\<close>: the string and the warnings emitted.\<close>

definition to_gro_index :: "nat \<Rightarrow> string \<times> string list" where
  "to_gro_index i =
     (if i \<ge> 99999 then (''*****'', [''Too many atoms for GRO format, removing atomic id''])
      else (to_string (i + 1), []))"

definition check_values_size :: "Vector3D \<Rightarrow> nat \<Rightarrow> string \<Rightarrow> error + unit" where
  "check_values_size values width context =
     (case values of (v0, v1, v2) \<Rightarrow>
        let max_pos = 10 ^ width - 1;
            max_neg = - (10 ^ (width - 1)) + 1
        in if v0 > max_pos \<or> v1 > max_pos \<or> v2 > max_pos \<or>
              v0 < max_neg \<or> v1 < max_neg \<or> v2 < max_neg then
             Inl (FormatError (''value in '' @ context
                    @ '' is too big for representation in GRO format''))
           else Inr ())"

text \<open>\<open>positions[i] / 10\<close>.\<close>

definition Vector3D_div :: "Vector3D \<Rightarrow> real \<Rightarrow> Vector3D" where
  "Vector3D_div v d = (case v of (x, y, z) \<Rightarrow> (x / d, y / d, z / d))"

text \<open>
  The first loop of \<open>write\<close>, over the residues: the first residue id to give to atoms
  without residue. The ids are \<open>uint64_t\<close>.
\<close>

definition initial_max_resid :: "Residue list \<Rightarrow> nat" where
  "initial_max_resid rs =
     foldl (\<lambda>max_resid residue.
              case res_id residue of
                Some v \<Rightarrow> if v > max_resid then size_t_wrap (v + 1) else max_resid
              | None \<Rightarrow> max_resid) 1 rs"

text \<open>
  The name of the residue of atom \<open>i\<close> as it is written, with the warning emitted when
  it is truncated.
\<close>

definition written_resname :: "Residue option \<Rightarrow> string \<times> string list" where
  "written_resname residue =
     (case residue of
        None \<Rightarrow> (''XXXXX'', [])
      | Some r \<Rightarrow>
          if length (res_name r) > 5 then
            (substr (res_name r) 0 5,
             [''Residue '' @ quoted (res_name r)
                @ '' has a name too long for GRO format, it will be truncated.''])
          else (res_name r, []))"

text \<open>
  The residue id of atom \<open>i\<close> as it is written, the warning emitted and the new value
  of \<open>max_resid\<close>.
\<close>

definition written_resid :: "Residue option \<Rightarrow> nat \<Rightarrow> string \<times> string list \<times> nat" where
  "written_resid residue max_resid =
     (case (case residue of None \<Rightarrow> None | Some r \<Rightarrow> res_id r) of
        Some v \<Rightarrow>
          if v \<le> 99999 then (to_string v, [], max_resid)
          else (''-1'', [''Too many residues for GRO format, removing residue id''], max_resid)
      | None \<Rightarrow>
          (if max_resid \<le> 99999 then to_string max_resid else ''-1'', [],
           size_t_wrap (max_resid + 1)))"

text \<open>
  The two \<open>fmt::print\<close> calls for an atom line, with and without velocities:
  \<open>{: >5}{: <5}{: >5}{: >5}{:8.3f}{:8.3f}{:8.3f}\<close> and then \<open>{:8.4f}{:8.4f}{:8.4f}\<close>.
\<close>

definition format_atom_line ::
  "utils \<Rightarrow> string \<Rightarrow> string \<Rightarrow> string \<Rightarrow> string \<Rightarrow> Vector3D \<Rightarrow> Vector3D option \<Rightarrow> string" where
  "format_atom_line u resid resname name index pos vel =
     right_align 5 resid @ left_align 5 resname @ right_align 5 name @ right_align 5 index @
     (case pos of (x, y, z) \<Rightarrow> format_f u 8 3 x @ format_f u 8 3 y @ format_f u 8 3 z) @
     (case vel of
        None \<Rightarrow> []
      | Some (vx, vy, vz) \<Rightarrow> format_f u 8 4 vx @ format_f u 8 4 vy @ format_f u 8 4 vz)"

text \<open>
  The body of the loop over the atoms. The state is the file, the warnings emitted so
  far and \<open>max_resid\<close>. \<open>positions[i]\<close>, the velocities and \<open>frame[i]\<close> are read at an
  index below the size of the frame.
\<close>

definition write_atom ::
  "utils \<Rightarrow> Frame \<Rightarrow> nat \<Rightarrow> TextFile \<times> string list \<times> nat
     \<Rightarrow> (error + unit) \<times> TextFile \<times> string list \<times> nat" where
  "write_atom u frame i st =
     (case st of (f, warnings, max_resid) \<Rightarrow>
        let residue = residue_for_atom (topology frame) i;
            (resname, w1) = written_resname residue;
            (resid, w2, max_resid') = written_resid residue max_resid;
            warnings' = warnings @ w1 @ w2
        in
        if \<not> length resname \<le> 5 then (Inl assertion_failed, f, warnings', max_resid')
        else
          let pos = Vector3D_div (positions frame ! i) 10 in
          (case check_values_size pos 8 ''atomic position'' of
             Inl e \<Rightarrow> (Inl e, f, warnings', max_resid')
           | Inr _ \<Rightarrow>
               (case velocities frame of
                  Some vs \<Rightarrow>
                    let vel = Vector3D_div (vs ! i) 10 in
                    (case check_values_size vel 8 ''atomic velocity'' of
                       Inl e \<Rightarrow> (Inl e, f, warnings', max_resid')
                     | Inr _ \<Rightarrow>
                         (Inr (),
                          print_line (format_atom_line u resid resname
                             (atom_name (atoms (topology frame) ! i)) (fst (to_gro_index i))
                             pos (Some vel)) f,
                          warnings' @ snd (to_gro_index i), max_resid'))
                | None \<Rightarrow>
                    (Inr (),
                     print_line (format_atom_line u resid resname
                        (atom_name (atoms (topology frame) ! i)) (fst (to_gro_index i))
                        pos None) f,
                     warnings' @ snd (to_gro_index i), max_resid'))))"

fun write_atoms ::
  "utils \<Rightarrow> Frame \<Rightarrow> nat list \<Rightarrow> TextFile \<times> string list \<times> nat
     \<Rightarrow> (error + unit) \<times> TextFile \<times> string list \<times> nat" where
  "write_atoms u frame [] st = (Inr (), st)"
| "write_atoms u frame (i # rest) st =
     (case write_atom u frame i st of
        (Inl e, st') \<Rightarrow> (Inl e, st')
      | (Inr _, st') \<Rightarrow> write_atoms u frame rest st')"

text \<open>The box line: \<open>cell.a() / 10\<close> and so on, or the six entries of \<open>cell.matrix() / 10\<close>.\<close>

definition write_cell :: "utils \<Rightarrow> UnitCell \<Rightarrow> TextFile \<Rightarrow> (error + unit) \<times> TextFile" where
  "write_cell u c f =
     (if shape c = ORTHORHOMBIC \<or> shape c = INFINITE then
        (case cell_lengths c of (a, b, c) \<Rightarrow>
           case check_values_size (a / 10, b / 10, c / 10) 8 ''Unit Cell'' of
             Inl e \<Rightarrow> (Inl e, f)
           | Inr _ \<Rightarrow>
               (Inr (),
                print_line (''  '' @ format_f u 8 5 (a / 10) @ ''  '' @ format_f u 8 5 (b / 10)
                   @ ''  '' @ format_f u 8 5 (c / 10)) f))
      else
        (case cell_matrix c of Matrix3D m00 m01 m02 m10 m11 m12 m20 m21 m22 \<Rightarrow>
           case check_values_size (m00 / 10, m11 / 10, m22 / 10) 8 ''Unit Cell'' of
             Inl e \<Rightarrow> (Inl e, f)
           | Inr _ \<Rightarrow>
               (case check_values_size (m01 / 10, m02 / 10, m12 / 10) 8 ''Unit Cell'' of
                  Inl e \<Rightarrow> (Inl e, f)
                | Inr _ \<Rightarrow>
                    (Inr (),
                     print_line (''  '' @ format_f u 8 5 (m00 / 10) @ ''  ''
                        @ format_f u 8 5 (m11 / 10) @ ''  '' @ format_f u 8 5 (m22 / 10)
                        @ '' 0.0 0.0  '' @ format_f u 8 5 (m01 / 10)
                        @ '' 0.0  '' @ format_f u 8 5 (m02 / 10)
                        @ ''  '' @ format_f u 8 5 (m12 / 10)) f))))"

text \<open>
  \<open>GROFormat::write\<close>. The result is the exception or the normal return, the format
  with what was printed to the file up to there, and the warnings emitted.
  \<open>frame.get<Property::STRING>("name")\<close> is the property \<open>name\<close> when it is a string.
\<close>

definition GROFormat_write ::
  "utils \<Rightarrow> GROFormat \<Rightarrow> Frame \<Rightarrow> (error + unit) \<times> GROFormat \<times> string list" where
  "GROFormat_write u fmt frame =
     (let f0 = print_line (case properties frame ''name'' of
                             Some (STRING s) \<Rightarrow> s
                           | _ \<Rightarrow> ''GRO File produced by chemfiles'') (gro_file fmt);
          f1 = print_line (right_align 5 (to_string (Frame_size frame))) f0;
          max_resid = initial_max_resid (residues (topology frame))
      in case write_atoms u frame [0 ..< Frame_size frame] (f1, [], max_resid) of
          (Inl e, f2, warnings, m) \<Rightarrow> (Inl e, fmt\<lparr>gro_file := f2\<rparr>, warnings)
        | (Inr _, f2, warnings, m) \<Rightarrow>
            (case write_cell u (cell frame) f2 of
               (Inl e, f3) \<Rightarrow> (Inl e, fmt\<lparr>gro_file := f3\<rparr>, warnings)
             | (Inr _, f3) \<Rightarrow>
                 (Inr (),
                  fmt\<lparr>gro_file := f3,
                      steps_positions := steps_positions fmt
                        @ [case tellg f3 of Some p \<Rightarrow> p | None \<Rightarrow> SIZE_MAX]\<rparr>,
                  warnings)))"

section \<open>The trajectory engine\<close>



section \<open>Decimal helpers for concrete files\<close>

text \<open>
  One instance of the helper parameters, used where the model is evaluated on a concrete
  file: unsigned decimal integers and decimal fractions without exponent, both after
  leading blanks; \<open>trim\<close> removes the blanks at both ends; \<open>split\<close> cuts at the
  delimiter and drops empty pieces; \<open>{:W.Pf}\<close> rounds to \<open>P\<close> decimals and pads with
  blanks on the left to the width \<open>W\<close>.
\<close>

definition is_digit :: "char \<Rightarrow> bool" where
  "is_digit c \<longleftrightarrow> 48 \<le> (of_char c :: nat) \<and> (of_char c :: nat) \<le> 57"

definition digits_value :: "string \<Rightarrow> nat" where
  "digits_value s = foldl (\<lambda>n c. 10 * n + (of_char c - 48)) 0 s"

definition skip_blanks :: "string \<Rightarrow> string" where
  "skip_blanks s = dropWhile (\<lambda>c. c = CHR '' '') s"

definition decimal_size_t :: "string \<Rightarrow> string + nat" where
  "decimal_size_t s =
     (let t = skip_blanks s in
      if t \<noteq> [] \<and> list_all is_digit t \<and> digits_value t \<le> SIZE_MAX then Inr (digits_value t)
      else Inl (''can not convert '' @ quoted s @ '' to an integer''))"

definition digits_int :: "string \<Rightarrow> int" where
  "digits_int s = foldl (\<lambda>n c. 10 * n + (of_char c - 48)) 0 s"

definition decimal_fraction :: "string \<Rightarrow> real option" where
  "decimal_fraction t =
     (let whole = takeWhile is_digit t; r = dropWhile is_digit t in
      if whole = [] then None
      else if r = [] then Some (of_int (digits_int whole))
      else if hd r = CHR ''.'' \<and> list_all is_digit (tl r) then
        Some (of_int (digits_int whole) + of_int (digits_int (tl r)) / 10 ^ length (tl r))
      else None)"

definition decimal_double :: "string \<Rightarrow> string + real" where
  "decimal_double s =
     (let t = skip_blanks s;
          r = (case t of
                 [] \<Rightarrow> None
               | c # cs \<Rightarrow> if c = CHR ''-'' then map_option uminus (decimal_fraction cs)
                           else decimal_fraction t)
      in case r of
          None \<Rightarrow> Inl (''can not convert '' @ quoted s @ '' to a number'')
        | Some x \<Rightarrow> Inr x)"

definition decimal_trim :: "string \<Rightarrow> string" where
  "decimal_trim s = rev (skip_blanks (rev (skip_blanks s)))"

fun split_pieces :: "char \<Rightarrow> string \<Rightarrow> string \<Rightarrow> string list" where
  "split_pieces d piece [] = (if piece = [] then [] else [piece])"
| "split_pieces d piece (c # cs) =
     (if c = d then (if piece = [] then split_pieces d [] cs else piece # split_pieces d [] cs)
      else split_pieces d (piece @ [c]) cs)"

definition decimal_split :: "string \<Rightarrow> char \<Rightarrow> string list" where
  "decimal_split s d = split_pieces d [] s"

definition decimal_format_f :: "nat \<Rightarrow> nat \<Rightarrow> real \<Rightarrow> string" where
  "decimal_format_f w p x =
     (let n = nat \<lfloor>\<bar>x\<bar> * 10 ^ p + 1 / 2\<rfloor>;
          frac = to_string (n mod 10 ^ p);
          digits = to_string (n div 10 ^ p) @ ''.'' @ replicate (p - length frac) (CHR ''0'') @ frac
      in right_align w (if x < 0 then CHR ''-'' # digits else digits))"

definition decimal_utils :: utils where
  "decimal_utils = \<lparr>parse_size_t = decimal_size_t, parse_double = decimal_double,
     trim = decimal_trim, split = decimal_split, format_f = decimal_format_f\<rparr>"

section \<open>Notions used to state the properties of the GRO format\<close>

text \<open>
  The position and velocity that the format description gives to the atom of an atom
  line: the three numbers of columns 20 to 44, times 10, and the three numbers of
  columns 44 to 68, times 10, when the line has them, else zero.
\<close>

definition spec_atom_values :: "utils \<Rightarrow> string \<Rightarrow> Vector3D \<Rightarrow> Vector3D \<Rightarrow> bool" where
  "spec_atom_values u line p v \<longleftrightarrow>
     (case (parse_double u (substr line 20 8), parse_double u (substr line 28 8),
            parse_double u (substr line 36 8)) of
        (Inr x, Inr y, Inr z) \<Rightarrow> p = (x * 10, y * 10, z * 10)
      | _ \<Rightarrow> False) \<and>
     (if 68 \<le> length line then
        (case (parse_double u (substr line 44 8), parse_double u (substr line 52 8),
               parse_double u (substr line 60 8)) of
           (Inr vx, Inr vy, Inr vz) \<Rightarrow> v = (vx * 10, vy * 10, vz * 10)
         | _ \<Rightarrow> False)
      else v = Vector3D_zero)"

text \<open>
  A line is the atom line that \<open>write\<close> prints for atom \<open>i\<close>: the four fields of
  five characters, of which the residue id is \<open>-1\<close> for a residue id above 99999 and
  the atom number is \<open>*****\<close> from index 99999 on, each with its warning; then the
  position and the velocity of the atom, divided by 10.
\<close>

definition atom_line_written :: "utils \<Rightarrow> Frame \<Rightarrow> nat \<Rightarrow> string \<Rightarrow> string list \<Rightarrow> bool" where
  "atom_line_written u frame i line warnings \<longleftrightarrow>
     (\<exists>resid resname index.
        line = format_atom_line u resid resname (atom_name (atoms (topology frame) ! i))
                 index (Vector3D_div (positions frame ! i) 10)
                 (map_option (\<lambda>vs. Vector3D_div (vs ! i) 10) (velocities frame)) \<and>
        length resid \<le> 5 \<and> length resname \<le> 5 \<and> length index \<le> 5 \<and>
        (99999 \<le> i \<longrightarrow> index = ''*****'' \<and>
           ''Too many atoms for GRO format, removing atomic id'' \<in> set warnings) \<and>
        (\<forall>r v. residue_for_atom (topology frame) i = Some r \<and> res_id r = Some v \<and> 99999 < v \<longrightarrow>
           resid = ''-1'' \<and>
           ''Too many residues for GRO format, removing residue id'' \<in> set warnings))"

text \<open>
  A number written with \<open>{:8.Pf}\<close> reads back: its field has the 8 characters of its
  width and \<open>parse<double>\<close> accepts it.
\<close>

definition field_reads_back :: "utils \<Rightarrow> nat \<Rightarrow> real \<Rightarrow> bool" where
  "field_reads_back u prec x \<longleftrightarrow>
     length (format_f u 8 prec x) = 8 \<and>
     (case parse_double u (format_f u 8 prec x) of Inr r \<Rightarrow> True | Inl m \<Rightarrow> False)"

definition vector_reads_back :: "utils \<Rightarrow> nat \<Rightarrow> Vector3D \<Rightarrow> bool" where
  "vector_reads_back u prec v \<longleftrightarrow>
     (case v of (x, y, z) \<Rightarrow>
        field_reads_back u prec x \<and> field_reads_back u prec y \<and> field_reads_back u prec z)"

text \<open>
  An atom line that \<open>read\<close> accepts: at least 44 characters, numbers in the three
  position fields and, from 68 characters on, in the three velocity fields.
\<close>

definition atom_line_readable :: "utils \<Rightarrow> string \<Rightarrow> bool" where
  "atom_line_readable u line \<longleftrightarrow>
     44 \<le> length line \<and>
     (\<forall>k \<in> {20, 28, 36}.
        case parse_double u (substr line k 8) of Inr r \<Rightarrow> True | Inl m \<Rightarrow> False) \<and>
     (68 \<le> length line \<longrightarrow>
        (\<forall>k \<in> {44, 52, 60}.
           case parse_double u (substr line k 8) of Inr r \<Rightarrow> True | Inl m \<Rightarrow> False))"

text \<open>
  A box line that \<open>read\<close> accepts: when it splits at blanks into 3 or into 9 fields,
  every field is a number for \<open>parse<double>\<close>, and of 9 fields the fourth, the fifth
  and the seventh are zero. A line of another number of fields is accepted and ignored.
\<close>

definition parses_as_double :: "utils \<Rightarrow> string \<Rightarrow> bool" where
  "parses_as_double u s \<longleftrightarrow> (case parse_double u s of Inr r \<Rightarrow> True | Inl m \<Rightarrow> False)"

definition box_line_readable :: "utils \<Rightarrow> string \<Rightarrow> bool" where
  "box_line_readable u box \<longleftrightarrow>
     (let box_values = split u box (CHR '' '') in
      if length box_values = 3 then list_all (parses_as_double u) box_values
      else if length box_values = 9 then
        list_all (parses_as_double u) box_values \<and>
        parse_double u (box_values ! 3) = Inr 0 \<and>
        parse_double u (box_values ! 4) = Inr 0 \<and>
        parse_double u (box_values ! 6) = Inr 0
      else True)"


text \<open>
  The number of atoms in the frame when \<open>read\<close> throws after it has parsed the atom
  count \<open>natoms\<close> of the step at line \<open>p\<close>: none when fewer than \<open>natoms\<close> lines are left,
  since \<open>readlines\<close> throws before the loop; otherwise one for each atom line before the
  first that \<open>read\<close> does not accept.
\<close>

definition atoms_before_failure :: "utils \<Rightarrow> string list \<Rightarrow> nat \<Rightarrow> nat \<Rightarrow> nat" where
  "atoms_before_failure u L p natoms =
     (if length L < p + 2 + natoms then 0
      else length (takeWhile (atom_line_readable u) (take natoms (drop (p + 2) L))))"

text \<open>
  The component of a position or velocity that comes back for a component \<open>x\<close> written
  with \<open>{:8.Pf}\<close>: \<open>x\<close> is divided by 10 and printed, and the field is parsed and
  multiplied by 10.
\<close>

definition value_read_back :: "utils \<Rightarrow> nat \<Rightarrow> real \<Rightarrow> real" where
  "value_read_back u prec x =
     (case parse_double u (format_f u 8 prec (x / 10)) of Inr r \<Rightarrow> r * 10 | Inl m \<Rightarrow> 0)"

definition vector_read_back :: "utils \<Rightarrow> nat \<Rightarrow> Vector3D \<Rightarrow> Vector3D" where
  "vector_read_back u prec v =
     (case v of (x, y, z) \<Rightarrow>
        (value_read_back u prec x, value_read_back u prec y, value_read_back u prec z))"

text \<open>
  The box line that \<open>write\<close> prints for a cell, and what it means that this line reads
  back: \<open>split\<close> cuts it at its blanks into the 3 or 9 fields that were printed,
  \<open>parse<double>\<close> accepts each of them and reads the three fields \<open>0.0\<close> of a triclinic
  cell as zero.
\<close>

definition written_box_line :: "utils \<Rightarrow> UnitCell \<Rightarrow> string" where
  "written_box_line u c =
     (if shape c = ORTHORHOMBIC \<or> shape c = INFINITE then
        (case cell_lengths c of (a, b, c) \<Rightarrow>
           ''  '' @ format_f u 8 5 (a / 10) @ ''  '' @ format_f u 8 5 (b / 10)
             @ ''  '' @ format_f u 8 5 (c / 10))
      else
        (case cell_matrix c of Matrix3D m00 m01 m02 m10 m11 m12 m20 m21 m22 \<Rightarrow>
           ''  '' @ format_f u 8 5 (m00 / 10) @ ''  '' @ format_f u 8 5 (m11 / 10)
             @ ''  '' @ format_f u 8 5 (m22 / 10) @ '' 0.0 0.0  '' @ format_f u 8 5 (m01 / 10)
             @ '' 0.0  '' @ format_f u 8 5 (m02 / 10) @ ''  '' @ format_f u 8 5 (m12 / 10)))"

definition box_reads_back :: "utils \<Rightarrow> UnitCell \<Rightarrow> bool" where
  "box_reads_back u c \<longleftrightarrow>
     (let box_values = split u (written_box_line u c) (CHR '' '') in
      list_all (parses_as_double u) box_values \<and>
      (if shape c = ORTHORHOMBIC \<or> shape c = INFINITE then length box_values = 3
       else length box_values = 9 \<and>
         parse_double u (box_values ! 3) = Inr 0 \<and>
         parse_double u (box_values ! 4) = Inr 0 \<and>
         parse_double u (box_values ! 6) = Inr 0))"

text \<open>
  Reading sequentially: \<open>n\<close> calls of \<open>read\<close>, each into a new frame. The result is the
  format after the last call, or \<open>None\<close> when one of the calls throws.
\<close>

fun read_sequentially :: "utils \<Rightarrow> nat \<Rightarrow> GROFormat \<Rightarrow> GROFormat option" where
  "read_sequentially u 0 fmt = Some fmt"
| "read_sequentially u (Suc n) fmt =
     (case GROFormat_read u fmt Frame_empty of
        (Inr _, frame, fmt') \<Rightarrow> read_sequentially u n fmt'
      | (Inl e, frame, fmt') \<Rightarrow> None)"

text \<open>
  Concrete files. \<open>water.gro\<close> has two steps: two atoms, the first with velocities, in an
  orthorhombic box; then one atom in a triclinic box.
\<close>

definition water_lines :: "string list" where
  "water_lines =
     [''water'',
      ''    2'',
      ''    1SOL     OW    1   0.126   1.624   1.679  0.1227 -0.0580  0.0434'',
      ''    1SOL    HW1    2   0.190   1.661   1.747'',
      ''   1.86206   1.86206   1.86206'',
      ''argon, triclinic'',
      ''    1'',
      ''    1AR      AR    1   0.500   1.000   1.500'',
      ''   3.00000   2.00000   1.00000   0.00000   0.00000   0.50000   0.00000   0.25000   0.75000'']"

definition water_gro :: TextFile where
  "water_gro = \<lparr>path = ''water.gro'', lines = water_lines, position = 0\<rparr>"

definition water_format :: GROFormat where
  "water_format = \<lparr>gro_file = water_gro, steps_positions = [0, 5], format_residues = []\<rparr>"

text \<open>
  \<open>short.gro\<close> has the number of lines of a step with one atom, but its atom line is too
  short. \<open>junk.gro\<close> has two lines that are not a step before its only step.
\<close>

definition short_gro :: TextFile where
  "short_gro = \<lparr>path = ''short.gro'',
     lines = [''bad step'', ''    1'', ''    1AR      AR    1   0.500'', ''   1.0   1.0   1.0''],
     position = 0\<rparr>"

definition short_format :: GROFormat where
  "short_format = \<lparr>gro_file = short_gro, steps_positions = [0], format_residues = []\<rparr>"

definition junk_gro :: TextFile where
  "junk_gro = \<lparr>path = ''junk.gro'',
     lines = [''junk'', ''more junk'',
       ''argon'',
       ''    1'',
       ''    1AR      AR    1   0.500   1.000   1.500'',
       ''   3.00000   2.00000   1.00000''],
     position = 0\<rparr>"

definition junk_format :: GROFormat where
  "junk_format = \<lparr>gro_file = junk_gro, steps_positions = [2], format_residues = []\<rparr>"

text \<open>
  \<open>box.gro\<close> has one step with one atom and a box line of 9 fields whose fourth field
  is not zero.
\<close>

definition box_gro :: TextFile where
  "box_gro = \<lparr>path = ''box.gro'',
     lines = [''skewed box'', ''    1'',
       ''    1AR      AR    1   0.500   1.000   1.500'',
       ''   3.00000   2.00000   1.00000   0.10000   0.00000   0.50000   0.00000   0.25000   0.75000''],
     position = 0\<rparr>"

definition box_format :: GROFormat where
  "box_format = \<lparr>gro_file = box_gro, steps_positions = [0], format_residues = []\<rparr>"

text \<open>
  Concrete frames to write, into a new file: one atom in a residue with the id 100000;
  and 100000 atoms at the origin, the last of them in a residue with the id 100000.
\<close>

definition new_format :: GROFormat where
  "new_format = \<lparr>gro_file = \<lparr>path = ''out.gro'', lines = [], position = 0\<rparr>,
     steps_positions = [], format_residues = []\<rparr>"

definition resid_frame :: Frame where
  "resid_frame = \<lparr>step = 0, positions = [(1, 2, 3)], velocities = None,
     topology = \<lparr>atoms = [Atom ''AR''],
        residues = [\<lparr>res_name = ''AR'', res_id = Some 100000, res_atoms = [0]\<rparr>],
        bonds = []\<rparr>,
     cell = UnitCell_infinite, properties = Map.empty\<rparr>"

definition huge_frame :: Frame where
  "huge_frame = \<lparr>step = 0, positions = replicate 100000 (0, 0, 0), velocities = None,
     topology = \<lparr>atoms = replicate 100000 (Atom ''AR''),
        residues = [\<lparr>res_name = ''AR'', res_id = Some 100000, res_atoms = [99999]\<rparr>],
        bonds = []\<rparr>,
     cell = UnitCell_infinite, properties = Map.empty\<rparr>"

text \<open>
  Two more frames of 100000 atoms: the one above with a name of 13 characters for its
  first atom, and the one above with its first atom at \<open>x = 123456\<close>, a value that
  passes \<open>check_values_size\<close> and is printed in 9 characters by \<open>{:8.3f}\<close>.
\<close>

definition long_name_frame :: Frame where
  "long_name_frame = huge_frame\<lparr>topology := (topology huge_frame)
     \<lparr>atoms := Atom ''ABCDEFGHIJKLM'' # replicate 99999 (Atom ''AR'')\<rparr>\<rparr>"

definition far_atom_frame :: Frame where
  "far_atom_frame = huge_frame\<lparr>positions := (123456, 0, 0) # replicate 99999 (0, 0, 0)\<rparr>"

section \<open>Properties of the selection parsers\<close>

subsection \<open>Boolean operators\<close>

text \<open>
  Claim C5. The boolean operators are parsed as prefix operators. On an \<open>and\<close> (\<open>or\<close>)
  token the parser consumes the token, parses the right operand first and the left
  operand from what remains, and returns the conjunction (disjunction) of the two. With
  nothing after the operator it raises \<open>Missing right-hand side operand\<close>, with nothing
  after the right operand \<open>Missing left-hand side operand\<close>. This holds for every
  \<open>dispatch_parsing\<close>.
\<close>

theorem boolean_operators_are_prefix:
  fixes d :: "Token list \<Rightarrow> parse_result"
  shows
  "parse_AndExpr d [AND] =
      Inl (ParserError (''Missing right-hand side operand to '' @ quoted ''and'')) \<and>
   parse_OrExpr d [OR] =
      Inl (ParserError (''Missing right-hand side operand to '' @ quoted ''or'')) \<and>
   (ts0 \<noteq> [] \<longrightarrow> d ts0 = Inr (rhs0, []) \<longrightarrow>
      parse_AndExpr d (AND # ts0) =
        Inl (ParserError (''Missing left-hand side operand to '' @ quoted ''and'')) \<and>
      parse_OrExpr d (OR # ts0) =
        Inl (ParserError (''Missing left-hand side operand to '' @ quoted ''or''))) \<and>
   (ts \<noteq> [] \<longrightarrow> d ts = Inr (rhs, ts') \<longrightarrow> ts' \<noteq> [] \<longrightarrow> d ts' = Inr (lhs, ts'') \<longrightarrow>
      parse_AndExpr d (AND # ts) = Inr (AndExpr lhs rhs, ts'') \<and>
      parse_OrExpr d (OR # ts) = Inr (OrExpr lhs rhs, ts''))"
  by (simp add: parse_AndExpr_def parse_OrExpr_def)

text \<open>
  The hypotheses of C5 at \<open>name == O and index < 10\<close>, whose token stream is
  \<open>and\<close>, \<open><\<close>, \<open>10\<close>, \<open>index\<close>, \<open>==\<close>, \<open>O\<close>, \<open>name\<close>.
\<close>

theorem boolean_operators_are_prefix_witness:
  "[BINOP LT, NUM 10, IDENT ''index''] \<noteq> [] \<and>
   dispatch_parsing 1 [BINOP LT, NUM 10, IDENT ''index''] = Inr (IndexExpr LT 10, []) \<and>
   parse_AndExpr (dispatch_parsing 1) [AND, BINOP LT, NUM 10, IDENT ''index''] =
     Inl (ParserError (''Missing left-hand side operand to '' @ quoted ''and'')) \<and>
   [BINOP LT, NUM 10, IDENT ''index'', BINOP EQ, IDENT ''O'', IDENT ''name''] \<noteq> [] \<and>
   dispatch_parsing 1 [BINOP LT, NUM 10, IDENT ''index'', BINOP EQ, IDENT ''O'', IDENT ''name'']
     = Inr (IndexExpr LT 10, [BINOP EQ, IDENT ''O'', IDENT ''name'']) \<and>
   [BINOP EQ, IDENT ''O'', IDENT ''name''] \<noteq> [] \<and>
   dispatch_parsing 1 [BINOP EQ, IDENT ''O'', IDENT ''name''] = Inr (NameExpr ''O'' True, []) \<and>
   parse_AndExpr (dispatch_parsing 1)
       [AND, BINOP LT, NUM 10, IDENT ''index'', BINOP EQ, IDENT ''O'', IDENT ''name'']
     = Inr (AndExpr (NameExpr ''O'' True) (IndexExpr LT 10), []) \<and>
   parse_OrExpr (dispatch_parsing 1)
       [OR, BINOP LT, NUM 10, IDENT ''index'', BINOP EQ, IDENT ''O'', IDENT ''name'']
     = Inr (OrExpr (NameExpr ''O'' True) (IndexExpr LT 10), [])"
proof -
  let ?d = "dispatch_parsing 1"
  let ?i = "[BINOP LT, NUM 10, IDENT ''index'']"
  let ?n = "[BINOP EQ, IDENT ''O'', IDENT ''name'']"
  have i: "?d ?i = Inr (IndexExpr LT 10, [])"
    by (simp add: is_ident_def is_binary_op_def is_number_def size_t_of_double_def)
  have n: "?d ?n = Inr (NameExpr ''O'' True, [])"
    by (simp add: is_ident_def)
  have b: "?d (?i @ ?n) = Inr (IndexExpr LT 10, ?n)"
    by (simp add: is_ident_def is_binary_op_def is_number_def size_t_of_double_def)
  show ?thesis
    using boolean_operators_are_prefix [of ?d ?i "IndexExpr LT 10" "?i @ ?n" "IndexExpr LT 10" ?n
        "NameExpr ''O'' True" "[]"] i n b
    by simp
qed

subsection \<open>Syntax errors\<close>

text \<open>
  Claim C4 says that a syntax error raises an exception that carries the byte offset of
  the error. The parsers raise \<open>ParserError\<close> with a message and no offset: for
  \<open>index == 1.5\<close> the exception is the message below.
\<close>

theorem syntax_error_has_no_offset:
  "parse_IndexExpr [BINOP EQ, NUM (3 / 2), IDENT ''index'']
     = Inl (ParserError ''Index selection should contain an integer'') \<and>
   byte_offset (ParserError ''Index selection should contain an integer'') = None"
  by (simp add: is_ident_def is_binary_op_def is_number_def byte_offset_def)

text \<open>
  Claim C4, amended. A token stream that \<open>parse<IndexExpr>\<close> rejects because the value
  is not a whole number raises a \<open>ParserError\<close> whose message says so. Every exception
  that leaves \<open>parse<AndExpr>\<close> is without a byte offset; it is a \<open>ParserError\<close> whose
  message names the missing operand side, or names the side in which \<open>dispatch_parsing\<close>
  raised a \<open>ParserError\<close> followed by that error's message; or it is an exception of
  another type that \<open>dispatch_parsing\<close> raised, passed through unchanged.
\<close>

theorem syntax_errors_carry_a_message:
  fixes d :: "Token list \<Rightarrow> parse_result"
  shows
  "(is_binary_op t0 \<and> \<not> (is_number t1 \<and> of_int \<lceil>number t1\<rceil> = number t1) \<longrightarrow>
      parse_IndexExpr (t0 # t1 # IDENT ''index'' # rest)
        = Inl (ParserError ''Index selection should contain an integer'')) \<and>
   (parse_AndExpr d (AND # ts) = Inl e \<longrightarrow>
      byte_offset e = None \<and>
      (case e of
         ParserError m \<Rightarrow>
           m = ''Missing right-hand side operand to '' @ quoted ''and'' \<or>
           m = ''Missing left-hand side operand to '' @ quoted ''and'' \<or>
           (\<exists>m' ts'. d ts' = Inl (ParserError m') \<and>
              (m = ''Error in right-hand side operand to '' @ quoted ''and'' @ '': '' @ m' \<or>
               m = ''Error in left-hand side operand to '' @ quoted ''and'' @ '': '' @ m'))
       | _ \<Rightarrow> \<exists>ts'. d ts' = Inl e))"
proof (intro conjI impI)
  assume "is_binary_op t0 \<and> \<not> (is_number t1 \<and> of_int \<lceil>number t1\<rceil> = number t1)"
  then show "parse_IndexExpr (t0 # t1 # IDENT ''index'' # rest)
        = Inl (ParserError ''Index selection should contain an integer'')"
    by (auto simp: is_ident_def)
next
  assume "parse_AndExpr d (AND # ts) = Inl e"
  show "byte_offset e = None"
    by (simp add: byte_offset_def split: parser_exception.split)
next
  assume a: "parse_AndExpr d (AND # ts) = Inl e"
  show "case e of
         ParserError m \<Rightarrow>
           m = ''Missing right-hand side operand to '' @ quoted ''and'' \<or>
           m = ''Missing left-hand side operand to '' @ quoted ''and'' \<or>
           (\<exists>m' ts'. d ts' = Inl (ParserError m') \<and>
              (m = ''Error in right-hand side operand to '' @ quoted ''and'' @ '': '' @ m' \<or>
               m = ''Error in left-hand side operand to '' @ quoted ''and'' @ '': '' @ m'))
       | _ \<Rightarrow> \<exists>ts'. d ts' = Inl e"
  proof (cases "ts = []")
    case True
    with a show ?thesis by (auto simp: parse_AndExpr_def)
  next
    case False
    show ?thesis
    proof (cases "d ts")
      case (Inl e1)
      with a False have "e = rethrow (''Error in right-hand side operand to '' @ quoted ''and'' @ '': '') e1"
        by (simp add: parse_AndExpr_def)
      with Inl show ?thesis
        by (cases e1) (auto simp: rethrow_def)
    next
      case (Inr p)
      obtain rhs ts2 where p: "p = (rhs, ts2)" by (cases p)
      show ?thesis
      proof (cases "ts2 = []")
        case True
        with a False Inr p show ?thesis by (auto simp: parse_AndExpr_def)
      next
        case nonempty: False
        show ?thesis
        proof (cases "d ts2")
          case (Inl e2)
          with a False Inr p nonempty
          have "e = rethrow (''Error in left-hand side operand to '' @ quoted ''and'' @ '': '') e2"
            by (simp add: parse_AndExpr_def)
          with Inl show ?thesis
            by (cases e2) (auto simp: rethrow_def)
        next
          case (Inr q)
          with a False \<open>d ts = Inr p\<close> p nonempty show ?thesis
            by (auto simp: parse_AndExpr_def split: prod.splits)
        qed
      qed
    qed
  qed
qed

text \<open>The hypotheses of the amended C4 at \<open>index == 1.5\<close>, alone and as operand of \<open>and\<close>.\<close>

theorem syntax_errors_carry_a_message_witness:
  "(is_binary_op (BINOP EQ) \<and> \<not> (is_number (NUM (3 / 2)) \<and> of_int \<lceil>number (NUM (3 / 2))\<rceil> = number (NUM (3 / 2)))) \<and>
   parse_IndexExpr [BINOP EQ, NUM (3 / 2), IDENT ''index'']
     = Inl (ParserError ''Index selection should contain an integer'') \<and>
   parse_AndExpr (dispatch_parsing 1) [AND, BINOP EQ, NUM (3 / 2), IDENT ''index'']
     = Inl (ParserError (''Error in right-hand side operand to '' @ quoted ''and'' @ '': ''
              @ ''Index selection should contain an integer'')) \<and>
   byte_offset (ParserError (''Error in right-hand side operand to '' @ quoted ''and'' @ '': ''
              @ ''Index selection should contain an integer'')) = None"
proof -
  let ?ts = "[BINOP EQ, NUM (3 / 2), IDENT ''index'']"
  let ?e = "ParserError (''Error in right-hand side operand to '' @ quoted ''and'' @ '': ''
              @ ''Index selection should contain an integer'')"
  have h1: "is_binary_op (BINOP EQ) \<and> \<not> (is_number (NUM (3 / 2)) \<and> of_int \<lceil>number (NUM (3 / 2))\<rceil> = number (NUM (3 / 2)))"
    by (simp add: is_binary_op_def)
  have h2: "parse_AndExpr (dispatch_parsing 1) (AND # ?ts) = Inl ?e"
    by (simp add: parse_AndExpr_def rethrow_def is_ident_def is_binary_op_def is_number_def)
  show ?thesis
    using syntax_errors_carry_a_message [of "BINOP EQ" "NUM (3 / 2)" "[]" "dispatch_parsing 1" ?ts ?e] h1 h2
    by simp
qed

section \<open>Properties of the GRO format\<close>

subsection \<open>Sequencing, the file and the stages of \<open>read\<close>\<close>

lemma and_then_Inl [simp]: "and_then (Inl e) k = Inl e"
  by (simp add: and_then_def)

lemma and_then_Inr [simp]: "and_then (Inr x) k = k x"
  by (simp add: and_then_def)

lemma and_then_eq_Inr:
  "and_then r k = Inr y \<longleftrightarrow> (\<exists>x. r = Inr x \<and> k x = Inr y)"
  by (cases r) simp_all

lemma parse_d_eq_Inr: "parse_d u s = Inr x \<longleftrightarrow> parse_double u s = Inr x"
  by (simp add: parse_d_def split: sum.splits)

text \<open>What one atom line adds to the frame.\<close>

lemma read_atom_line_Inr:
  assumes "read_atom_line u line (fr, rs) = Inr (fr', rs')"
  shows "44 \<le> length line \<and>
    (\<exists>p v. spec_atom_values u line p v \<and>
       fr' = add_atom (Atom (trim u (substr line 10 5))) p v fr)"
proof -
  from assms have len: "44 \<le> length line"
    by (auto simp: read_atom_line_def split: if_splits)
  with assms obtain x y z where
    px: "parse_double u (substr line 20 8) = Inr x" and
    py: "parse_double u (substr line 28 8) = Inr y" and
    pz: "parse_double u (substr line 36 8) = Inr z" and
    body: "(if 68 \<le> length line then
         and_then (parse_d u (substr line 44 8)) (\<lambda>vx0.
         and_then (parse_d u (substr line 52 8)) (\<lambda>vy0.
         and_then (parse_d u (substr line 60 8)) (\<lambda>vz0.
         Inr (add_atom (Atom (trim u (substr line 10 5))) (x * 10, y * 10, z * 10)
                (vx0 * 10, vy0 * 10, vz0 * 10) fr))))
       else Inr (add_atom (Atom (trim u (substr line 10 5))) (x * 10, y * 10, z * 10)
                Vector3D_zero fr)) = Inr fr'"
    by (auto simp: read_atom_line_def Let_def and_then_eq_Inr parse_d_eq_Inr)
  show ?thesis
  proof (cases "68 \<le> length line")
    case True
    with body obtain vx vy vz where
      "parse_double u (substr line 44 8) = Inr vx"
      "parse_double u (substr line 52 8) = Inr vy"
      "parse_double u (substr line 60 8) = Inr vz"
      "fr' = add_atom (Atom (trim u (substr line 10 5))) (x * 10, y * 10, z * 10)
                (vx * 10, vy * 10, vz * 10) fr"
      by (auto simp: and_then_eq_Inr parse_d_eq_Inr)
    with True len px py pz show ?thesis by (auto simp: spec_atom_values_def)
  next
    case False
    with body have
      "fr' = add_atom (Atom (trim u (substr line 10 5))) (x * 10, y * 10, z * 10) Vector3D_zero fr"
      by simp
    with False len px py pz show ?thesis by (auto simp: spec_atom_values_def)
  qed
qed

lemma read_atoms_Inr:
  assumes "read_atoms u ls (fr, rs) = (Inr (), fr', rs')"
    and "velocities fr = Some vs0"
  shows "\<exists>ps vs. positions fr' = positions fr @ ps \<and> velocities fr' = Some (vs0 @ vs) \<and>
      length ps = length ls \<and> length vs = length ls \<and>
      cell fr' = cell fr \<and> properties fr' = properties fr \<and> step fr' = step fr \<and>
      atoms (topology fr') = atoms (topology fr) @ map (\<lambda>l. Atom (trim u (substr l 10 5))) ls \<and>
      (\<forall>i < length ls. 44 \<le> length (ls ! i) \<and> spec_atom_values u (ls ! i) (ps ! i) (vs ! i))"
  using assms
proof (induction ls arbitrary: fr rs vs0)
  case Nil
  then show ?case by simp
next
  case (Cons l ls)
  from Cons.prems(1) obtain fr1 rs1 where
    l: "read_atom_line u l (fr, rs) = Inr (fr1, rs1)" and
    rest: "read_atoms u ls (fr1, rs1) = (Inr (), fr', rs')"
    by (auto split: sum.splits)
  from read_atom_line_Inr [OF l] obtain p v where
    len: "44 \<le> length l" and
    pv: "spec_atom_values u l p v" and
    fr1: "fr1 = add_atom (Atom (trim u (substr l 10 5))) p v fr"
    by blast
  have v1: "velocities fr1 = Some (vs0 @ [v])"
    using fr1 Cons.prems(2) by (simp add: add_atom_def)
  from Cons.IH [OF rest v1] obtain ps vs where
    ih: "positions fr' = positions fr1 @ ps" "velocities fr' = Some ((vs0 @ [v]) @ vs)"
      "length ps = length ls" "length vs = length ls"
      "cell fr' = cell fr1" "properties fr' = properties fr1" "step fr' = step fr1"
      "atoms (topology fr') = atoms (topology fr1) @ map (\<lambda>l. Atom (trim u (substr l 10 5))) ls"
    and all: "\<forall>i < length ls. 44 \<le> length (ls ! i) \<and> spec_atom_values u (ls ! i) (ps ! i) (vs ! i)"
    by blast
  have "positions fr' = positions fr @ (p # ps)" "velocities fr' = Some (vs0 @ (v # vs))"
    "length (p # ps) = length (l # ls)" "length (v # vs) = length (l # ls)"
    "cell fr' = cell fr" "properties fr' = properties fr" "step fr' = step fr"
    "atoms (topology fr') = atoms (topology fr) @ map (\<lambda>l. Atom (trim u (substr l 10 5))) (l # ls)"
    using ih fr1 by (simp_all add: add_atom_def Topology_add_atom_def)
  moreover have "\<forall>i < length (l # ls). 44 \<le> length ((l # ls) ! i) \<and>
      spec_atom_values u ((l # ls) ! i) ((p # ps) ! i) ((v # vs) ! i)"
    using len pv all by (auto simp: nth_Cons split: nat.splits)
  ultimately show ?case by blast
qed

lemma foldl_add_residue_fields [simp]:
  "positions (foldl (\<lambda>fr kr. add_residue (snd kr) fr) fr rs) = positions fr"
  "velocities (foldl (\<lambda>fr kr. add_residue (snd kr) fr) fr rs) = velocities fr"
  "cell (foldl (\<lambda>fr kr. add_residue (snd kr) fr) fr rs) = cell fr"
  "properties (foldl (\<lambda>fr kr. add_residue (snd kr) fr) fr rs) = properties fr"
  "step (foldl (\<lambda>fr kr. add_residue (snd kr) fr) fr rs) = step fr"
  "atoms (topology (foldl (\<lambda>fr kr. add_residue (snd kr) fr) fr rs)) = atoms (topology fr)"
  by (induction rs arbitrary: fr) (simp_all add: add_residue_def Topology_add_residue_def)

lemma read_box_fields:
  assumes "read_box u box fr = Inr fr'"
  shows "positions fr' = positions fr \<and> velocities fr' = velocities fr \<and>
    topology fr' = topology fr \<and> properties fr' = properties fr \<and> step fr' = step fr"
  using assms
  by (auto simp: read_box_def Let_def and_then_eq_Inr set_cell_def split: if_splits)

lemma cleared_frame_fields [simp]:
  "positions (Frame_resize 0 g) = []"
  "velocities (Frame_resize 0 (Frame_reserve n (add_velocities g))) = Some []"
  "atoms (topology (Frame_resize 0 g)) = []"
  "properties (Frame_resize 0 (Frame_reserve n (add_velocities g))) = properties g"
  "step (Frame_resize 0 (Frame_reserve n (add_velocities g))) = step g"
  "cell (Frame_resize 0 (Frame_reserve n (add_velocities g))) = cell g"
  by (simp_all add: Frame_resize_def Frame_reserve_def add_velocities_def resize_vectors_def
      Topology_resize_def split: option.splits)

lemma readline_Inr:
  "readline f = (Inr l, f') \<longleftrightarrow>
     position f < length (lines f) \<and> l = lines f ! position f \<and> f' = f\<lparr>position := Suc (position f)\<rparr>"
  by (auto simp: readline_def)

lemma readlines_Inr:
  "readlines n f = (Inr ls, f') \<longleftrightarrow>
     position f + n \<le> length (lines f) \<and> ls = take n (drop (position f) (lines f)) \<and>
     f' = f\<lparr>position := position f + n\<rparr>"
  by (auto simp: readlines_def)

text \<open>The stages of a call of \<open>read\<close> that returns normally.\<close>

lemma GROFormat_read_Inr:
  assumes "GROFormat_read u fmt frame = (Inr (), frame', fmt')"
  shows "\<exists>natoms frame3 rs frame4.
    position (gro_file fmt) + natoms + 3 \<le> length (lines (gro_file fmt)) \<and>
    parse_size_t u (lines (gro_file fmt) ! Suc (position (gro_file fmt))) = Inr natoms \<and>
    read_atoms u (take natoms (drop (position (gro_file fmt) + 2) (lines (gro_file fmt))))
      (Frame_resize 0 (Frame_reserve natoms (add_velocities
         (Frame_set ''name'' (STRING (lines (gro_file fmt) ! position (gro_file fmt))) frame))), [])
      = (Inr (), frame3, rs) \<and>
    read_box u (lines (gro_file fmt) ! (position (gro_file fmt) + 2 + natoms)) frame3 = Inr frame4 \<and>
    frame' = foldl (\<lambda>fr kr. add_residue (snd kr) fr) frame4 rs \<and>
    fmt' = fmt\<lparr>gro_file := (gro_file fmt)\<lparr>position := position (gro_file fmt) + natoms + 3\<rparr>,
               format_residues := rs\<rparr>"
proof -
  let ?f = "gro_file fmt"
  from assms obtain title f1 where r1: "readline ?f = (Inr title, f1)"
    by (auto simp: GROFormat_read_def Let_def split: prod.splits sum.splits)
  let ?frame1 = "Frame_set ''name'' (STRING title) frame"
  from assms r1 obtain count f2 where r2: "readline f1 = (Inr count, f2)"
    by (auto simp: GROFormat_read_def Let_def split: prod.splits sum.splits)
  from assms r1 r2 obtain natoms where n: "parse_size_t u count = Inr natoms"
    by (auto simp: GROFormat_read_def Let_def split: prod.splits sum.splits)
  let ?frame2 = "Frame_resize 0 (Frame_reserve natoms (add_velocities ?frame1))"
  from assms r1 r2 n obtain ls f3 where r3: "readlines natoms f2 = (Inr ls, f3)"
    by (auto simp: GROFormat_read_def Let_def split: prod.splits sum.splits)
  from assms r1 r2 n r3 obtain frame3 rs where a: "read_atoms u ls (?frame2, []) = (Inr (), frame3, rs)"
    by (auto simp: GROFormat_read_def Let_def split: prod.splits sum.splits)
  from assms r1 r2 n r3 a obtain box f4 where r4: "readline f3 = (Inr box, f4)"
    by (auto simp: GROFormat_read_def Let_def split: prod.splits sum.splits)
  from assms r1 r2 n r3 a r4 obtain frame4 where b: "read_box u box frame3 = Inr frame4"
    by (auto simp: GROFormat_read_def Let_def split: prod.splits sum.splits)
  from assms r1 r2 n r3 a r4 b have res:
    "frame' = foldl (\<lambda>fr kr. add_residue (snd kr) fr) frame4 rs"
    "fmt' = fmt\<lparr>gro_file := f4, format_residues := rs\<rparr>"
    by (auto simp: GROFormat_read_def Let_def split: prod.splits sum.splits)
  from r1 have t: "title = lines ?f ! position ?f" "f1 = ?f\<lparr>position := Suc (position ?f)\<rparr>"
    "position ?f < length (lines ?f)"
    by (simp_all add: readline_Inr)
  from r2 t have c: "count = lines ?f ! Suc (position ?f)" "f2 = ?f\<lparr>position := position ?f + 2\<rparr>"
    by (simp_all add: readline_Inr)
  from r3 c have l: "ls = take natoms (drop (position ?f + 2) (lines ?f))"
    "f3 = ?f\<lparr>position := position ?f + 2 + natoms\<rparr>"
    "position ?f + 2 + natoms \<le> length (lines ?f)"
    by (simp_all add: readlines_Inr)
  from r4 l have bx: "box = lines ?f ! (position ?f + 2 + natoms)"
    "f4 = ?f\<lparr>position := position ?f + natoms + 3\<rparr>"
    "position ?f + natoms + 3 \<le> length (lines ?f)"
    by (auto simp: readline_Inr)
  show ?thesis
    using n a b res t c l bx by auto
qed

text \<open>The frame after a call of \<open>read\<close> that returns normally.\<close>

lemma GROFormat_read_frame:
  assumes "GROFormat_read u fmt frame = (Inr (), frame', fmt')"
  shows "\<exists>natoms vs.
    parse_size_t u (lines (gro_file fmt) ! Suc (position (gro_file fmt))) = Inr natoms \<and>
    position (gro_file fmt) + natoms + 3 \<le> length (lines (gro_file fmt)) \<and>
    length (positions frame') = natoms \<and> velocities frame' = Some vs \<and> length vs = natoms \<and>
    (\<forall>i < natoms. 44 \<le> length (lines (gro_file fmt) ! (position (gro_file fmt) + 2 + i)) \<and>
       spec_atom_values u (lines (gro_file fmt) ! (position (gro_file fmt) + 2 + i))
         (positions frame' ! i) (vs ! i)) \<and>
    atoms (topology frame') = map (\<lambda>l. Atom (trim u (substr l 10 5)))
       (take natoms (drop (position (gro_file fmt) + 2) (lines (gro_file fmt)))) \<and>
    properties frame' =
      (properties frame)(''name'' \<mapsto> STRING (lines (gro_file fmt) ! position (gro_file fmt))) \<and>
    step frame' = step frame"
proof -
  let ?L = "lines (gro_file fmt)" and ?p = "position (gro_file fmt)"
  from GROFormat_read_Inr [OF assms] obtain natoms frame3 rs frame4 where
    bound: "?p + natoms + 3 \<le> length ?L" and
    n: "parse_size_t u (?L ! Suc ?p) = Inr natoms" and
    a: "read_atoms u (take natoms (drop (?p + 2) ?L))
      (Frame_resize 0 (Frame_reserve natoms (add_velocities
         (Frame_set ''name'' (STRING (?L ! ?p)) frame))), []) = (Inr (), frame3, rs)" and
    b: "read_box u (?L ! (?p + 2 + natoms)) frame3 = Inr frame4" and
    f: "frame' = foldl (\<lambda>fr kr. add_residue (snd kr) fr) frame4 rs"
    by blast
  let ?ls = "take natoms (drop (?p + 2) ?L)"
  have len: "length ?ls = natoms" using bound by simp
  have nth: "?ls ! i = ?L ! (?p + 2 + i)" if "i < natoms" for i
    using that bound by simp
  from read_atoms_Inr [OF a] obtain ps vs where
    r: "positions frame3 = ps" "velocities frame3 = Some vs"
      "length ps = natoms" "length vs = natoms"
      "properties frame3 = (properties frame)(''name'' \<mapsto> STRING (?L ! ?p))"
      "step frame3 = step frame"
      "atoms (topology frame3) = map (\<lambda>l. Atom (trim u (substr l 10 5))) ?ls"
    and all: "\<forall>i < length ?ls. 44 \<le> length (?ls ! i) \<and> spec_atom_values u (?ls ! i) (ps ! i) (vs ! i)"
    using len by (auto simp: Frame_set_def)
  from read_box_fields [OF b] r f have
    "length (positions frame') = natoms" "velocities frame' = Some vs" "length vs = natoms"
    "positions frame' = ps"
    "atoms (topology frame') = map (\<lambda>l. Atom (trim u (substr l 10 5))) ?ls"
    "properties frame' = (properties frame)(''name'' \<mapsto> STRING (?L ! ?p))"
    "step frame' = step frame"
    by simp_all
  moreover have "\<forall>i < natoms. 44 \<le> length (?L ! (?p + 2 + i)) \<and>
       spec_atom_values u (?L ! (?p + 2 + i)) (ps ! i) (vs ! i)"
    using all len nth by auto
  ultimately show ?thesis using n bound by auto
qed

lemma read_box_cell:
  assumes "read_box u box fr = Inr fr'"
  shows "(length (split u box (CHR '' '')) = 3 \<longrightarrow>
      (\<exists>a b c.
         parse_double u (split u box (CHR '' '') ! 0) = Inr a \<and>
         parse_double u (split u box (CHR '' '') ! 1) = Inr b \<and>
         parse_double u (split u box (CHR '' '') ! 2) = Inr c \<and>
         cell fr' = UnitCell_lengths (a * 10) (b * 10) (c * 10))) \<and>
    (length (split u box (CHR '' '')) = 9 \<longrightarrow>
      (\<exists>v1_x v2_y v3_z v2_x v3_x v3_y.
         parse_double u (split u box (CHR '' '') ! 0) = Inr v1_x \<and>
         parse_double u (split u box (CHR '' '') ! 1) = Inr v2_y \<and>
         parse_double u (split u box (CHR '' '') ! 2) = Inr v3_z \<and>
         parse_double u (split u box (CHR '' '') ! 5) = Inr v2_x \<and>
         parse_double u (split u box (CHR '' '') ! 7) = Inr v3_x \<and>
         parse_double u (split u box (CHR '' '') ! 8) = Inr v3_y \<and>
         cell fr' = UnitCell_matrix (Matrix3D (v1_x * 10) (v2_x * 10) (v3_x * 10)
                                              0 (v2_y * 10) (v3_y * 10)
                                              0 0 (v3_z * 10)))) \<and>
    (length (split u box (CHR '' '')) \<noteq> 3 \<and> length (split u box (CHR '' '')) \<noteq> 9 \<longrightarrow>
       cell fr' = cell fr)"
  using assms
  by (auto simp: read_box_def Let_def and_then_eq_Inr parse_d_eq_Inr set_cell_def
      assert_zero_def split: if_splits)

subsection \<open>The concrete files\<close>

text \<open>Opening the concrete files finds the positions of their steps.\<close>

lemma water_open: "GROFormat_open decimal_utils water_gro = Inr water_format"
  by code_simp
lemma short_open: "GROFormat_open decimal_utils short_gro = Inr short_format"
  by code_simp
lemma junk_open: "GROFormat_open decimal_utils junk_gro = Inr junk_format"
  by code_simp

subsection \<open>Velocities after reading\<close>

text \<open>
  Claim C10. After every call of \<open>GROFormat::read\<close> that returns normally the frame
  contains velocity data, one velocity for each of the \<open>natoms\<close> atoms of the step, also
  when no atom line has velocity columns; the atom of a line without velocity columns
  (a line shorter than 68 characters) has the velocity zero.
\<close>

theorem velocities_always_present:
  assumes "GROFormat_read u fmt frame = (Inr (), frame', fmt')"
  shows "\<exists>natoms vs.
    parse_size_t u (lines (gro_file fmt) ! Suc (position (gro_file fmt))) = Inr natoms \<and>
    length (positions frame') = natoms \<and>
    velocities frame' = Some vs \<and> length vs = natoms \<and>
    (\<forall>i < natoms. length (lines (gro_file fmt) ! (position (gro_file fmt) + 2 + i)) < 68 \<longrightarrow>
       vs ! i = Vector3D_zero)"
proof -
  from GROFormat_read_frame [OF assms] obtain natoms vs where
    "parse_size_t u (lines (gro_file fmt) ! Suc (position (gro_file fmt))) = Inr natoms"
    "length (positions frame') = natoms" "velocities frame' = Some vs" "length vs = natoms"
    and all: "\<forall>i < natoms.
       spec_atom_values u (lines (gro_file fmt) ! (position (gro_file fmt) + 2 + i))
         (positions frame' ! i) (vs ! i)"
    by blast
  moreover from all have "\<forall>i < natoms.
      length (lines (gro_file fmt) ! (position (gro_file fmt) + 2 + i)) < 68 \<longrightarrow>
       vs ! i = Vector3D_zero"
    by (auto simp: spec_atom_values_def)
  ultimately show ?thesis by blast
qed

text \<open>
  The hypothesis of C10 at the first step of \<open>water.gro\<close>, whose second atom line has no
  velocity columns.
\<close>

theorem velocities_always_present_witness:
  "fst (GROFormat_read decimal_utils water_format Frame_empty) = Inr () \<and>
   (\<exists>vs. velocities (fst (snd (GROFormat_read decimal_utils water_format Frame_empty))) = Some vs \<and>
      length vs = 2 \<and> vs ! 1 = Vector3D_zero) \<and>
   length (lines (gro_file water_format) ! 3) < 68"
proof -
  let ?r = "GROFormat_read decimal_utils water_format Frame_empty"
  have ok: "fst ?r = Inr ()" by code_simp
  then have h: "?r = (Inr (), fst (snd ?r), snd (snd ?r))"
    by (simp add: prod_eq_iff)
  have n: "parse_size_t decimal_utils (lines (gro_file water_format) ! Suc (position (gro_file water_format))) = Inr 2"
    by code_simp
  have l: "position (gro_file water_format) = 0" "length (lines (gro_file water_format) ! 3) < 68"
    by code_simp+
  from velocities_always_present [OF h] n l obtain vs where
    vs: "velocities (fst (snd ?r)) = Some vs" "length vs = 2" and
    all: "\<forall>i < 2. length (lines (gro_file water_format) ! (0 + 2 + i)) < 68 \<longrightarrow>
       vs ! i = Vector3D_zero"
    by auto
  from all have "length (lines (gro_file water_format) ! (0 + 2 + 1)) < 68 \<longrightarrow>
       vs ! 1 = Vector3D_zero"
    by (metis one_less_numeral_iff semiring_norm(76))
  with l have "vs ! 1 = Vector3D_zero" by (simp add: numeral_3_eq_3)
  with vs ok l show ?thesis by blast
qed

subsection \<open>The box line\<close>

text \<open>
  Claim C6. After a call of \<open>read\<close> that returns normally: when the box line, the line
  after the \<open>natoms\<close> atom lines, splits at blanks into exactly 3 fields, the fields are
  numbers and the cell of the frame is the orthorhombic cell \<open>UnitCell(a, b, c)\<close> of
  10 times these numbers; when it splits into exactly 9 fields, read in the order
  \<open>v1x v2y v3z 0 0 v2x 0 v3x v3y\<close>, the cell is the triclinic cell of the upper triangular
  matrix with the rows \<open>(v1x, v2x, v3x)\<close>, \<open>(0, v2y, v3y)\<close>, \<open>(0, 0, v3z)\<close>, each
  number times 10.
\<close>

theorem box_line_sets_cell:
  assumes "GROFormat_read u fmt frame = (Inr (), frame', fmt')"
    and "parse_size_t u (lines (gro_file fmt) ! Suc (position (gro_file fmt))) = Inr natoms"
    and "box_values =
      split u (lines (gro_file fmt) ! (position (gro_file fmt) + 2 + natoms)) (CHR '' '')"
  shows "(length box_values = 3 \<longrightarrow>
      (\<exists>a b c.
         parse_double u (box_values ! 0) = Inr a \<and>
         parse_double u (box_values ! 1) = Inr b \<and>
         parse_double u (box_values ! 2) = Inr c \<and>
         cell frame' = UnitCell_lengths (a * 10) (b * 10) (c * 10) \<and>
         shape (cell frame') = ORTHORHOMBIC)) \<and>
    (length box_values = 9 \<longrightarrow>
      (\<exists>v1_x v2_y v3_z v2_x v3_x v3_y.
         parse_double u (box_values ! 0) = Inr v1_x \<and>
         parse_double u (box_values ! 1) = Inr v2_y \<and>
         parse_double u (box_values ! 2) = Inr v3_z \<and>
         parse_double u (box_values ! 5) = Inr v2_x \<and>
         parse_double u (box_values ! 7) = Inr v3_x \<and>
         parse_double u (box_values ! 8) = Inr v3_y \<and>
         cell frame' = UnitCell_matrix (Matrix3D (v1_x * 10) (v2_x * 10) (v3_x * 10)
                                                 0 (v2_y * 10) (v3_y * 10)
                                                 0 0 (v3_z * 10)) \<and>
         shape (cell frame') = TRICLINIC))"
proof -
  let ?L = "lines (gro_file fmt)" and ?p = "position (gro_file fmt)"
  from GROFormat_read_Inr [OF assms(1)] obtain n frame3 rs frame4 where
    n: "parse_size_t u (?L ! Suc ?p) = Inr n" and
    b0: "read_box u (?L ! (?p + 2 + n)) frame3 = Inr frame4" and
    f: "frame' = foldl (\<lambda>fr kr. add_residue (snd kr) fr) frame4 (rs :: (nat \<times> Residue) list)"
    by blast
  from n assms(2) have "n = natoms" by simp
  with b0 have b: "read_box u (?L ! (?p + 2 + natoms)) frame3 = Inr frame4" by simp
  have c: "cell frame' = cell frame4" using f by simp
  from read_box_cell [OF b] have
    three: "length box_values = 3 \<longrightarrow>
      (\<exists>a b c.
         parse_double u (box_values ! 0) = Inr a \<and>
         parse_double u (box_values ! 1) = Inr b \<and>
         parse_double u (box_values ! 2) = Inr c \<and>
         cell frame4 = UnitCell_lengths (a * 10) (b * 10) (c * 10))" and
    nine: "length box_values = 9 \<longrightarrow>
      (\<exists>v1_x v2_y v3_z v2_x v3_x v3_y.
         parse_double u (box_values ! 0) = Inr v1_x \<and>
         parse_double u (box_values ! 1) = Inr v2_y \<and>
         parse_double u (box_values ! 2) = Inr v3_z \<and>
         parse_double u (box_values ! 5) = Inr v2_x \<and>
         parse_double u (box_values ! 7) = Inr v3_x \<and>
         parse_double u (box_values ! 8) = Inr v3_y \<and>
         cell frame4 = UnitCell_matrix (Matrix3D (v1_x * 10) (v2_x * 10) (v3_x * 10)
                                                 0 (v2_y * 10) (v3_y * 10)
                                                 0 0 (v3_z * 10)))"
    unfolding assms(3) by blast+
  from three c have "length box_values = 3 \<longrightarrow>
      (\<exists>a b c.
         parse_double u (box_values ! 0) = Inr a \<and>
         parse_double u (box_values ! 1) = Inr b \<and>
         parse_double u (box_values ! 2) = Inr c \<and>
         cell frame' = UnitCell_lengths (a * 10) (b * 10) (c * 10) \<and>
         shape (cell frame') = ORTHORHOMBIC)"
    by auto
  moreover from nine c have "length box_values = 9 \<longrightarrow>
      (\<exists>v1_x v2_y v3_z v2_x v3_x v3_y.
         parse_double u (box_values ! 0) = Inr v1_x \<and>
         parse_double u (box_values ! 1) = Inr v2_y \<and>
         parse_double u (box_values ! 2) = Inr v3_z \<and>
         parse_double u (box_values ! 5) = Inr v2_x \<and>
         parse_double u (box_values ! 7) = Inr v3_x \<and>
         parse_double u (box_values ! 8) = Inr v3_y \<and>
         cell frame' = UnitCell_matrix (Matrix3D (v1_x * 10) (v2_x * 10) (v3_x * 10)
                                                 0 (v2_y * 10) (v3_y * 10)
                                                 0 0 (v3_z * 10)) \<and>
         shape (cell frame') = TRICLINIC)"
    by auto
  ultimately show ?thesis by blast
qed

text \<open>
  The hypotheses of C6 at the two steps of \<open>water.gro\<close>: the first has a box line of 3
  fields, the second one of 9 fields.
\<close>

theorem box_line_sets_cell_witness:
  "fst (GROFormat_read decimal_utils water_format Frame_empty) = Inr () \<and>
   length (decimal_split (water_lines ! 4) (CHR '' '')) = 3 \<and>
   cell (fst (snd (GROFormat_read decimal_utils water_format Frame_empty)))
     = UnitCell_lengths (186206 / 100000 * 10) (186206 / 100000 * 10) (186206 / 100000 * 10) \<and>
   fst (GROFormat_read_step decimal_utils 1 water_format Frame_empty) = Inr () \<and>
   length (decimal_split (water_lines ! 8) (CHR '' '')) = 9 \<and>
   cell (fst (snd (GROFormat_read_step decimal_utils 1 water_format Frame_empty)))
     = UnitCell_matrix (Matrix3D (3 * 10) (1 / 2 * 10) (1 / 4 * 10)
                                 0 (2 * 10) (3 / 4 * 10)
                                 0 0 (1 * 10))"
proof -
  let ?u = decimal_utils
  let ?r = "GROFormat_read ?u water_format Frame_empty"
  let ?fmt2 = "water_format\<lparr>gro_file := seekg 5 (gro_file water_format)\<rparr>"
  let ?s = "GROFormat_read ?u ?fmt2 Frame_empty"
  have step: "GROFormat_read_step ?u 1 water_format Frame_empty = ?s"
    by (simp add: GROFormat_read_step_def water_format_def)
  have ok1: "fst ?r = Inr ()" by code_simp
  have ok2: "fst ?s = Inr ()" by code_simp
  have h1: "?r = (Inr (), fst (snd ?r), snd (snd ?r))" using ok1 by (simp add: prod_eq_iff)
  have h2: "?s = (Inr (), fst (snd ?s), snd (snd ?s))" using ok2 by (simp add: prod_eq_iff)
  have n1: "parse_size_t ?u (lines (gro_file water_format) ! Suc (position (gro_file water_format))) = Inr 2"
    by code_simp
  have n2: "parse_size_t ?u (lines (gro_file ?fmt2) ! Suc (position (gro_file ?fmt2))) = Inr 1"
    by code_simp
  have b1: "split ?u (lines (gro_file water_format) ! (position (gro_file water_format) + 2 + 2)) (CHR '' '')
      = [''1.86206'', ''1.86206'', ''1.86206'']"
    by code_simp
  have b2: "split ?u (lines (gro_file ?fmt2) ! (position (gro_file ?fmt2) + 2 + 1)) (CHR '' '')
      = [''3.00000'', ''2.00000'', ''1.00000'', ''0.00000'', ''0.00000'', ''0.50000'',
         ''0.00000'', ''0.25000'', ''0.75000'']"
    by code_simp
  have p: "parse_double ?u ''1.86206'' = Inr (186206 / 100000)"
    "parse_double ?u ''3.00000'' = Inr 3" "parse_double ?u ''2.00000'' = Inr 2"
    "parse_double ?u ''1.00000'' = Inr 1" "parse_double ?u ''0.50000'' = Inr (1 / 2)"
    "parse_double ?u ''0.25000'' = Inr (1 / 4)" "parse_double ?u ''0.75000'' = Inr (3 / 4)"
    by code_simp+
  have l: "length (decimal_split (water_lines ! 4) (CHR '' '')) = 3"
    "length (decimal_split (water_lines ! 8) (CHR '' '')) = 9"
    by code_simp+
  from box_line_sets_cell [OF h1 n1 b1 [symmetric]] p
  have c1: "cell (fst (snd ?r))
      = UnitCell_lengths (186206 / 100000 * 10) (186206 / 100000 * 10) (186206 / 100000 * 10)"
    by auto
  from box_line_sets_cell [OF h2 n2 b2 [symmetric]] p
  have c2: "cell (fst (snd ?s)) = UnitCell_matrix (Matrix3D (3 * 10) (1 / 2 * 10) (1 / 4 * 10)
                                 0 (2 * 10) (3 / 4 * 10) 0 0 (1 * 10))"
    by auto
  show ?thesis using ok1 ok2 l c1 c2 step by simp
qed

subsection \<open>The positions of the steps\<close>

text \<open>
  \<open>forward\<close> skips exactly the lines that a successful \<open>read\<close> consumes, in a file of
  fewer than \<open>2 ^ 64\<close> lines.
\<close>

lemma forward_after_read:
  assumes "GROFormat_read u fmt frame = (Inr (), frame', fmt')"
    and "length (lines (gro_file fmt)) \<le> SIZE_MAX"
  shows "forward u (gro_file fmt) = (Inr True, gro_file fmt') \<and> \<not> eof (gro_file fmt) \<and>
    steps_positions fmt' = steps_positions fmt \<and>
    (\<exists>q. gro_file fmt' = (gro_file fmt)\<lparr>position := q\<rparr>)"
proof -
  let ?f = "gro_file fmt"
  let ?L = "lines ?f" and ?p = "position ?f"
  from GROFormat_read_Inr [OF assms(1)] obtain natoms and rs :: "(nat \<times> Residue) list" where
    bound: "?p + natoms + 3 \<le> length ?L" and
    n: "parse_size_t u (?L ! Suc ?p) = Inr natoms" and
    f: "fmt' = fmt\<lparr>gro_file := ?f\<lparr>position := ?p + natoms + 3\<rparr>, format_residues := rs\<rparr>"
    by blast
  from bound assms(2) have w: "size_t_wrap (natoms + 1) = natoms + 1"
    by (simp add: size_t_wrap_def SIZE_MAX_def)
  have r1: "readline ?f = (Inr (?L ! ?p), ?f\<lparr>position := Suc ?p\<rparr>)"
    using bound by (simp add: readline_def)
  have r2: "readline (?f\<lparr>position := Suc ?p\<rparr>) = (Inr (?L ! Suc ?p), ?f\<lparr>position := ?p + 2\<rparr>)"
    using bound by (simp add: readline_def)
  have r3: "readlines (natoms + 1) (?f\<lparr>position := ?p + 2\<rparr>)
      = (Inr (take (natoms + 1) (drop (?p + 2) ?L)), ?f\<lparr>position := ?p + natoms + 3\<rparr>)"
    using bound by (simp add: readlines_def)
  have "forward u ?f = (Inr True, ?f\<lparr>position := ?p + natoms + 3\<rparr>)"
    unfolding forward_def using r1 r2 r3 n w by (simp add: good_def)
  moreover have "\<not> eof ?f" using bound by (simp add: eof_def)
  ultimately show ?thesis using f by auto
qed

text \<open>The scan of the constructor: one step, and what it returns.\<close>

lemma GROFormat_scan_step:
  assumes "\<not> eof f" and "forward u f = (Inr True, f')"
  shows "GROFormat_scan u f acc = GROFormat_scan u f' (acc @ [position f])"
  using assms by (subst GROFormat_scan.simps) (simp add: tellg_def)

lemma GROFormat_scan_result:
  "GROFormat_scan u f acc = Inr (fe, steps) \<Longrightarrow>
     (\<exists>rest. steps = acc @ rest) \<and> (\<exists>q. fe = f\<lparr>position := q\<rparr>)"
proof (induction u f acc rule: GROFormat_scan.induct)
  case (1 u f steps0)
  show ?case
  proof (cases "eof f")
    case True
    with "1.prems" have "fe = f" "steps = steps0"
      by (simp_all add: GROFormat_scan.simps)
    then show ?thesis by (auto intro: exI [of _ "position f"] exI [of _ "[]"])
  next
    case False
    obtain r f' where fw: "forward u f = (r, f')" by force
    from forward_progress [OF False fw] have l: "lines f' = lines f" by simp
    show ?thesis
    proof (cases r)
      case (Inl e)
      with "1.prems" False fw show ?thesis
        by (simp add: GROFormat_scan.simps [of u f] tellg_def)
    next
      case (Inr found)
      with "1.prems" False fw
      have s: "GROFormat_scan u f' (if found then steps0 @ [position f] else steps0) = Inr (fe, steps)"
        by (simp add: GROFormat_scan.simps [of u f] tellg_def)
      have t: "tellg f = Some (position f)" by (simp add: tellg_def)
      from "1.IH" [OF False t fw [symmetric] Inr s] obtain rest q where
        ih: "steps = (if found then steps0 @ [position f] else steps0) @ rest"
          "fe = f'\<lparr>position := q\<rparr>"
        by blast
      have "f' = f\<lparr>position := position f'\<rparr>"
        using fw by (auto simp: forward_def good_def readline_def readlines_def
            split: if_splits sum.splits error.splits)
      with ih(2) have "fe = (f\<lparr>position := position f'\<rparr>)\<lparr>position := q\<rparr>" by simp
      then have "fe = f\<lparr>position := q\<rparr>" by simp
      moreover have "\<exists>rest'. steps = steps0 @ rest'"
        using ih(1) by (cases found) simp_all
      ultimately show ?thesis by blast
    qed
  qed
qed

text \<open>
  As long as sequential reading succeeds, the scan of the constructor went through the
  same positions and recorded them.
\<close>

lemma read_sequentially_scan:
  assumes "read_sequentially u n fmtA = Some fmtB"
    and "length (lines (gro_file fmtA)) \<le> SIZE_MAX"
  shows "\<exists>ps q. length ps = n \<and>
      GROFormat_scan u (gro_file fmtA) acc = GROFormat_scan u (gro_file fmtB) (acc @ ps) \<and>
      gro_file fmtB = (gro_file fmtA)\<lparr>position := q\<rparr> \<and>
      steps_positions fmtB = steps_positions fmtA"
  using assms
proof (induction n arbitrary: fmtA acc)
  case 0
  then have "fmtB = fmtA" by simp
  then show ?case by (auto intro: exI [of _ "position (gro_file fmtA)"])
next
  case (Suc n)
  from Suc.prems(1) obtain fr fmt1 where
    r: "GROFormat_read u fmtA Frame_empty = (Inr (), fr, fmt1)" and
    rest: "read_sequentially u n fmt1 = Some fmtB"
    by (auto split: prod.splits sum.splits)
  from forward_after_read [OF r Suc.prems(2)] obtain q where
    fw: "forward u (gro_file fmtA) = (Inr True, gro_file fmt1)" and
    ne: "\<not> eof (gro_file fmtA)" and
    sp: "steps_positions fmt1 = steps_positions fmtA" and
    q: "gro_file fmt1 = (gro_file fmtA)\<lparr>position := q\<rparr>"
    by blast
  from q Suc.prems(2) have b: "length (lines (gro_file fmt1)) \<le> SIZE_MAX" by simp
  from Suc.IH [OF rest b, of "acc @ [position (gro_file fmtA)]"] obtain ps q' where
    ih: "length ps = n"
      "GROFormat_scan u (gro_file fmt1) (acc @ [position (gro_file fmtA)])
         = GROFormat_scan u (gro_file fmtB) ((acc @ [position (gro_file fmtA)]) @ ps)"
      "gro_file fmtB = (gro_file fmt1)\<lparr>position := q'\<rparr>"
      "steps_positions fmtB = steps_positions fmt1"
    by blast
  have "length (position (gro_file fmtA) # ps) = Suc n" using ih by simp
  moreover have "GROFormat_scan u (gro_file fmtA) acc
      = GROFormat_scan u (gro_file fmtB) (acc @ position (gro_file fmtA) # ps)"
    using GROFormat_scan_step [OF ne fw, of acc] ih by simp
  moreover have "gro_file fmtB = (gro_file fmtA)\<lparr>position := q'\<rparr>"
    using ih q by simp
  moreover have "steps_positions fmtB = steps_positions fmtA" using ih sp by simp
  ultimately show ?case by blast
qed

text \<open>\<open>read\<close> does not depend on the residues of the previous step.\<close>

lemma GROFormat_read_intro:
  assumes "position (gro_file fmt) + natoms + 3 \<le> length (lines (gro_file fmt))"
    and "parse_size_t u (lines (gro_file fmt) ! Suc (position (gro_file fmt))) = Inr natoms"
    and "read_atoms u (take natoms (drop (position (gro_file fmt) + 2) (lines (gro_file fmt))))
      (Frame_resize 0 (Frame_reserve natoms (add_velocities
         (Frame_set ''name'' (STRING (lines (gro_file fmt) ! position (gro_file fmt))) frame))), [])
      = (Inr (), frame3, rs)"
    and "read_box u (lines (gro_file fmt) ! (position (gro_file fmt) + 2 + natoms)) frame3 = Inr frame4"
  shows "GROFormat_read u fmt frame =
    (Inr (), foldl (\<lambda>fr kr. add_residue (snd kr) fr) frame4 rs,
     fmt\<lparr>gro_file := (gro_file fmt)\<lparr>position := position (gro_file fmt) + natoms + 3\<rparr>,
         format_residues := rs\<rparr>)"
proof -
  let ?f = "gro_file fmt"
  let ?L = "lines ?f" and ?p = "position ?f"
  have r1: "readline ?f = (Inr (?L ! ?p), ?f\<lparr>position := Suc ?p\<rparr>)"
    using assms(1) by (simp add: readline_def)
  have r2: "readline (?f\<lparr>position := Suc ?p\<rparr>) = (Inr (?L ! Suc ?p), ?f\<lparr>position := ?p + 2\<rparr>)"
    using assms(1) by (simp add: readline_def)
  have r3: "readlines natoms (?f\<lparr>position := ?p + 2\<rparr>)
      = (Inr (take natoms (drop (?p + 2) ?L)), ?f\<lparr>position := ?p + 2 + natoms\<rparr>)"
    using assms(1) by (simp add: readlines_def)
  have r4: "readline (?f\<lparr>position := ?p + 2 + natoms\<rparr>)
      = (Inr (?L ! (?p + 2 + natoms)), ?f\<lparr>position := ?p + natoms + 3\<rparr>)"
    using assms(1) by (simp add: readline_def)
  have e: "Suc (Suc ?p) = ?p + 2" "Suc (Suc (?p + natoms)) = ?p + 2 + natoms"
    "Suc (Suc (Suc (?p + natoms))) = ?p + natoms + 3"
    by simp_all
  show ?thesis
    unfolding GROFormat_read_def
    by (simp add: r1 r2 r3 r4 assms(2,3,4) Let_def e del: add_2_eq_Suc add_2_eq_Suc')
qed

lemma GROFormat_read_format_residues:
  assumes "GROFormat_read u fmt frame = (Inr (), frame', fmt')"
  shows "GROFormat_read u (fmt\<lparr>format_residues := x\<rparr>) frame = (Inr (), frame', fmt')"
proof -
  let ?g = "fmt\<lparr>format_residues := x\<rparr>"
  from GROFormat_read_Inr [OF assms] obtain natoms frame3 frame4
    and rs :: "(nat \<times> Residue) list" where
    s: "position (gro_file fmt) + natoms + 3 \<le> length (lines (gro_file fmt))"
      "parse_size_t u (lines (gro_file fmt) ! Suc (position (gro_file fmt))) = Inr natoms"
      "read_atoms u (take natoms (drop (position (gro_file fmt) + 2) (lines (gro_file fmt))))
      (Frame_resize 0 (Frame_reserve natoms (add_velocities
         (Frame_set ''name'' (STRING (lines (gro_file fmt) ! position (gro_file fmt))) frame))), [])
      = (Inr (), frame3, rs)"
      "read_box u (lines (gro_file fmt) ! (position (gro_file fmt) + 2 + natoms)) frame3 = Inr frame4"
    and res: "frame' = foldl (\<lambda>fr kr. add_residue (snd kr) fr) frame4 rs"
      "fmt' = fmt\<lparr>gro_file := (gro_file fmt)\<lparr>position := position (gro_file fmt) + natoms + 3\<rparr>,
               format_residues := rs\<rparr>"
    by blast
  have g: "gro_file ?g = gro_file fmt" by simp
  from GROFormat_read_intro [of ?g natoms u frame frame3 rs frame4] s
  have "GROFormat_read u ?g frame =
    (Inr (), foldl (\<lambda>fr kr. add_residue (snd kr) fr) frame4 rs,
     ?g\<lparr>gro_file := (gro_file fmt)\<lparr>position := position (gro_file fmt) + natoms + 3\<rparr>,
         format_residues := rs\<rparr>)"
    by (simp only: g)
  with res show ?thesis by simp
qed

text \<open>
  Claim C2 says that for every trajectory and every \<open>i < nsteps()\<close>, \<open>read_step(i)\<close>
  yields the same frame as reading sequentially up to step \<open>i\<close>. \<open>junk.gro\<close> starts
  with two lines that are not a step: \<open>forward\<close> returns \<open>false\<close> on them and the scan
  goes on, so the file opens with one step, recorded at line 2. \<open>read_step(0)\<close> reads
  it, while the first sequential \<open>read\<close> starts at line 0 and fails with a \<open>FormatError\<close>.
\<close>

theorem scan_skips_what_reading_meets:
  "GROFormat_open decimal_utils junk_gro = Inr junk_format \<and>
   nsteps junk_format = 1 \<and>
   fst (GROFormat_read_step decimal_utils 0 junk_format Frame_empty) = Inr () \<and>
   read_sequentially decimal_utils 0 junk_format = Some junk_format \<and>
   fst (GROFormat_read decimal_utils junk_format Frame_empty)
     = Inl (FormatError (''can not read next step as GRO: can not convert ''
              @ quoted ''more junk'' @ '' to an integer''))"
proof -
  have "nsteps junk_format = 1" by code_simp
  moreover have "fst (GROFormat_read_step decimal_utils 0 junk_format Frame_empty) = Inr ()"
    by code_simp
  moreover have "fst (GROFormat_read decimal_utils junk_format Frame_empty)
     = Inl (FormatError (''can not read next step as GRO: can not convert ''
              @ quoted ''more junk'' @ '' to an integer''))"
    by code_simp
  ultimately show ?thesis using junk_open by simp
qed

text \<open>
  Claim C2, amended. For a GRO file of fewer than \<open>2 ^ 64\<close> lines that opens: the
  positions of the steps are the result of one forward scan of the file from its
  beginning; \<open>nsteps\<close> is the length of this vector; for every \<open>i < nsteps\<close>,
  \<open>read_step(i)\<close> is \<open>read\<close> after \<open>seekg\<close> to the \<open>i\<close>-th recorded position; and
  whenever reading sequentially succeeds for the steps \<open>0 .. i\<close>, step \<open>i\<close> exists and
  \<open>read_step(i)\<close> gives the frame that the sequential \<open>read\<close> of step \<open>i\<close> gives. (When
  sequential reading fails before, as in \<open>junk.gro\<close>, \<open>read_step(i)\<close> can still succeed.)
\<close>

theorem read_step_is_seek_then_read:
  assumes "GROFormat_open u f0 = Inr fmt"
    and "position f0 = 0"
    and "length (lines f0) \<le> SIZE_MAX"
  shows "(\<exists>f'. GROFormat_scan u f0 [] = Inr (f', steps_positions fmt)) \<and>
    nsteps fmt = length (steps_positions fmt) \<and>
    (\<forall>i < nsteps fmt.
       GROFormat_read_step u i fmt frame =
         GROFormat_read u (fmt\<lparr>gro_file := seekg (steps_positions fmt ! i) (gro_file fmt)\<rparr>) frame) \<and>
    (\<forall>i fmt_i frame' fmt'.
       read_sequentially u i fmt = Some fmt_i \<longrightarrow>
       GROFormat_read u fmt_i frame = (Inr (), frame', fmt') \<longrightarrow>
       i < nsteps fmt \<and> GROFormat_read_step u i fmt frame = (Inr (), frame', fmt'))"
proof -
  from assms(1) obtain fe steps where
    scan: "GROFormat_scan u f0 [] = Inr (fe, steps)" and
    fmt: "fmt = \<lparr>gro_file = rewind fe, steps_positions = steps, format_residues = []\<rparr>"
    by (auto simp: GROFormat_open_def split: sum.splits)
  from GROFormat_scan_result [OF scan] obtain q where "fe = f0\<lparr>position := q\<rparr>" by blast
  with assms(2) have f0: "gro_file fmt = f0" using fmt by (simp add: rewind_def)
  have sp: "steps_positions fmt = steps" using fmt by simp
  have one: "\<exists>f'. GROFormat_scan u f0 [] = Inr (f', steps_positions fmt)"
    using scan sp by auto
  have two: "nsteps fmt = length (steps_positions fmt)" by (simp add: nsteps_def)
  have three: "\<forall>i < nsteps fmt.
       GROFormat_read_step u i fmt frame =
         GROFormat_read u (fmt\<lparr>gro_file := seekg (steps_positions fmt ! i) (gro_file fmt)\<rparr>) frame"
    by (simp add: GROFormat_read_step_def nsteps_def)
  have four: "i < nsteps fmt \<and> GROFormat_read_step u i fmt frame = (Inr (), frame', fmt')"
    if seq: "read_sequentially u i fmt = Some fmt_i"
      and r: "GROFormat_read u fmt_i frame = (Inr (), frame', fmt')"
    for i fmt_i frame' fmt'
  proof -
    have b: "length (lines (gro_file fmt)) \<le> SIZE_MAX" using f0 assms(3) by simp
    from read_sequentially_scan [OF seq b, of "[]"] obtain ps q where
      ps: "length ps = i"
        "GROFormat_scan u (gro_file fmt) [] = GROFormat_scan u (gro_file fmt_i) ([] @ ps)"
        "gro_file fmt_i = (gro_file fmt)\<lparr>position := q\<rparr>"
        "steps_positions fmt_i = steps_positions fmt"
      by blast
    have bi: "length (lines (gro_file fmt_i)) \<le> SIZE_MAX" using ps(3) b by simp
    from forward_after_read [OF r bi] have
      fw: "forward u (gro_file fmt_i) = (Inr True, gro_file fmt')" and
      ne: "\<not> eof (gro_file fmt_i)"
      by simp_all
    from GROFormat_scan_step [OF ne fw, of ps] ps(2) scan f0
    have "GROFormat_scan u (gro_file fmt') (ps @ [position (gro_file fmt_i)]) = Inr (fe, steps)"
      by simp
    from GROFormat_scan_result [OF this] obtain rest where
      "steps = (ps @ [position (gro_file fmt_i)]) @ rest"
      by blast
    with ps(1) have i: "i < length steps" and at: "steps ! i = position (gro_file fmt_i)"
      by (simp_all add: nth_append)
    have q: "q = position (gro_file fmt_i)" using ps(3) by simp
    have "fmt\<lparr>gro_file := seekg (steps_positions fmt ! i) (gro_file fmt)\<rparr>
        = fmt_i\<lparr>format_residues := format_residues fmt\<rparr>"
      using ps(3,4) at sp q by (simp add: seekg_def)
    with GROFormat_read_format_residues [OF r, of "format_residues fmt"]
    have "GROFormat_read u (fmt\<lparr>gro_file := seekg (steps_positions fmt ! i) (gro_file fmt)\<rparr>) frame
        = (Inr (), frame', fmt')"
      by simp
    with i sp show ?thesis by (simp add: GROFormat_read_step_def nsteps_def)
  qed
  from one two three four show ?thesis by blast
qed

text \<open>The hypotheses of the amended C2 at the second step of \<open>water.gro\<close>.\<close>

theorem read_step_is_seek_then_read_witness:
  "GROFormat_open decimal_utils water_gro = Inr water_format \<and>
   position water_gro = 0 \<and> length (lines water_gro) \<le> SIZE_MAX \<and>
   nsteps water_format = 2 \<and>
   read_sequentially decimal_utils 1 water_format
     = Some (water_format\<lparr>gro_file := seekg 5 water_gro,
          format_residues := [(1, \<lparr>res_name = ''SOL'', res_id = Some 1, res_atoms = [0, 1]\<rparr>)]\<rparr>) \<and>
   fst (GROFormat_read decimal_utils
      (water_format\<lparr>gro_file := seekg 5 water_gro,
          format_residues := [(1, \<lparr>res_name = ''SOL'', res_id = Some 1, res_atoms = [0, 1]\<rparr>)]\<rparr>)
      Frame_empty) = Inr () \<and>
   GROFormat_read_step decimal_utils 1 water_format Frame_empty
     = GROFormat_read decimal_utils
      (water_format\<lparr>gro_file := seekg 5 water_gro,
          format_residues := [(1, \<lparr>res_name = ''SOL'', res_id = Some 1, res_atoms = [0, 1]\<rparr>)]\<rparr>)
      Frame_empty"
proof -
  let ?u = decimal_utils
  let ?fmt1 = "water_format\<lparr>gro_file := seekg 5 water_gro,
          format_residues := [(1, \<lparr>res_name = ''SOL'', res_id = Some 1, res_atoms = [0, 1]\<rparr>)]\<rparr>"
  let ?r = "GROFormat_read ?u ?fmt1 Frame_empty"
  have p: "position water_gro = 0" "length (lines water_gro) \<le> SIZE_MAX" by code_simp+
  have n: "nsteps water_format = 2" by code_simp
  have seq: "read_sequentially ?u 1 water_format = Some ?fmt1" by code_simp
  have ok: "fst ?r = Inr ()" by code_simp
  then have h: "?r = (Inr (), fst (snd ?r), snd (snd ?r))" by (simp add: prod_eq_iff)
  from read_step_is_seek_then_read [OF water_open p, of Frame_empty] seq h
  have "GROFormat_read_step ?u 1 water_format Frame_empty = (Inr (), fst (snd ?r), snd (snd ?r))"
    by blast
  with h have "GROFormat_read_step ?u 1 water_format Frame_empty = ?r" by simp
  with water_open p n seq ok show ?thesis by simp
qed

subsection \<open>What \<open>write\<close> prints\<close>

text \<open>The decimal digits of a number below \<open>10 ^ k\<close> are at most \<open>k\<close>.\<close>

lemma to_string_length:
  "n < 10 ^ k \<Longrightarrow> 0 < k \<Longrightarrow> length (to_string n) \<le> k"
proof (induction k arbitrary: n)
  case 0
  then show ?case by simp
next
  case (Suc k)
  show ?case
  proof (cases "n < 10")
    case True
    then show ?thesis by (simp add: to_string.simps [of n])
  next
    case False
    then have k: "0 < k" using Suc.prems(1) by (cases k) auto
    have "n div 10 < 10 ^ k" using Suc.prems(1) by (simp add: less_mult_imp_div_less mult.commute)
    from Suc.IH [OF this k] False show ?thesis
      by (simp add: to_string.simps [of n])
  qed
qed

lemma to_string_length_5: "n \<le> 99999 \<Longrightarrow> length (to_string n) \<le> 5"
  using to_string_length [of n 5] by simp

lemma written_resname_length: "length (fst (written_resname residue)) \<le> 5"
  by (simp add: written_resname_def substr_def split: option.splits)

lemma written_resid_length: "length (fst (written_resid residue m)) \<le> 5"
  by (auto simp: written_resid_def to_string_length_5 split: option.splits)

lemma to_gro_index_length: "length (fst (to_gro_index i)) \<le> 5"
  by (simp add: to_gro_index_def to_string_length_5)

text \<open>What a successful turn of the loop over the atoms prints and warns.\<close>

lemma write_atom_Inr:
  assumes "write_atom u frame i (f, w, m) = (Inr (), f', w', m')"
  shows "\<exists>line. f' = print_line line f \<and> atom_line_written u frame i line w' \<and> set w \<subseteq> set w'"
proof -
  let ?residue = "residue_for_atom (topology frame) i"
  let ?resname = "fst (written_resname ?residue)"
  let ?resid = "fst (written_resid ?residue m)"
  let ?index = "fst (to_gro_index i)"
  let ?w = "w @ snd (written_resname ?residue) @ fst (snd (written_resid ?residue m))
              @ snd (to_gro_index i)"
  from assms have
    f': "f' = print_line (format_atom_line u ?resid ?resname (atom_name (atoms (topology frame) ! i))
             ?index (Vector3D_div (positions frame ! i) 10)
             (map_option (\<lambda>vs. Vector3D_div (vs ! i) 10) (velocities frame))) f" and
    w': "w' = ?w"
    by (auto simp: write_atom_def Let_def split: prod.splits if_splits sum.splits option.splits)
  have "99999 \<le> i \<longrightarrow> ?index = ''*****'' \<and>
         ''Too many atoms for GRO format, removing atomic id'' \<in> set ?w"
    by (simp add: to_gro_index_def)
  moreover have "\<forall>r v. ?residue = Some r \<and> res_id r = Some v \<and> 99999 < v \<longrightarrow>
         ?resid = ''-1'' \<and> ''Too many residues for GRO format, removing residue id'' \<in> set ?w"
    by (auto simp: written_resid_def)
  ultimately have "atom_line_written u frame i
      (format_atom_line u ?resid ?resname (atom_name (atoms (topology frame) ! i))
             ?index (Vector3D_div (positions frame ! i) 10)
             (map_option (\<lambda>vs. Vector3D_div (vs ! i) 10) (velocities frame))) ?w"
    unfolding atom_line_written_def
    using written_resname_length [of ?residue] written_resid_length [of ?residue m]
      to_gro_index_length [of i]
    by blast
  moreover have "set w \<subseteq> set ?w" by auto
  ultimately show ?thesis using f' w' by blast
qed

lemma atom_line_written_mono:
  "atom_line_written u frame i line w \<Longrightarrow> set w \<subseteq> set w' \<Longrightarrow> atom_line_written u frame i line w'"
  unfolding atom_line_written_def by blast

lemma write_atoms_Inr:
  assumes "write_atoms u frame indices (f, w, m) = (Inr (), f', w', m')"
  shows "\<exists>ls. lines f' = lines f @ ls \<and> length ls = length indices \<and> path f' = path f \<and>
      set w \<subseteq> set w' \<and>
      (\<forall>k < length indices. atom_line_written u frame (indices ! k) (ls ! k) w')"
  using assms
proof (induction indices arbitrary: f w m)
  case Nil
  then show ?case by simp
next
  case (Cons i rest)
  from Cons.prems obtain f1 w1 m1 where
    a: "write_atom u frame i (f, w, m) = (Inr (), f1, w1, m1)" and
    r: "write_atoms u frame rest (f1, w1, m1) = (Inr (), f', w', m')"
    by (auto split: prod.splits sum.splits)
  from write_atom_Inr [OF a] obtain line where
    l: "f1 = print_line line f" "atom_line_written u frame i line w1" "set w \<subseteq> set w1"
    by blast
  from Cons.IH [OF r] obtain ls where
    ih: "lines f' = lines f1 @ ls" "length ls = length rest" "path f' = path f1"
      "set w1 \<subseteq> set w'"
      "\<forall>k < length rest. atom_line_written u frame (rest ! k) (ls ! k) w'"
    by blast
  have "lines f' = lines f @ (line # ls)" "length (line # ls) = length (i # rest)"
    "path f' = path f" "set w \<subseteq> set w'"
    using l ih by (auto simp: print_line_def)
  moreover have "\<forall>k < length (i # rest).
      atom_line_written u frame ((i # rest) ! k) ((line # ls) ! k) w'"
    using atom_line_written_mono [OF l(2) ih(4)] ih(5)
    by (auto simp: nth_Cons split: nat.splits)
  ultimately show ?case by blast
qed

lemma write_cell_Inr:
  assumes "write_cell u c f = (Inr (), f')"
  shows "\<exists>box. f' = print_line box f"
  using assms
  by (auto simp: write_cell_def split: if_splits prod.splits sum.splits Matrix3D.splits)

lemma write_cell_outcome: "fst (write_cell u c f) = fst (write_cell u c g)"
  by (auto simp: write_cell_def split: if_splits prod.splits sum.splits Matrix3D.splits)

text \<open>The lines that a call of \<open>write\<close> that returns normally has printed.\<close>

lemma GROFormat_write_Inr:
  assumes "GROFormat_write u fmt frame = (Inr (), fmt', warnings)"
  shows "\<exists>title ls box.
      lines (gro_file fmt') = lines (gro_file fmt)
        @ [title, right_align 5 (to_string (Frame_size frame))] @ ls @ [box] \<and>
      length ls = Frame_size frame \<and>
      (\<forall>i < Frame_size frame. atom_line_written u frame i (ls ! i) warnings) \<and>
      path (gro_file fmt') = path (gro_file fmt)"
proof -
  let ?title = "case properties frame ''name'' of
                             Some (STRING s) \<Rightarrow> s
                           | _ \<Rightarrow> ''GRO File produced by chemfiles''"
  let ?f0 = "print_line ?title (gro_file fmt)"
  let ?f1 = "print_line (right_align 5 (to_string (Frame_size frame))) ?f0"
  let ?m = "initial_max_resid (residues (topology frame))"
  from assms obtain f2 m2 where
    a: "write_atoms u frame [0 ..< Frame_size frame] (?f1, [], ?m) = (Inr (), f2, warnings, m2)"
    by (auto simp: GROFormat_write_def Let_def split: prod.splits sum.splits)
  with assms obtain f3 where
    c: "write_cell u (cell frame) f2 = (Inr (), f3)" and
    g: "gro_file fmt' = f3"
    by (auto simp: GROFormat_write_def Let_def split: prod.splits sum.splits)
  from write_atoms_Inr [OF a] obtain ls where
    ls: "lines f2 = lines ?f1 @ ls" "length ls = Frame_size frame" "path f2 = path ?f1"
      "\<forall>k < Frame_size frame. atom_line_written u frame ([0 ..< Frame_size frame] ! k) (ls ! k) warnings"
    by auto
  from write_cell_Inr [OF c] obtain box where box: "f3 = print_line box f2" by blast
  have "lines (gro_file fmt') = lines (gro_file fmt)
        @ [?title, right_align 5 (to_string (Frame_size frame))] @ ls @ [box]"
    using g box ls by (simp add: print_line_def)
  moreover have "\<forall>i < Frame_size frame. atom_line_written u frame i (ls ! i) warnings"
    using ls(4) by simp
  moreover have "path (gro_file fmt') = path (gro_file fmt)"
    using g box ls by (simp add: print_line_def)
  ultimately show ?thesis using ls(2) by blast
qed

text \<open>\<open>write\<close> throws only when a value does not pass \<open>check_values_size\<close>.\<close>

lemma write_atom_succeeds:
  assumes "check_values_size (Vector3D_div (positions frame ! i) 10) 8 ''atomic position'' = Inr ()"
    and "\<forall>vs. velocities frame = Some vs \<longrightarrow>
      check_values_size (Vector3D_div (vs ! i) 10) 8 ''atomic velocity'' = Inr ()"
  shows "\<exists>f' w' m'. write_atom u frame i (f, w, m) = (Inr (), f', w', m')"
  using assms written_resname_length [of "residue_for_atom (topology frame) i"]
  by (auto simp: write_atom_def Let_def split: prod.splits option.splits)

lemma write_atoms_succeeds:
  assumes "\<forall>i \<in> set indices.
      check_values_size (Vector3D_div (positions frame ! i) 10) 8 ''atomic position'' = Inr () \<and>
      (\<forall>vs. velocities frame = Some vs \<longrightarrow>
         check_values_size (Vector3D_div (vs ! i) 10) 8 ''atomic velocity'' = Inr ())"
  shows "\<exists>f' w' m'. write_atoms u frame indices (f, w, m) = (Inr (), f', w', m')"
  using assms
proof (induction indices arbitrary: f w m)
  case Nil
  then show ?case by simp
next
  case (Cons i rest)
  from Cons.prems write_atom_succeeds [of frame i u f w m] obtain f1 w1 m1 where
    "write_atom u frame i (f, w, m) = (Inr (), f1, w1, m1)"
    by auto
  moreover from Cons.IH [of f1 w1 m1] Cons.prems obtain f' w' m' where
    "write_atoms u frame rest (f1, w1, m1) = (Inr (), f', w', m')"
    by auto
  ultimately show ?case by simp
qed

lemma GROFormat_write_succeeds:
  assumes "\<forall>i < Frame_size frame.
      check_values_size (Vector3D_div (positions frame ! i) 10) 8 ''atomic position'' = Inr ()"
    and "\<forall>vs. velocities frame = Some vs \<longrightarrow> (\<forall>i < Frame_size frame.
      check_values_size (Vector3D_div (vs ! i) 10) 8 ''atomic velocity'' = Inr ())"
    and "fst (write_cell u (cell frame) (gro_file fmt)) = Inr ()"
  shows "\<exists>fmt' warnings. GROFormat_write u fmt frame = (Inr (), fmt', warnings)"
proof -
  let ?title = "case properties frame ''name'' of
                             Some (STRING s) \<Rightarrow> s
                           | _ \<Rightarrow> ''GRO File produced by chemfiles''"
  let ?f0 = "print_line ?title (gro_file fmt)"
  let ?f1 = "print_line (right_align 5 (to_string (Frame_size frame))) ?f0"
  let ?m = "initial_max_resid (residues (topology frame))"
  have "\<forall>i \<in> set [0 ..< Frame_size frame].
      check_values_size (Vector3D_div (positions frame ! i) 10) 8 ''atomic position'' = Inr () \<and>
      (\<forall>vs. velocities frame = Some vs \<longrightarrow>
         check_values_size (Vector3D_div (vs ! i) 10) 8 ''atomic velocity'' = Inr ())"
    using assms(1,2) by simp
  from write_atoms_succeeds [OF this, of u ?f1 "[]" ?m] obtain f2 w2 m2 where
    a: "write_atoms u frame [0 ..< Frame_size frame] (?f1, [], ?m) = (Inr (), f2, w2, m2)"
    by blast
  from assms(3) write_cell_outcome [of u "cell frame" f2 "gro_file fmt"]
  have "fst (write_cell u (cell frame) f2) = Inr ()" by simp
  then obtain f3 where c: "write_cell u (cell frame) f2 = (Inr (), f3)"
    by (cases "write_cell u (cell frame) f2") auto
  show ?thesis
    unfolding GROFormat_write_def by (simp add: a c Let_def)
qed

text \<open>
  Claim C3 says that a residue id greater than 99999 is written as \<open>*****\<close>. A frame
  with one atom in a residue with the id 100000 is written with \<open>-1\<close>, right-aligned,
  in the residue id column, and the warning \<open>Too many residues for GRO format, removing
  residue id\<close>: in \<open>write\<close> the string of the residue id starts as \<open>"-1"\<close> and is only
  replaced for a value up to 99999.
\<close>

theorem large_resid_is_written_as_minus_one:
  "fst (GROFormat_write decimal_utils new_format resid_frame) = Inr () \<and>
   lines (gro_file (fst (snd (GROFormat_write decimal_utils new_format resid_frame)))) ! 2
     = ''   -1AR      AR    1   0.100   0.200   0.300'' \<and>
   snd (snd (GROFormat_write decimal_utils new_format resid_frame))
     = [''Too many residues for GRO format, removing residue id'']"
  by code_simp

text \<open>
  Claim C3, amended. When the values of a frame fit their fields (the checks of
  \<open>check_values_size\<close> pass), writing the frame succeeds whatever the number of atoms
  and the residue ids are, and in the line of every atom \<open>i\<close>: when \<open>i \<ge> 99999\<close>, that
  is, when the atom number \<open>i + 1\<close> is greater than 99999, the atom number field is
  \<open>*****\<close> and the warning \<open>Too many atoms for GRO format\<close> has been emitted; when
  the atom is in a residue with an id greater than 99999, the residue id field is \<open>-1\<close>
  and the warning \<open>Too many residues for GRO format\<close> has been emitted.
\<close>

theorem index_and_resid_limits:
  assumes "\<forall>i < Frame_size frame.
      check_values_size (Vector3D_div (positions frame ! i) 10) 8 ''atomic position'' = Inr ()"
    and "\<forall>vs. velocities frame = Some vs \<longrightarrow> (\<forall>i < Frame_size frame.
      check_values_size (Vector3D_div (vs ! i) 10) 8 ''atomic velocity'' = Inr ())"
    and "fst (write_cell u (cell frame) (gro_file fmt)) = Inr ()"
  shows "\<exists>fmt' warnings. GROFormat_write u fmt frame = (Inr (), fmt', warnings) \<and>
    (\<forall>i < Frame_size frame.
       (99999 \<le> i \<longrightarrow>
          (\<exists>resid resname.
             lines (gro_file fmt') ! (length (lines (gro_file fmt)) + 2 + i)
               = format_atom_line u resid resname (atom_name (atoms (topology frame) ! i))
                   ''*****'' (Vector3D_div (positions frame ! i) 10)
                   (map_option (\<lambda>vs. Vector3D_div (vs ! i) 10) (velocities frame))) \<and>
          ''Too many atoms for GRO format, removing atomic id'' \<in> set warnings) \<and>
       (\<forall>r v. residue_for_atom (topology frame) i = Some r \<and> res_id r = Some v \<and> 99999 < v \<longrightarrow>
          (\<exists>resname index.
             lines (gro_file fmt') ! (length (lines (gro_file fmt)) + 2 + i)
               = format_atom_line u ''-1'' resname (atom_name (atoms (topology frame) ! i))
                   index (Vector3D_div (positions frame ! i) 10)
                   (map_option (\<lambda>vs. Vector3D_div (vs ! i) 10) (velocities frame))) \<and>
          ''Too many residues for GRO format, removing residue id'' \<in> set warnings))"
proof -
  from GROFormat_write_succeeds [OF assms] obtain fmt' warnings where
    w: "GROFormat_write u fmt frame = (Inr (), fmt', warnings)"
    by blast
  from GROFormat_write_Inr [OF w] obtain title ls box where
    l: "lines (gro_file fmt') = lines (gro_file fmt)
        @ [title, right_align 5 (to_string (Frame_size frame))] @ ls @ [box]"
      "length ls = Frame_size frame"
      "\<forall>i < Frame_size frame. atom_line_written u frame i (ls ! i) warnings"
    by blast
  have nth: "lines (gro_file fmt') ! (length (lines (gro_file fmt)) + 2 + i) = ls ! i"
    if "i < Frame_size frame" for i
    using that l(1,2) by (simp add: nth_append)
  have "(99999 \<le> i \<longrightarrow>
          (\<exists>resid resname.
             lines (gro_file fmt') ! (length (lines (gro_file fmt)) + 2 + i)
               = format_atom_line u resid resname (atom_name (atoms (topology frame) ! i))
                   ''*****'' (Vector3D_div (positions frame ! i) 10)
                   (map_option (\<lambda>vs. Vector3D_div (vs ! i) 10) (velocities frame))) \<and>
          ''Too many atoms for GRO format, removing atomic id'' \<in> set warnings) \<and>
       (\<forall>r v. residue_for_atom (topology frame) i = Some r \<and> res_id r = Some v \<and> 99999 < v \<longrightarrow>
          (\<exists>resname index.
             lines (gro_file fmt') ! (length (lines (gro_file fmt)) + 2 + i)
               = format_atom_line u ''-1'' resname (atom_name (atoms (topology frame) ! i))
                   index (Vector3D_div (positions frame ! i) 10)
                   (map_option (\<lambda>vs. Vector3D_div (vs ! i) 10) (velocities frame))) \<and>
          ''Too many residues for GRO format, removing residue id'' \<in> set warnings)"
    if i: "i < Frame_size frame" for i
  proof -
    from l(3) i have "atom_line_written u frame i (ls ! i) warnings" by blast
    then show ?thesis
      unfolding atom_line_written_def nth [OF i] by blast
  qed
  with w show ?thesis by blast
qed

text \<open>
  The hypotheses of the amended C3 at a frame of 100000 atoms whose last atom is in a
  residue with the id 100000.
\<close>

lemma huge_frame_fields:
  "Frame_size huge_frame = 100000"
  "velocities huge_frame = None"
  "cell huge_frame = UnitCell_infinite"
  "i < 100000 \<Longrightarrow> positions huge_frame ! i = (0, 0, 0)"
  "i < 100000 \<Longrightarrow> atoms (topology huge_frame) ! i = Atom ''AR''"
  "residue_for_atom (topology huge_frame) 99999
     = Some \<lparr>res_name = ''AR'', res_id = Some 100000, res_atoms = [99999]\<rparr>"
  by (simp_all add: huge_frame_def Frame_size_def residue_for_atom_def)

lemma huge_frame_fits:
  "\<forall>i < Frame_size huge_frame.
      check_values_size (Vector3D_div (positions huge_frame ! i) 10) 8 ''atomic position'' = Inr ()"
  "\<forall>vs. velocities huge_frame = Some vs \<longrightarrow> (\<forall>i < Frame_size huge_frame.
      check_values_size (Vector3D_div (vs ! i) 10) 8 ''atomic velocity'' = Inr ())"
  "fst (write_cell decimal_utils (cell huge_frame) (gro_file new_format)) = Inr ()"
proof -
  show "\<forall>i < Frame_size huge_frame.
      check_values_size (Vector3D_div (positions huge_frame ! i) 10) 8 ''atomic position'' = Inr ()"
    by (simp add: huge_frame_fields check_values_size_def Vector3D_div_def)
  show "\<forall>vs. velocities huge_frame = Some vs \<longrightarrow> (\<forall>i < Frame_size huge_frame.
      check_values_size (Vector3D_div (vs ! i) 10) 8 ''atomic velocity'' = Inr ())"
    by (simp add: huge_frame_fields)
  show "fst (write_cell decimal_utils (cell huge_frame) (gro_file new_format)) = Inr ()"
    by (simp add: huge_frame_fields write_cell_def check_values_size_def)
qed

theorem index_and_resid_limits_witness:
  "\<exists>fmt' warnings.
      GROFormat_write decimal_utils new_format huge_frame = (Inr (), fmt', warnings) \<and>
      (\<forall>i < Frame_size huge_frame.
         check_values_size (Vector3D_div (positions huge_frame ! i) 10) 8 ''atomic position''
           = Inr ()) \<and>
      (\<forall>vs. velocities huge_frame = Some vs \<longrightarrow> (\<forall>i < Frame_size huge_frame.
         check_values_size (Vector3D_div (vs ! i) 10) 8 ''atomic velocity'' = Inr ())) \<and>
      fst (write_cell decimal_utils (cell huge_frame) (gro_file new_format)) = Inr () \<and>
      99999 < Frame_size huge_frame \<and>
      residue_for_atom (topology huge_frame) 99999
        = Some \<lparr>res_name = ''AR'', res_id = Some 100000, res_atoms = [99999]\<rparr> \<and>
      (\<exists>resid resname. lines (gro_file fmt') ! 100001
         = format_atom_line decimal_utils resid resname ''AR'' ''*****'' (0, 0, 0) None) \<and>
      ''Too many atoms for GRO format, removing atomic id'' \<in> set warnings \<and>
      (\<exists>resname index. lines (gro_file fmt') ! 100001
         = format_atom_line decimal_utils ''-1'' resname ''AR'' index (0, 0, 0) None) \<and>
      ''Too many residues for GRO format, removing residue id'' \<in> set warnings"
proof -
  let ?r = "\<lparr>res_name = ''AR'', res_id = Some 100000, res_atoms = [99999]\<rparr>"
  from index_and_resid_limits [OF huge_frame_fits] obtain fmt' warnings where
    w: "GROFormat_write decimal_utils new_format huge_frame = (Inr (), fmt', warnings)" and
    all: "\<forall>i < Frame_size huge_frame.
       (99999 \<le> i \<longrightarrow>
          (\<exists>resid resname.
             lines (gro_file fmt') ! (length (lines (gro_file new_format)) + 2 + i)
               = format_atom_line decimal_utils resid resname
                   (atom_name (atoms (topology huge_frame) ! i))
                   ''*****'' (Vector3D_div (positions huge_frame ! i) 10)
                   (map_option (\<lambda>vs. Vector3D_div (vs ! i) 10) (velocities huge_frame))) \<and>
          ''Too many atoms for GRO format, removing atomic id'' \<in> set warnings) \<and>
       (\<forall>r v. residue_for_atom (topology huge_frame) i = Some r \<and> res_id r = Some v \<and> 99999 < v \<longrightarrow>
          (\<exists>resname index.
             lines (gro_file fmt') ! (length (lines (gro_file new_format)) + 2 + i)
               = format_atom_line decimal_utils ''-1'' resname
                   (atom_name (atoms (topology huge_frame) ! i))
                   index (Vector3D_div (positions huge_frame ! i) 10)
                   (map_option (\<lambda>vs. Vector3D_div (vs ! i) 10) (velocities huge_frame))) \<and>
          ''Too many residues for GRO format, removing residue id'' \<in> set warnings)"
    by blast
  have i: "(99999::nat) < Frame_size huge_frame" by (simp add: huge_frame_fields)
  have n: "length (lines (gro_file new_format)) + 2 + 99999 = 100001"
    by (simp add: new_format_def)
  have v: "Vector3D_div (positions huge_frame ! 99999) 10 = (0, 0, 0)"
    "atom_name (atoms (topology huge_frame) ! 99999) = ''AR''"
    "map_option (\<lambda>vs. Vector3D_div (vs ! 99999) 10) (velocities huge_frame) = None"
    by (simp_all add: huge_frame_fields Vector3D_div_def)
  have r: "residue_for_atom (topology huge_frame) 99999 = Some ?r \<and> res_id ?r = Some 100000 \<and>
      (99999::nat) < 100000"
    by (simp add: huge_frame_fields)
  note both = all [THEN spec [where x = "99999::nat"], THEN mp, OF i]
  from both have a: "(\<exists>resid resname. lines (gro_file fmt') ! 100001
         = format_atom_line decimal_utils resid resname ''AR'' ''*****'' (0, 0, 0) None) \<and>
      ''Too many atoms for GRO format, removing atomic id'' \<in> set warnings"
    unfolding n v by simp
  from both [THEN conjunct2, THEN spec, THEN spec, THEN mp, OF r]
  have b: "(\<exists>resname index. lines (gro_file fmt') ! 100001
         = format_atom_line decimal_utils ''-1'' resname ''AR'' index (0, 0, 0) None) \<and>
      ''Too many residues for GRO format, removing residue id'' \<in> set warnings"
    unfolding n v .
  show ?thesis using huge_frame_fits i huge_frame_fields(6) w a b by blast
qed

subsection \<open>Nanometers on disk, angstroms in memory\<close>

lemma spec_atom_values_position:
  assumes "spec_atom_values u l p v"
  shows "\<exists>x y z.
      parse_double u (substr l 20 8) = Inr x \<and>
      parse_double u (substr l 28 8) = Inr y \<and>
      parse_double u (substr l 36 8) = Inr z \<and> p = (x * 10, y * 10, z * 10)"
proof -
  from assms have "case (parse_double u (substr l 20 8), parse_double u (substr l 28 8),
            parse_double u (substr l 36 8)) of
        (Inr x, Inr y, Inr z) \<Rightarrow> p = (x * 10, y * 10, z * 10)
      | _ \<Rightarrow> False"
    by (simp add: spec_atom_values_def)
  then show ?thesis
    by (cases "parse_double u (substr l 20 8)"; cases "parse_double u (substr l 28 8)";
        cases "parse_double u (substr l 36 8)") simp_all
qed

lemma spec_atom_values_velocity:
  assumes "spec_atom_values u l p v" and "68 \<le> length l"
  shows "\<exists>vx vy vz.
      parse_double u (substr l 44 8) = Inr vx \<and>
      parse_double u (substr l 52 8) = Inr vy \<and>
      parse_double u (substr l 60 8) = Inr vz \<and> v = (vx * 10, vy * 10, vz * 10)"
proof -
  from assms have "case (parse_double u (substr l 44 8), parse_double u (substr l 52 8),
            parse_double u (substr l 60 8)) of
        (Inr vx, Inr vy, Inr vz) \<Rightarrow> v = (vx * 10, vy * 10, vz * 10)
      | _ \<Rightarrow> False"
    by (simp add: spec_atom_values_def)
  then show ?thesis
    by (cases "parse_double u (substr l 44 8)"; cases "parse_double u (substr l 52 8)";
        cases "parse_double u (substr l 60 8)") simp_all
qed

text \<open>
  Claim C7. Reading: after a call of \<open>read\<close> that returns normally, the position of
  every atom is the three numbers parsed from columns 20 to 44 of its line, each
  multiplied by 10, and when the line has velocity columns its velocity is the three
  numbers parsed from columns 44 to 68, each multiplied by 10. Writing: after a call
  of \<open>write\<close> that returns normally, the line of every atom is formatted from the
  components of its position, and of its velocity when the frame has velocities, each
  divided by 10.
\<close>

theorem nanometers_on_disk:
  "(GROFormat_read u fmt frame = (Inr (), frame', fmt') \<longrightarrow>
      (\<exists>natoms vs.
         parse_size_t u (lines (gro_file fmt) ! Suc (position (gro_file fmt))) = Inr natoms \<and>
         length (positions frame') = natoms \<and>
         velocities frame' = Some vs \<and> length vs = natoms \<and>
         (\<forall>i < natoms.
            (\<exists>x y z.
               parse_double u (substr (lines (gro_file fmt) ! (position (gro_file fmt) + 2 + i)) 20 8) = Inr x \<and>
               parse_double u (substr (lines (gro_file fmt) ! (position (gro_file fmt) + 2 + i)) 28 8) = Inr y \<and>
               parse_double u (substr (lines (gro_file fmt) ! (position (gro_file fmt) + 2 + i)) 36 8) = Inr z \<and>
               positions frame' ! i = (x * 10, y * 10, z * 10)) \<and>
            (68 \<le> length (lines (gro_file fmt) ! (position (gro_file fmt) + 2 + i)) \<longrightarrow>
               (\<exists>vx vy vz.
                  parse_double u (substr (lines (gro_file fmt) ! (position (gro_file fmt) + 2 + i)) 44 8) = Inr vx \<and>
                  parse_double u (substr (lines (gro_file fmt) ! (position (gro_file fmt) + 2 + i)) 52 8) = Inr vy \<and>
                  parse_double u (substr (lines (gro_file fmt) ! (position (gro_file fmt) + 2 + i)) 60 8) = Inr vz \<and>
                  vs ! i = (vx * 10, vy * 10, vz * 10)))))) \<and>
   (GROFormat_write u fmt frame = (Inr (), fmt'', warnings) \<longrightarrow>
      (\<forall>i < Frame_size frame.
         \<exists>resid resname index.
           lines (gro_file fmt'') ! (length (lines (gro_file fmt)) + 2 + i)
             = format_atom_line u resid resname (atom_name (atoms (topology frame) ! i)) index
                 (case positions frame ! i of (x, y, z) \<Rightarrow> (x / 10, y / 10, z / 10))
                 (case velocities frame of
                    None \<Rightarrow> None
                  | Some vs \<Rightarrow> (case vs ! i of (vx, vy, vz) \<Rightarrow> Some (vx / 10, vy / 10, vz / 10)))))"
proof (intro conjI impI)
  assume r: "GROFormat_read u fmt frame = (Inr (), frame', fmt')"
  let ?l = "\<lambda>i. lines (gro_file fmt) ! (position (gro_file fmt) + 2 + i)"
  from GROFormat_read_frame [OF r] obtain natoms vs where
    n: "parse_size_t u (lines (gro_file fmt) ! Suc (position (gro_file fmt))) = Inr natoms"
      "length (positions frame') = natoms" "velocities frame' = Some vs" "length vs = natoms"
    and all: "\<forall>i < natoms. spec_atom_values u (?l i) (positions frame' ! i) (vs ! i)"
    by blast
  have "(\<exists>x y z.
               parse_double u (substr (?l i) 20 8) = Inr x \<and>
               parse_double u (substr (?l i) 28 8) = Inr y \<and>
               parse_double u (substr (?l i) 36 8) = Inr z \<and>
               positions frame' ! i = (x * 10, y * 10, z * 10)) \<and>
            (68 \<le> length (?l i) \<longrightarrow>
               (\<exists>vx vy vz.
                  parse_double u (substr (?l i) 44 8) = Inr vx \<and>
                  parse_double u (substr (?l i) 52 8) = Inr vy \<and>
                  parse_double u (substr (?l i) 60 8) = Inr vz \<and>
                  vs ! i = (vx * 10, vy * 10, vz * 10)))"
    if "i < natoms" for i
  proof -
    from all that have "spec_atom_values u (?l i) (positions frame' ! i) (vs ! i)" by blast
    from spec_atom_values_position [OF this] spec_atom_values_velocity [OF this]
    show ?thesis by blast
  qed
  with n show "\<exists>natoms vs.
         parse_size_t u (lines (gro_file fmt) ! Suc (position (gro_file fmt))) = Inr natoms \<and>
         length (positions frame') = natoms \<and>
         velocities frame' = Some vs \<and> length vs = natoms \<and>
         (\<forall>i < natoms.
            (\<exists>x y z.
               parse_double u (substr (?l i) 20 8) = Inr x \<and>
               parse_double u (substr (?l i) 28 8) = Inr y \<and>
               parse_double u (substr (?l i) 36 8) = Inr z \<and>
               positions frame' ! i = (x * 10, y * 10, z * 10)) \<and>
            (68 \<le> length (?l i) \<longrightarrow>
               (\<exists>vx vy vz.
                  parse_double u (substr (?l i) 44 8) = Inr vx \<and>
                  parse_double u (substr (?l i) 52 8) = Inr vy \<and>
                  parse_double u (substr (?l i) 60 8) = Inr vz \<and>
                  vs ! i = (vx * 10, vy * 10, vz * 10))))"
    by blast
next
  assume w: "GROFormat_write u fmt frame = (Inr (), fmt'', warnings)"
  from GROFormat_write_Inr [OF w] obtain title ls box where
    l: "lines (gro_file fmt'') = lines (gro_file fmt)
        @ [title, right_align 5 (to_string (Frame_size frame))] @ ls @ [box]"
      "length ls = Frame_size frame"
      "\<forall>i < Frame_size frame. atom_line_written u frame i (ls ! i) warnings"
    by blast
  have d: "Vector3D_div (positions frame ! i) 10
      = (case positions frame ! i of (x, y, z) \<Rightarrow> (x / 10, y / 10, z / 10))"
    "map_option (\<lambda>vs. Vector3D_div (vs ! i) 10) (velocities frame)
      = (case velocities frame of
                    None \<Rightarrow> None
                  | Some vs \<Rightarrow> (case vs ! i of (vx, vy, vz) \<Rightarrow> Some (vx / 10, vy / 10, vz / 10)))"
    for i
    by (simp_all add: Vector3D_div_def split: option.splits prod.splits)
  show "\<forall>i < Frame_size frame.
         \<exists>resid resname index.
           lines (gro_file fmt'') ! (length (lines (gro_file fmt)) + 2 + i)
             = format_atom_line u resid resname (atom_name (atoms (topology frame) ! i)) index
                 (case positions frame ! i of (x, y, z) \<Rightarrow> (x / 10, y / 10, z / 10))
                 (case velocities frame of
                    None \<Rightarrow> None
                  | Some vs \<Rightarrow> (case vs ! i of (vx, vy, vz) \<Rightarrow> Some (vx / 10, vy / 10, vz / 10)))"
  proof (intro allI impI)
    fix i assume i: "i < Frame_size frame"
    then have nth: "lines (gro_file fmt'') ! (length (lines (gro_file fmt)) + 2 + i) = ls ! i"
      using l(1,2) by (simp add: nth_append)
    from l(3) i have "atom_line_written u frame i (ls ! i) warnings" by blast
    then show "\<exists>resid resname index.
           lines (gro_file fmt'') ! (length (lines (gro_file fmt)) + 2 + i)
             = format_atom_line u resid resname (atom_name (atoms (topology frame) ! i)) index
                 (case positions frame ! i of (x, y, z) \<Rightarrow> (x / 10, y / 10, z / 10))
                 (case velocities frame of
                    None \<Rightarrow> None
                  | Some vs \<Rightarrow> (case vs ! i of (vx, vy, vz) \<Rightarrow> Some (vx / 10, vy / 10, vz / 10)))"
      unfolding atom_line_written_def nth d by blast
  qed
qed

text \<open>
  The hypotheses of C7 at the first step of \<open>water.gro\<close>, whose first atom line has
  velocity columns, and at the frame of one atom at \<open>(1, 2, 3)\<close>.
\<close>

theorem nanometers_on_disk_witness:
  "fst (GROFormat_read decimal_utils water_format Frame_empty) = Inr () \<and>
   68 \<le> length (water_lines ! 2) \<and>
   positions (fst (snd (GROFormat_read decimal_utils water_format Frame_empty))) ! 0
     = (126 / 1000 * 10, 1624 / 1000 * 10, 1679 / 1000 * 10) \<and>
   velocities (fst (snd (GROFormat_read decimal_utils water_format Frame_empty)))
     = Some [(1227 / 10000 * 10, - (580 / 10000) * 10, 434 / 10000 * 10), (0, 0, 0)] \<and>
   fst (GROFormat_write decimal_utils new_format resid_frame) = Inr () \<and>
   (\<exists>resid resname index.
      lines (gro_file (fst (snd (GROFormat_write decimal_utils new_format resid_frame)))) ! 2
        = format_atom_line decimal_utils resid resname ''AR'' index (1 / 10, 2 / 10, 3 / 10) None)"
proof -
  let ?u = decimal_utils
  let ?r = "GROFormat_read ?u water_format Frame_empty"
  let ?w = "GROFormat_write ?u new_format resid_frame"
  have ok: "fst ?r = Inr ()" by code_simp
  then obtain fr fm where r: "?r = (Inr (), fr, fm)" by (cases ?r) auto
  have okw: "fst ?w = Inr ()" by code_simp
  then obtain fm2 ws where w: "?w = (Inr (), fm2, ws)" by (cases ?w) auto
  have len: "68 \<le> length (water_lines ! 2)" by code_simp
  have v: "velocities (fst (snd ?r))
     = Some [(1227 / 10000 * 10, - (580 / 10000) * 10, 434 / 10000 * 10), (0, 0, 0)]"
    by code_simp
  have p: "positions (fst (snd ?r)) ! 0 = (126 / 1000 * 10, 1624 / 1000 * 10, 1679 / 1000 * 10)"
    by code_simp
  have s: "Frame_size resid_frame = 1" "length (lines (gro_file new_format)) = 0"
    "atom_name (atoms (topology resid_frame) ! 0) = ''AR''"
    "positions resid_frame ! 0 = (1, 2, 3)" "velocities resid_frame = None"
    by (simp_all add: resid_frame_def new_format_def Frame_size_def)
  from nanometers_on_disk [of ?u new_format resid_frame _ _ fm2 ws] w
  have "\<forall>i < Frame_size resid_frame.
         \<exists>resid resname index.
           lines (gro_file fm2) ! (length (lines (gro_file new_format)) + 2 + i)
             = format_atom_line ?u resid resname (atom_name (atoms (topology resid_frame) ! i)) index
                 (case positions resid_frame ! i of (x, y, z) \<Rightarrow> (x / 10, y / 10, z / 10))
                 (case velocities resid_frame of
                    None \<Rightarrow> None
                  | Some vs \<Rightarrow> (case vs ! i of (vx, vy, vz) \<Rightarrow> Some (vx / 10, vy / 10, vz / 10)))"
    by blast
  then have "\<exists>resid resname index.
           lines (gro_file fm2) ! (length (lines (gro_file new_format)) + 2 + 0)
             = format_atom_line ?u resid resname (atom_name (atoms (topology resid_frame) ! 0)) index
                 (case positions resid_frame ! 0 of (x, y, z) \<Rightarrow> (x / 10, y / 10, z / 10))
                 (case velocities resid_frame of
                    None \<Rightarrow> None
                  | Some vs \<Rightarrow> (case vs ! 0 of (vx, vy, vz) \<Rightarrow> Some (vx / 10, vy / 10, vz / 10)))"
    using s(1) by simp
  then have "\<exists>resid resname index.
      lines (gro_file fm2) ! 2
        = format_atom_line ?u resid resname ''AR'' index (1 / 10, 2 / 10, 3 / 10) None"
    by (simp add: s numeral_2_eq_2)
  with ok okw len v p w show ?thesis by simp
qed

subsection \<open>When \<open>read\<close> returns normally and when it throws\<close>

text \<open>\<open>read\<close> returns normally when every atom line and the box line can be read.\<close>

lemma read_atom_line_succeeds:
  assumes "atom_line_readable u line"
  shows "\<exists>st'. read_atom_line u line (fr, rs) = Inr st'"
proof -
  from assms have len: "44 \<le> length line" by (simp add: atom_line_readable_def)
  have p: "\<exists>x. parse_d u (substr line k 8) = Inr x"
    if "case parse_double u (substr line k 8) of Inr r \<Rightarrow> True | Inl m \<Rightarrow> False" for k
    using that by (simp add: parse_d_def split: sum.splits)
  from assms obtain x y z where xyz:
    "parse_d u (substr line 20 8) = Inr x" "parse_d u (substr line 28 8) = Inr y"
    "parse_d u (substr line 36 8) = Inr z"
    using p [of 20] p [of 28] p [of 36] by (auto simp: atom_line_readable_def)
  show ?thesis
  proof (cases "68 \<le> length line")
    case True
    with assms obtain vx vy vz where
      "parse_d u (substr line 44 8) = Inr vx" "parse_d u (substr line 52 8) = Inr vy"
      "parse_d u (substr line 60 8) = Inr vz"
      using p [of 44] p [of 52] p [of 60] by (auto simp: atom_line_readable_def)
    with True len xyz show ?thesis by (simp add: read_atom_line_def Let_def)
  next
    case False
    with len xyz show ?thesis by (simp add: read_atom_line_def Let_def)
  qed
qed

lemma read_atoms_succeeds:
  assumes "\<forall>l \<in> set ls. atom_line_readable u l"
  shows "\<exists>fr' rs'. read_atoms u ls (fr, rs) = (Inr (), fr', rs')"
  using assms
proof (induction ls arbitrary: fr rs)
  case Nil
  then show ?case by simp
next
  case (Cons l ls)
  from Cons.prems read_atom_line_succeeds [of u l fr rs] obtain fr1 rs1 where
    "read_atom_line u l (fr, rs) = Inr (fr1, rs1)"
    by auto
  moreover from Cons.IH [of fr1 rs1] Cons.prems obtain fr' rs' where
    "read_atoms u ls (fr1, rs1) = (Inr (), fr', rs')"
    by auto
  ultimately show ?case by simp
qed

lemma GROFormat_read_succeeds:
  assumes "position (gro_file fmt) + natoms + 3 \<le> length (lines (gro_file fmt))"
    and "parse_size_t u (lines (gro_file fmt) ! Suc (position (gro_file fmt))) = Inr natoms"
    and "\<forall>l \<in> set (take natoms (drop (position (gro_file fmt) + 2) (lines (gro_file fmt)))).
      atom_line_readable u l"
    and "\<forall>fr. \<exists>fr'. read_box u (lines (gro_file fmt) ! (position (gro_file fmt) + 2 + natoms)) fr = Inr fr'"
  shows "fst (GROFormat_read u fmt frame) = Inr ()"
proof -
  from read_atoms_succeeds [OF assms(3)] obtain frame3 rs where
    a: "read_atoms u (take natoms (drop (position (gro_file fmt) + 2) (lines (gro_file fmt))))
      (Frame_resize 0 (Frame_reserve natoms (add_velocities
         (Frame_set ''name'' (STRING (lines (gro_file fmt) ! position (gro_file fmt))) frame))), [])
      = (Inr (), frame3, rs)"
    by blast
  from assms(4) obtain frame4 where
    b: "read_box u (lines (gro_file fmt) ! (position (gro_file fmt) + 2 + natoms)) frame3 = Inr frame4"
    by blast
  from GROFormat_read_intro [OF assms(1,2) a b] show ?thesis by simp
qed

text \<open>What is known of a line when \<open>read\<close> throws at it.\<close>

lemma and_then_eq_Inl:
  "and_then r k = Inl e \<longleftrightarrow> r = Inl e \<or> (\<exists>x. r = Inr x \<and> k x = Inl e)"
  by (cases r) simp_all

lemma parse_d_eq_Inl: "parse_d u s = Inl e \<longleftrightarrow> (\<exists>m. parse_double u s = Inl m \<and> e = Error m)"
  by (auto simp: parse_d_def split: sum.splits)

lemma parses_as_double_iff: "parses_as_double u s \<longleftrightarrow> (\<exists>x. parse_double u s = Inr x)"
  by (simp add: parses_as_double_def split: sum.splits)

lemma atom_line_readable_iff:
  "atom_line_readable u line \<longleftrightarrow>
     44 \<le> length line \<and>
     parses_as_double u (substr line 20 8) \<and> parses_as_double u (substr line 28 8) \<and>
     parses_as_double u (substr line 36 8) \<and>
     (68 \<le> length line \<longrightarrow>
        parses_as_double u (substr line 44 8) \<and> parses_as_double u (substr line 52 8) \<and>
        parses_as_double u (substr line 60 8))"
  by (simp add: atom_line_readable_def parses_as_double_def)

lemma read_atom_line_Inl:
  assumes "read_atom_line u line st = Inl e"
  shows "\<not> atom_line_readable u line \<and>
    (if length line < 44 then e = FormatError (''GRO Atom line is too small: '' @ quoted line)
     else \<exists>m. e = Error m)"
proof (cases "length line < 44")
  case True
  with assms show ?thesis
    by (cases st) (simp add: read_atom_line_def atom_line_readable_def)
next
  case False
  obtain fr rs where st: "st = (fr, rs)" by (cases st)
  from assms False st have
    "(\<exists>m. parse_double u (substr line 20 8) = Inl m \<and> e = Error m) \<or>
     (\<exists>m. parse_double u (substr line 28 8) = Inl m \<and> e = Error m) \<or>
     (\<exists>m. parse_double u (substr line 36 8) = Inl m \<and> e = Error m) \<or>
     (68 \<le> length line \<and>
       ((\<exists>m. parse_double u (substr line 44 8) = Inl m \<and> e = Error m) \<or>
        (\<exists>m. parse_double u (substr line 52 8) = Inl m \<and> e = Error m) \<or>
        (\<exists>m. parse_double u (substr line 60 8) = Inl m \<and> e = Error m)))"
    by (auto simp: read_atom_line_def Let_def and_then_eq_Inl parse_d_eq_Inl split: if_splits)
  then have "(\<exists>m. e = Error m) \<and> \<not> atom_line_readable u line"
    by (auto simp: atom_line_readable_iff parses_as_double_iff)
  with False show ?thesis by simp
qed

lemma read_atom_line_readable:
  assumes "read_atom_line u line st = Inr st'"
  shows "atom_line_readable u line"
proof -
  obtain fr rs fr' rs' where st: "st = (fr, rs)" "st' = (fr', rs')"
    by (cases st, cases st') auto
  from read_atom_line_Inr [of u line fr rs fr' rs'] assms st obtain p v where
    len: "44 \<le> length line" and pv: "spec_atom_values u line p v"
    by auto
  from spec_atom_values_position [OF pv] spec_atom_values_velocity [OF pv] len
  show ?thesis by (auto simp: atom_line_readable_iff parses_as_double_iff)
qed

lemma read_atoms_readable:
  "read_atoms u ls st = (Inr (), st') \<Longrightarrow> list_all (atom_line_readable u) ls"
proof (induction ls arbitrary: st)
  case Nil
  then show ?case by simp
next
  case (Cons l ls)
  from Cons.prems obtain st1 where
    l: "read_atom_line u l st = Inr st1" and rest: "read_atoms u ls st1 = (Inr (), st')"
    by (auto split: sum.splits)
  from read_atom_line_readable [OF l] Cons.IH [OF rest] show ?case by simp
qed

lemma read_atoms_Inl:
  assumes "read_atoms u ls st = (Inl e, st')"
  shows "length (takeWhile (atom_line_readable u) ls) < length ls \<and>
    read_atoms u (take (length (takeWhile (atom_line_readable u) ls)) ls) st = (Inr (), st') \<and>
    read_atom_line u (ls ! length (takeWhile (atom_line_readable u) ls)) st' = Inl e"
  using assms
proof (induction ls arbitrary: st)
  case Nil
  then show ?case by simp
next
  case (Cons l ls)
  show ?case
  proof (cases "read_atom_line u l st")
    case (Inl e1)
    with Cons.prems have "e1 = e" "st' = st" by simp_all
    moreover from read_atom_line_Inl [OF Inl] have "\<not> atom_line_readable u l" by simp
    ultimately show ?thesis using Inl by simp
  next
    case (Inr st1)
    with Cons.prems have rest: "read_atoms u ls st1 = (Inl e, st')" by simp
    from read_atom_line_readable [OF Inr] have "atom_line_readable u l" .
    with Cons.IH [OF rest] Inr show ?thesis by simp
  qed
qed

lemma read_atoms_topology:
  assumes "read_atoms u ls (fr, rs) = (Inr (), fr', rs')"
  shows "topology fr' = (topology fr)
    \<lparr>atoms := atoms (topology fr) @ map (\<lambda>l. Atom (trim u (substr l 10 5))) ls\<rparr>"
  using assms
proof (induction ls arbitrary: fr rs)
  case Nil
  then show ?case by simp
next
  case (Cons l ls)
  from Cons.prems obtain fr1 rs1 where
    l: "read_atom_line u l (fr, rs) = Inr (fr1, rs1)" and
    rest: "read_atoms u ls (fr1, rs1) = (Inr (), fr', rs')"
    by (auto split: sum.splits)
  from read_atom_line_Inr [OF l] obtain p v where
    fr1: "fr1 = add_atom (Atom (trim u (substr l 10 5))) p v fr"
    by blast
  from Cons.IH [OF rest] fr1 show ?case
    by (simp add: add_atom_def Topology_add_atom_def)
qed

lemma read_box_Inl:
  assumes "read_box u box fr = Inl e"
  shows "(\<exists>m. e = Error m) \<or>
    (e = assertion_failed \<and> length (split u box (CHR '' '')) = 9 \<and>
     (\<exists>j \<in> {3, 4, 6}. \<exists>x. parse_double u (split u box (CHR '' '') ! j) = Inr x \<and> x \<noteq> 0))"
  using assms
  by (auto simp: read_box_def Let_def and_then_eq_Inl parse_d_eq_Inl assert_zero_def
      and_then_eq_Inr parse_d_eq_Inr split: if_splits)

text \<open>\<open>read\<close> returns normally exactly for a step that can be read.\<close>

lemma read_box_readable:
  assumes "box_line_readable u box"
  shows "\<exists>fr'. read_box u box fr = Inr fr'"
proof -
  let ?v = "split u box (CHR '' '')"
  have p: "\<exists>x. parse_d u (?v ! k) = Inr x"
    if "list_all (parses_as_double u) ?v" "k < length ?v" for k
    using that by (auto simp: list_all_length parses_as_double_iff parse_d_eq_Inr)
  show ?thesis
  proof (cases "length ?v = 3")
    case True
    with assms have all: "list_all (parses_as_double u) ?v"
      by (simp add: box_line_readable_def Let_def)
    from p [OF all, of 0] p [OF all, of 1] p [OF all, of 2] True obtain a b c where
      "parse_d u (?v ! 0) = Inr a" "parse_d u (?v ! 1) = Inr b" "parse_d u (?v ! 2) = Inr c"
      by auto
    with True show ?thesis by (simp add: read_box_def)
  next
    case False
    show ?thesis
    proof (cases "length ?v = 9")
      case True
      with assms have all: "list_all (parses_as_double u) ?v" and
        z: "parse_d u (?v ! 3) = Inr 0" "parse_d u (?v ! 4) = Inr 0" "parse_d u (?v ! 6) = Inr 0"
        by (simp_all add: box_line_readable_def Let_def parse_d_eq_Inr)
      from p [OF all, of 0] p [OF all, of 1] p [OF all, of 2] p [OF all, of 5]
        p [OF all, of 7] p [OF all, of 8] True obtain a b c d e f where
        "parse_d u (?v ! 0) = Inr a" "parse_d u (?v ! 1) = Inr b" "parse_d u (?v ! 2) = Inr c"
        "parse_d u (?v ! 5) = Inr d" "parse_d u (?v ! 7) = Inr e" "parse_d u (?v ! 8) = Inr f"
        by auto
      with True z show ?thesis by (simp add: read_box_def assert_zero_def)
    next
      case no: False
      with False show ?thesis by (simp add: read_box_def)
    qed
  qed
qed



subsection \<open>The frame after a failure\<close>

lemma cleared_frame_topology:
  "topology (Frame_resize 0 (Frame_reserve n (add_velocities (Frame_set k v g))))
     = Topology_resize 0 (topology g)"
  "atoms (Topology_resize 0 t) = []"
  "(Topology_resize 0 t)\<lparr>atoms := []\<rparr> = Topology_resize 0 t"
  by (simp_all add: Frame_resize_def Frame_reserve_def add_velocities_def Frame_set_def
      Topology_resize_def split: option.splits)

text \<open>The frame that \<open>read\<close> has built when it has turned \<open>k\<close> atom lines into atoms.\<close>

lemma read_atoms_frame:
  assumes "read_atoms u (take k (drop q L))
      (Frame_resize 0 (Frame_reserve natoms (add_velocities
         (Frame_set ''name'' (STRING title) frame))), []) = (Inr (), frame3, rs)"
    and "q + k \<le> length L"
  shows "properties frame3 = (properties frame)(''name'' \<mapsto> STRING title) \<and>
    step frame3 = step frame \<and> cell frame3 = cell frame \<and>
    length (positions frame3) = k \<and>
    (\<exists>vs. velocities frame3 = Some vs \<and> length vs = k \<and>
       (\<forall>i < k. spec_atom_values u (L ! (q + i)) (positions frame3 ! i) (vs ! i))) \<and>
    topology frame3 = (Topology_resize 0 (topology frame))
      \<lparr>atoms := map (\<lambda>l. Atom (trim u (substr l 10 5))) (take k (drop q L))\<rparr>"
proof -
  let ?ls = "take k (drop q L)"
  let ?frame2 = "Frame_resize 0 (Frame_reserve natoms (add_velocities
         (Frame_set ''name'' (STRING title) frame)))"
  have len: "length ?ls = k" using assms(2) by simp
  have nth: "?ls ! i = L ! (q + i)" if "i < k" for i
    using that assms(2) by simp
  have v: "velocities ?frame2 = Some []" by simp
  from read_atoms_Inr [OF assms(1) v] obtain ps vs where
    r: "positions frame3 = ps" "velocities frame3 = Some vs"
      "length ps = k" "length vs = k"
      "cell frame3 = cell frame"
      "properties frame3 = (properties frame)(''name'' \<mapsto> STRING title)"
      "step frame3 = step frame"
    and all: "\<forall>i < length ?ls. spec_atom_values u (?ls ! i) (ps ! i) (vs ! i)"
    using len by (auto simp: Frame_set_def)
  have "\<forall>i < k. spec_atom_values u (L ! (q + i)) (positions frame3 ! i) (vs ! i)"
    using all len nth r(1) by auto
  moreover from read_atoms_topology [OF assms(1)]
  have "topology frame3 = (Topology_resize 0 (topology frame))
      \<lparr>atoms := map (\<lambda>l. Atom (trim u (substr l 10 5))) ?ls\<rparr>"
    by (simp add: cleared_frame_topology)
  ultimately show ?thesis using r by simp
qed

text \<open>The three places where a call of \<open>read\<close> can throw, and the frame it leaves.\<close>

lemma GROFormat_read_Inl_title:
  assumes "GROFormat_read u fmt frame = (Inl e, frame', fmt')"
    and "length (lines (gro_file fmt)) \<le> position (gro_file fmt)"
  shows "frame' = frame \<and> (\<exists>m. e = FormatError m)"
proof -
  from assms(2) have "readline (gro_file fmt)
      = (Inl (FileError ''no more lines in the file''), gro_file fmt)"
    by (simp add: readline_def)
  with assms(1) show ?thesis by (auto simp: GROFormat_read_def)
qed

lemma GROFormat_read_Inl_count:
  assumes "GROFormat_read u fmt frame = (Inl e, frame', fmt')"
    and "position (gro_file fmt) < length (lines (gro_file fmt))"
    and "length (lines (gro_file fmt)) \<le> Suc (position (gro_file fmt)) \<or>
      (\<exists>m. parse_size_t u (lines (gro_file fmt) ! Suc (position (gro_file fmt))) = Inl m)"
  shows "frame' = Frame_set ''name''
        (STRING (lines (gro_file fmt) ! position (gro_file fmt))) frame \<and>
    (\<exists>m. e = FormatError m)"
proof -
  let ?f = "gro_file fmt"
  let ?L = "lines ?f" and ?p = "position ?f"
  have r1: "readline ?f = (Inr (?L ! ?p), ?f\<lparr>position := Suc ?p\<rparr>)"
    using assms(2) by (simp add: readline_def)
  show ?thesis
  proof (cases "length ?L \<le> Suc ?p")
    case True
    then have "readline (?f\<lparr>position := Suc ?p\<rparr>)
        = (Inl (FileError ''no more lines in the file''), ?f\<lparr>position := Suc ?p\<rparr>)"
      by (simp add: readline_def)
    with assms(1) r1 show ?thesis by (auto simp: GROFormat_read_def Let_def)
  next
    case False
    then have r2: "readline (?f\<lparr>position := Suc ?p\<rparr>)
        = (Inr (?L ! Suc ?p), ?f\<lparr>position := Suc (Suc ?p)\<rparr>)"
      by (simp add: readline_def)
    from False assms(3) obtain m where "parse_size_t u (?L ! Suc ?p) = Inl m" by auto
    with assms(1) r1 r2 show ?thesis by (auto simp: GROFormat_read_def Let_def)
  qed
qed

lemma GROFormat_read_Inl_atoms:
  assumes res: "GROFormat_read u fmt frame = (Inl e, frame', fmt')"
    and L: "L = lines (gro_file fmt)" and p: "p = position (gro_file fmt)"
    and c: "Suc p < length L"
    and n: "parse_size_t u (L ! Suc p) = Inr natoms"
    and k: "k = atoms_before_failure u L p natoms"
  shows "k \<le> natoms \<and>
    properties frame' = (properties frame)(''name'' \<mapsto> STRING (L ! p)) \<and>
    step frame' = step frame \<and> cell frame' = cell frame \<and>
    length (positions frame') = k \<and>
    (\<exists>vs. velocities frame' = Some vs \<and> length vs = k \<and>
       (\<forall>i < k. spec_atom_values u (L ! (p + 2 + i)) (positions frame' ! i) (vs ! i))) \<and>
    topology frame' = (Topology_resize 0 (topology frame))
      \<lparr>atoms := map (\<lambda>l. Atom (trim u (substr l 10 5))) (take k (drop (p + 2) L))\<rparr> \<and>
    (if length L < p + 2 + natoms then (\<exists>m. e = FileError m)
     else if k < natoms then
       (if length (L ! (p + 2 + k)) < 44 then
          e = FormatError (''GRO Atom line is too small: '' @ quoted (L ! (p + 2 + k)))
        else (\<exists>m. e = Error m))
     else if length L \<le> p + 2 + natoms then (\<exists>m. e = FileError m)
     else (\<exists>m. e = Error m) \<or>
       (e = assertion_failed \<and> length (split u (L ! (p + 2 + natoms)) (CHR '' '')) = 9 \<and>
        (\<exists>j \<in> {3, 4, 6}. \<exists>x.
           parse_double u (split u (L ! (p + 2 + natoms)) (CHR '' '') ! j) = Inr x \<and> x \<noteq> 0)))"
proof -
  let ?f = "gro_file fmt"
  let ?frame2 = "Frame_resize 0 (Frame_reserve natoms (add_velocities
         (Frame_set ''name'' (STRING (L ! p)) frame)))"
  let ?f2 = "?f\<lparr>position := p + 2\<rparr>"
  let ?ls = "take natoms (drop (p + 2) L)"
  let ?frame_after = "\<lambda>fr k.
    properties fr = (properties frame)(''name'' \<mapsto> STRING (L ! p)) \<and>
    step fr = step frame \<and> cell fr = cell frame \<and>
    length (positions fr) = k \<and>
    (\<exists>vs. velocities fr = Some vs \<and> length vs = k \<and>
       (\<forall>i < k. spec_atom_values u (L ! (p + 2 + i)) (positions fr ! i) (vs ! i))) \<and>
    topology fr = (Topology_resize 0 (topology frame))
      \<lparr>atoms := map (\<lambda>l. Atom (trim u (substr l 10 5))) (take k (drop (p + 2) L))\<rparr>"
  have r1: "readline ?f = (Inr (L ! p), ?f\<lparr>position := Suc p\<rparr>)"
    using c L p by (simp add: readline_def)
  have r2: "readline (?f\<lparr>position := Suc p\<rparr>) = (Inr (L ! Suc p), ?f2)"
    using c L p by (simp add: readline_def)
  have unfold: "GROFormat_read u fmt frame =
     (case readlines natoms ?f2 of
        (Inl e, f3) \<Rightarrow> (Inl e, ?frame2, fmt\<lparr>gro_file := f3, format_residues := []\<rparr>)
      | (Inr ls, f3) \<Rightarrow>
          (case read_atoms u ls (?frame2, []) of
             (Inl e, frame3, rs) \<Rightarrow>
               (Inl e, frame3, fmt\<lparr>gro_file := f3, format_residues := rs\<rparr>)
           | (Inr _, frame3, rs) \<Rightarrow>
               (case readline f3 of
                  (Inl e, f4) \<Rightarrow>
                    (Inl e, frame3, fmt\<lparr>gro_file := f4, format_residues := rs\<rparr>)
                | (Inr box, f4) \<Rightarrow>
                    (case read_box u box frame3 of
                       Inl e \<Rightarrow>
                         (Inl e, frame3, fmt\<lparr>gro_file := f4, format_residues := rs\<rparr>)
                     | Inr frame4 \<Rightarrow>
                         (Inr (),
                          foldl (\<lambda>fr kr. add_residue (snd kr) fr) frame4 rs,
                          fmt\<lparr>gro_file := f4, format_residues := rs\<rparr>)))))"
    unfolding GROFormat_read_def using r1 r2 n by (simp add: Let_def)
  show ?thesis
  proof (cases "length L < p + 2 + natoms")
    case True
    then have "readlines natoms ?f2 = (Inl (FileError ''no more lines in the file''),
        ?f2\<lparr>position := max (position ?f2) (length (lines ?f2))\<rparr>)"
      using L by (simp add: readlines_def)
    with res unfold have e: "e = FileError ''no more lines in the file''" and fr: "frame' = ?frame2"
      by simp_all
    have k0: "k = 0" using k True by (simp add: atoms_before_failure_def)
    have "read_atoms u (take 0 (drop (p + 2) L)) (?frame2, []) = (Inr (), ?frame2, [])"
      by simp
    from read_atoms_frame [OF this] c have "?frame_after ?frame2 0" by simp
    with e fr k0 True show ?thesis by simp
  next
    case False
    then have enough: "p + 2 + natoms \<le> length L" by simp
    then have rl: "readlines natoms ?f2 = (Inr ?ls, ?f\<lparr>position := p + 2 + natoms\<rparr>)"
      using L by (simp add: readlines_def)
    have len: "length ?ls = natoms" using enough by simp
    obtain c4 frame3 rs where a: "read_atoms u ?ls (?frame2, []) = (c4, frame3, rs)"
      by (metis prod_cases3)
    show ?thesis
    proof (cases c4)
      case (Inl e4)
      with res unfold rl a have e: "e = e4" and fr: "frame' = frame3" by simp_all
      let ?k = "length (takeWhile (atom_line_readable u) ?ls)"
      from a Inl have a0: "read_atoms u ?ls (?frame2, []) = (Inl e4, frame3, rs)" by simp
      note stop = read_atoms_Inl [OF a0]
      have less: "?k < length ?ls" using stop by (rule conjunct1)
      have first: "read_atoms u (take ?k ?ls) (?frame2, []) = (Inr (), frame3, rs)"
        using stop by blast
      have bad: "read_atom_line u (?ls ! ?k) (frame3, rs) = Inl e4"
        using stop by blast
      have kk: "k = ?k" using k False by (simp add: atoms_before_failure_def)
      have lt: "k < natoms" using less len kk by simp
      have t: "take ?k ?ls = take k (drop (p + 2) L)"
        using lt kk by (simp add: min_def)
      have line: "?ls ! ?k = L ! (p + 2 + k)"
        using lt kk enough by simp
      from first t have "read_atoms u (take k (drop (p + 2) L)) (?frame2, []) = (Inr (), frame3, rs)"
        by simp
      from read_atoms_frame [OF this] lt enough have fa: "?frame_after frame3 k" by simp
      from read_atom_line_Inl [OF bad] line have
        "if length (L ! (p + 2 + k)) < 44 then
          e4 = FormatError (''GRO Atom line is too small: '' @ quoted (L ! (p + 2 + k)))
        else (\<exists>m. e4 = Error m)"
        by simp
      with fa e fr lt False show ?thesis by simp
    next
      case (Inr ok)
      with a have a': "read_atoms u ?ls (?frame2, []) = (Inr (), frame3, rs)" by simp
      from read_atoms_readable [OF a'] have "\<forall>x \<in> set ?ls. atom_line_readable u x"
        by (simp add: list_all_iff)
      then have "takeWhile (atom_line_readable u) ?ls = ?ls"
        by (simp only: takeWhile_eq_all_conv)
      then have "length (takeWhile (atom_line_readable u) ?ls) = natoms"
        using len by (simp only:)
      then have kk: "k = natoms" using k False by (simp add: atoms_before_failure_def)
      from read_atoms_frame [of u natoms "p + 2" L natoms "L ! p" frame frame3 rs] a' enough
      have fa: "?frame_after frame3 natoms" by simp
      show ?thesis
      proof (cases "length L \<le> p + 2 + natoms")
        case True
        then have "readline (?f\<lparr>position := p + 2 + natoms\<rparr>)
            = (Inl (FileError ''no more lines in the file''), ?f\<lparr>position := p + 2 + natoms\<rparr>)"
          using L by (simp add: readline_def)
        with res unfold rl a' have "e = FileError ''no more lines in the file''" "frame' = frame3"
          by simp_all
        with fa kk False True show ?thesis by simp
      next
        case more: False
        then have rb: "readline (?f\<lparr>position := p + 2 + natoms\<rparr>)
            = (Inr (L ! (p + 2 + natoms)), ?f\<lparr>position := Suc (p + 2 + natoms)\<rparr>)"
          using L by (simp add: readline_def)
        from res unfold rl a' rb have
          b: "read_box u (L ! (p + 2 + natoms)) frame3 = Inl e" and fr: "frame' = frame3"
          by (auto split: sum.splits)
        from read_box_Inl [OF b] fa kk fr False more show ?thesis by simp
      qed
    qed
  qed
qed

text \<open>
  Claim C1 says that a call of \<open>read\<close> that fails leaves the frame exactly as it was.
  \<open>short.gro\<close> opens as a trajectory of one step; reading it into an empty frame fails
  with a \<open>FormatError\<close> at the atom line, and the frame is not the empty frame any more:
  it has got the name of the step and storage for velocities.
\<close>

theorem read_leaves_partial_state:
  "GROFormat_open decimal_utils short_gro = Inr short_format \<and>
   fst (GROFormat_read decimal_utils short_format Frame_empty)
     = Inl (FormatError (''GRO Atom line is too small: '' @ quoted ''    1AR      AR    1   0.500'')) \<and>
   fst (snd (GROFormat_read decimal_utils short_format Frame_empty)) \<noteq> Frame_empty"
proof -
  let ?r = "GROFormat_read decimal_utils short_format Frame_empty"
  have e: "fst ?r
     = Inl (FormatError (''GRO Atom line is too small: '' @ quoted ''    1AR      AR    1   0.500''))"
    by code_simp
  have "velocities (fst (snd ?r)) = Some []" by code_simp
  moreover have "velocities Frame_empty = None" by (simp add: Frame_empty_def)
  ultimately have "fst (snd ?r) \<noteq> Frame_empty" by auto
  with e short_open show ?thesis by simp
qed

text \<open>
  Claim C1, amended. A call of \<open>GROFormat::read\<close> returns normally, throws an \<open>Error\<close>
  (a \<open>FormatError\<close>, a \<open>FileError\<close> or a plain \<open>Error\<close>) or stops at a failed \<open>assert\<close>;
  the \<open>assert\<close> fails only after all atom lines were read, at a box line of 9 fields whose
  fourth, fifth or seventh field is a number other than zero.
  When the call returns normally, the positions, the velocities and the atoms of the frame
  are those of the atom lines of the step and its \<open>name\<close> property is the title of the
  step; the other properties and the step number of the frame are kept.
  When it does not, the frame is left as the call has changed it up to there:
  exactly as before when the title line could not be read (\<open>FormatError\<close>);
  as before but for its \<open>name\<close> property, set to the title, when the count line is missing
  or not a number (\<open>FormatError\<close>);
  and otherwise without its previous atoms, with storage for velocities, with the title
  as \<open>name\<close>, its cell, step number and other properties as before, and with one atom for
  each of the \<open>k\<close> atom lines that were read before the failure: none when fewer than
  \<open>natoms\<close> lines are left (\<open>FileError\<close>); those before the first atom line that is shorter
  than 44 characters (\<open>FormatError\<close>) or has a field that is not a number (\<open>Error\<close>);
  all \<open>natoms\<close> when the box line is missing (\<open>FileError\<close>) or cannot be read
  (\<open>Error\<close>, or the \<open>assert\<close>).
\<close>

theorem read_outcome_and_frame_left:
  assumes "GROFormat_read u fmt frame = (r, frame', fmt')"
    and "L = lines (gro_file fmt)" and "p = position (gro_file fmt)"
  shows "(r = Inr () \<longrightarrow>
      (\<exists>natoms vs.
         parse_size_t u (L ! Suc p) = Inr natoms \<and>
         length (positions frame') = natoms \<and>
         velocities frame' = Some vs \<and> length vs = natoms \<and>
         (\<forall>i < natoms. spec_atom_values u (L ! (p + 2 + i)) (positions frame' ! i) (vs ! i)) \<and>
         atoms (topology frame') = map (\<lambda>l. Atom (trim u (substr l 10 5)))
           (take natoms (drop (p + 2) L)) \<and>
         properties frame' = (properties frame)(''name'' \<mapsto> STRING (L ! p)) \<and>
         step frame' = step frame)) \<and>
    (\<forall>e. r = Inl e \<longrightarrow>
      (if length L \<le> p then frame' = frame \<and> (\<exists>m. e = FormatError m)
       else if length L \<le> Suc p \<or> (\<exists>m. parse_size_t u (L ! Suc p) = Inl m) then
         frame' = Frame_set ''name'' (STRING (L ! p)) frame \<and> (\<exists>m. e = FormatError m)
       else
         (\<exists>natoms k.
            parse_size_t u (L ! Suc p) = Inr natoms \<and>
            k = atoms_before_failure u L p natoms \<and> k \<le> natoms \<and>
            properties frame' = (properties frame)(''name'' \<mapsto> STRING (L ! p)) \<and>
            step frame' = step frame \<and> cell frame' = cell frame \<and>
            length (positions frame') = k \<and>
            (\<exists>vs. velocities frame' = Some vs \<and> length vs = k \<and>
               (\<forall>i < k. spec_atom_values u (L ! (p + 2 + i)) (positions frame' ! i) (vs ! i))) \<and>
            topology frame' = (Topology_resize 0 (topology frame))
              \<lparr>atoms := map (\<lambda>l. Atom (trim u (substr l 10 5))) (take k (drop (p + 2) L))\<rparr> \<and>
            (if length L < p + 2 + natoms then (\<exists>m. e = FileError m)
             else if k < natoms then
               (if length (L ! (p + 2 + k)) < 44 then
                  e = FormatError (''GRO Atom line is too small: '' @ quoted (L ! (p + 2 + k)))
                else (\<exists>m. e = Error m))
             else if length L \<le> p + 2 + natoms then (\<exists>m. e = FileError m)
             else (\<exists>m. e = Error m) \<or>
               (e = assertion_failed \<and>
                length (split u (L ! (p + 2 + natoms)) (CHR '' '')) = 9 \<and>
                (\<exists>j \<in> {3, 4, 6}. \<exists>x.
                   parse_double u (split u (L ! (p + 2 + natoms)) (CHR '' '') ! j) = Inr x \<and>
                   x \<noteq> 0))))))"
proof (intro conjI impI allI)
  assume "r = Inr ()"
  with assms(1) have "GROFormat_read u fmt frame = (Inr (), frame', fmt')" by simp
  from GROFormat_read_frame [OF this] show "\<exists>natoms vs.
         parse_size_t u (L ! Suc p) = Inr natoms \<and>
         length (positions frame') = natoms \<and>
         velocities frame' = Some vs \<and> length vs = natoms \<and>
         (\<forall>i < natoms. spec_atom_values u (L ! (p + 2 + i)) (positions frame' ! i) (vs ! i)) \<and>
         atoms (topology frame') = map (\<lambda>l. Atom (trim u (substr l 10 5)))
           (take natoms (drop (p + 2) L)) \<and>
         properties frame' = (properties frame)(''name'' \<mapsto> STRING (L ! p)) \<and>
         step frame' = step frame"
    unfolding assms(2,3) by blast
next
  fix e assume "r = Inl e"
  with assms(1) have res: "GROFormat_read u fmt frame = (Inl e, frame', fmt')" by simp
  let ?third = "\<exists>natoms k.
            parse_size_t u (L ! Suc p) = Inr natoms \<and>
            k = atoms_before_failure u L p natoms \<and> k \<le> natoms \<and>
            properties frame' = (properties frame)(''name'' \<mapsto> STRING (L ! p)) \<and>
            step frame' = step frame \<and> cell frame' = cell frame \<and>
            length (positions frame') = k \<and>
            (\<exists>vs. velocities frame' = Some vs \<and> length vs = k \<and>
               (\<forall>i < k. spec_atom_values u (L ! (p + 2 + i)) (positions frame' ! i) (vs ! i))) \<and>
            topology frame' = (Topology_resize 0 (topology frame))
              \<lparr>atoms := map (\<lambda>l. Atom (trim u (substr l 10 5))) (take k (drop (p + 2) L))\<rparr> \<and>
            (if length L < p + 2 + natoms then (\<exists>m. e = FileError m)
             else if k < natoms then
               (if length (L ! (p + 2 + k)) < 44 then
                  e = FormatError (''GRO Atom line is too small: '' @ quoted (L ! (p + 2 + k)))
                else (\<exists>m. e = Error m))
             else if length L \<le> p + 2 + natoms then (\<exists>m. e = FileError m)
             else (\<exists>m. e = Error m) \<or>
               (e = assertion_failed \<and>
                length (split u (L ! (p + 2 + natoms)) (CHR '' '')) = 9 \<and>
                (\<exists>j \<in> {3, 4, 6}. \<exists>x.
                   parse_double u (split u (L ! (p + 2 + natoms)) (CHR '' '') ! j) = Inr x \<and>
                   x \<noteq> 0)))"
  show "if length L \<le> p then frame' = frame \<and> (\<exists>m. e = FormatError m)
       else if length L \<le> Suc p \<or> (\<exists>m. parse_size_t u (L ! Suc p) = Inl m) then
         frame' = Frame_set ''name'' (STRING (L ! p)) frame \<and> (\<exists>m. e = FormatError m)
       else ?third"
  proof (cases "length L \<le> p")
    case True
    with GROFormat_read_Inl_title [OF res] assms(2,3) show ?thesis by simp
  next
    case False
    show ?thesis
    proof (cases "length L \<le> Suc p \<or> (\<exists>m. parse_size_t u (L ! Suc p) = Inl m)")
      case True
      with GROFormat_read_Inl_count [OF res] False assms(2,3) show ?thesis by simp
    next
      case count: False
      then obtain natoms where n: "parse_size_t u (L ! Suc p) = Inr natoms"
        by (cases "parse_size_t u (L ! Suc p)") auto
      from count have c: "Suc p < length L" by simp
      from GROFormat_read_Inl_atoms [OF res assms(2,3) c n refl] n
      have ?third by blast
      with False count show ?thesis by simp
    qed
  qed
qed

text \<open>
  The cases of the amended C1: the first step of \<open>water.gro\<close>, which is read;
  \<open>short.gro\<close>, which fails at its first atom line, with no atom in the frame;
  \<open>water.gro\<close> at its end; \<open>junk.gro\<close>, whose second line is not a number; and
  \<open>box.gro\<close>, which fails at the \<open>assert\<close> on its box line, with its atom in the frame
  and the cell as before.
\<close>

theorem read_outcome_and_frame_left_witness:
  "fst (GROFormat_read decimal_utils water_format Frame_empty) = Inr () \<and>
   properties (fst (snd (GROFormat_read decimal_utils water_format Frame_empty))) ''name''
     = Some (STRING ''water'') \<and>
   length (positions (fst (snd (GROFormat_read decimal_utils water_format Frame_empty)))) = 2 \<and>
   fst (GROFormat_read decimal_utils short_format Frame_empty)
     = Inl (FormatError (''GRO Atom line is too small: '' @ quoted ''    1AR      AR    1   0.500'')) \<and>
   atoms_before_failure decimal_utils (lines (gro_file short_format)) 0 1 = 0 \<and>
   velocities (fst (snd (GROFormat_read decimal_utils short_format Frame_empty))) = Some [] \<and>
   properties (fst (snd (GROFormat_read decimal_utils short_format Frame_empty))) ''name''
     = Some (STRING ''bad step'') \<and>
   fst (GROFormat_read decimal_utils
            (water_format\<lparr>gro_file := seekg 9 (gro_file water_format)\<rparr>) Frame_empty)
     = Inl (FormatError ''can not read next step as GRO: no more lines in the file'') \<and>
   fst (snd (GROFormat_read decimal_utils
            (water_format\<lparr>gro_file := seekg 9 (gro_file water_format)\<rparr>) Frame_empty))
     = Frame_empty \<and>
   fst (GROFormat_read decimal_utils junk_format Frame_empty)
     = Inl (FormatError (''can not read next step as GRO: can not convert ''
              @ quoted ''more junk'' @ '' to an integer'')) \<and>
   fst (snd (GROFormat_read decimal_utils junk_format Frame_empty))
     = Frame_set ''name'' (STRING ''junk'') Frame_empty \<and>
   fst (GROFormat_read decimal_utils box_format Frame_empty) = Inl assertion_failed \<and>
   atoms_before_failure decimal_utils (lines (gro_file box_format)) 0 1 = 1 \<and>
   length (positions (fst (snd (GROFormat_read decimal_utils box_format Frame_empty)))) = 1 \<and>
   cell (fst (snd (GROFormat_read decimal_utils box_format Frame_empty))) = UnitCell_infinite"
proof -
  let ?u = decimal_utils
  let ?end = "water_format\<lparr>gro_file := seekg 9 (gro_file water_format)\<rparr>"
  let ?r = "GROFormat_read ?u water_format Frame_empty"
  let ?s = "GROFormat_read ?u short_format Frame_empty"
  let ?t = "GROFormat_read ?u ?end Frame_empty"
  let ?b = "GROFormat_read ?u box_format Frame_empty"
  let ?short = "FormatError (''GRO Atom line is too small: '' @ quoted ''    1AR      AR    1   0.500'')"
  let ?eof = "FormatError ''can not read next step as GRO: no more lines in the file''"
  have ok: "fst ?r = Inr ()" by code_simp
  then have r: "?r = (Inr (), fst (snd ?r), snd (snd ?r))" by (simp add: prod_eq_iff)
  have n: "parse_size_t ?u (lines (gro_file water_format) ! Suc (position (gro_file water_format))) = Inr 2"
    "lines (gro_file water_format) ! position (gro_file water_format) = ''water''"
    by code_simp+
  from read_outcome_and_frame_left [OF r refl refl] n
  have c1: "properties (fst (snd ?r)) ''name'' = Some (STRING ''water'')"
    "length (positions (fst (snd ?r))) = 2"
    by auto
  have es: "fst ?s = Inl ?short" by code_simp
  then have s: "?s = (Inl ?short, fst (snd ?s), snd (snd ?s))" by (simp add: prod_eq_iff)
  have fs: "\<not> length (lines (gro_file short_format)) \<le> position (gro_file short_format)"
    "\<not> length (lines (gro_file short_format)) \<le> Suc (position (gro_file short_format))"
    "parse_size_t ?u (lines (gro_file short_format) ! Suc (position (gro_file short_format))) = Inr 1"
    "position (gro_file short_format) = 0"
    "lines (gro_file short_format) ! 0 = ''bad step''"
    "atoms_before_failure ?u (lines (gro_file short_format)) 0 1 = 0"
    by code_simp+
  from read_outcome_and_frame_left [OF s refl refl] fs
  have c2: "velocities (fst (snd ?s)) = Some []"
    "properties (fst (snd ?s)) ''name'' = Some (STRING ''bad step'')"
    by auto
  have et: "fst ?t = Inl ?eof" by code_simp
  then have t: "?t = (Inl ?eof, fst (snd ?t), snd (snd ?t))" by (simp add: prod_eq_iff)
  have at_end: "length (lines (gro_file ?end)) \<le> position (gro_file ?end)" by code_simp
  from read_outcome_and_frame_left [OF t refl refl] at_end
  have c3: "fst (snd ?t) = Frame_empty" by simp
  let ?j = "GROFormat_read ?u junk_format Frame_empty"
  let ?junk = "FormatError (''can not read next step as GRO: can not convert ''
              @ quoted ''more junk'' @ '' to an integer'')"
  have ej: "fst ?j = Inl ?junk" by code_simp
  then have j: "?j = (Inl ?junk, fst (snd ?j), snd (snd ?j))" by (simp add: prod_eq_iff)
  have fj: "\<not> length (lines (gro_file junk_format)) \<le> position (gro_file junk_format)"
    "parse_size_t ?u (lines (gro_file junk_format) ! Suc (position (gro_file junk_format)))
       = Inl (''can not convert '' @ quoted ''more junk'' @ '' to an integer'')"
    "lines (gro_file junk_format) ! position (gro_file junk_format) = ''junk''"
    by code_simp+
  from read_outcome_and_frame_left [OF j refl refl] fj
  have c5: "fst (snd ?j) = Frame_set ''name'' (STRING ''junk'') Frame_empty" by auto
  have eb: "fst ?b = Inl assertion_failed" by code_simp
  then have b: "?b = (Inl assertion_failed, fst (snd ?b), snd (snd ?b))" by (simp add: prod_eq_iff)
  have fb: "\<not> length (lines (gro_file box_format)) \<le> position (gro_file box_format)"
    "\<not> length (lines (gro_file box_format)) \<le> Suc (position (gro_file box_format))"
    "parse_size_t ?u (lines (gro_file box_format) ! Suc (position (gro_file box_format))) = Inr 1"
    "position (gro_file box_format) = 0"
    "atoms_before_failure ?u (lines (gro_file box_format)) 0 1 = 1"
    by code_simp+
  from read_outcome_and_frame_left [OF b refl refl] fb
  have c4: "length (positions (fst (snd ?b))) = 1" "cell (fst (snd ?b)) = cell Frame_empty"
    by auto
  have "cell Frame_empty = UnitCell_infinite" by (simp add: Frame_empty_def)
  with ok c1 es fs(6) c2 et c3 ej c5 eb fb(5) c4 show ?thesis by simp
qed

subsection \<open>Reading a step of a trajectory\<close>




subsection \<open>Reading back what was written\<close>

text \<open>The lines of a file that \<open>write\<close> has printed, with the first atom line and the box line.\<close>

lemma write_cell_prints:
  assumes "write_cell u c f = (Inr (), f')"
  shows "f' = print_line (written_box_line u c) f"
proof (cases "shape c = ORTHORHOMBIC \<or> shape c = INFINITE")
  case True
  obtain a b d where l: "cell_lengths c = (a, b, d)" by (cases "cell_lengths c")
  from assms True l show ?thesis
    by (simp add: write_cell_def written_box_line_def split: sum.splits)
next
  case False
  obtain m00 m01 m02 m10 m11 m12 m20 m21 m22 where
    m: "cell_matrix c = Matrix3D m00 m01 m02 m10 m11 m12 m20 m21 m22"
    by (cases "cell_matrix c")
  from assms False m show ?thesis
    by (simp add: write_cell_def written_box_line_def split: sum.splits)
qed

lemma write_atom_line:
  assumes "write_atom u frame i (f, w, m) = (Inr (), f', w', m')"
  shows "f' = print_line (format_atom_line u
      (fst (written_resid (residue_for_atom (topology frame) i) m))
      (fst (written_resname (residue_for_atom (topology frame) i)))
      (atom_name (atoms (topology frame) ! i)) (fst (to_gro_index i))
      (Vector3D_div (positions frame ! i) 10)
      (map_option (\<lambda>vs. Vector3D_div (vs ! i) 10) (velocities frame))) f"
  using assms
  by (auto simp: write_atom_def Let_def split: prod.splits if_splits sum.splits option.splits)

lemma write_atoms_first:
  assumes "write_atoms u frame (i # rest) (f, w, m) = (Inr (), f', w', m')"
  shows "\<exists>ls'. lines f' = lines f @ format_atom_line u
      (fst (written_resid (residue_for_atom (topology frame) i) m))
      (fst (written_resname (residue_for_atom (topology frame) i)))
      (atom_name (atoms (topology frame) ! i)) (fst (to_gro_index i))
      (Vector3D_div (positions frame ! i) 10)
      (map_option (\<lambda>vs. Vector3D_div (vs ! i) 10) (velocities frame)) # ls'"
proof -
  from assms obtain f1 w1 m1 where
    one: "write_atom u frame i (f, w, m) = (Inr (), f1, w1, m1)" and
    rest: "write_atoms u frame rest (f1, w1, m1) = (Inr (), f', w', m')"
    by (auto split: prod.splits sum.splits)
  from write_atoms_Inr [OF rest] obtain ls' where "lines f' = lines f1 @ ls'" by blast
  with write_atom_line [OF one] show ?thesis by (simp add: print_line_def)
qed

lemma GROFormat_write_lines:
  assumes "GROFormat_write u fmt frame = (Inr (), fmt', warnings)"
  shows "\<exists>title ls.
      lines (gro_file fmt') = lines (gro_file fmt)
        @ [title, right_align 5 (to_string (Frame_size frame))] @ ls
        @ [written_box_line u (cell frame)] \<and>
      length ls = Frame_size frame \<and>
      (\<forall>i < Frame_size frame. atom_line_written u frame i (ls ! i) warnings) \<and>
      (0 < Frame_size frame \<longrightarrow>
         ls ! 0 = format_atom_line u
           (fst (written_resid (residue_for_atom (topology frame) 0)
                   (initial_max_resid (residues (topology frame)))))
           (fst (written_resname (residue_for_atom (topology frame) 0)))
           (atom_name (atoms (topology frame) ! 0)) (fst (to_gro_index 0))
           (Vector3D_div (positions frame ! 0) 10)
           (map_option (\<lambda>vs. Vector3D_div (vs ! 0) 10) (velocities frame)))"
proof -
  let ?title = "case properties frame ''name'' of
                             Some (STRING s) \<Rightarrow> s
                           | _ \<Rightarrow> ''GRO File produced by chemfiles''"
  let ?f0 = "print_line ?title (gro_file fmt)"
  let ?f1 = "print_line (right_align 5 (to_string (Frame_size frame))) ?f0"
  let ?m = "initial_max_resid (residues (topology frame))"
  let ?line0 = "format_atom_line u
           (fst (written_resid (residue_for_atom (topology frame) 0) ?m))
           (fst (written_resname (residue_for_atom (topology frame) 0)))
           (atom_name (atoms (topology frame) ! 0)) (fst (to_gro_index 0))
           (Vector3D_div (positions frame ! 0) 10)
           (map_option (\<lambda>vs. Vector3D_div (vs ! 0) 10) (velocities frame))"
  from assms obtain f2 m2 where
    a: "write_atoms u frame [0 ..< Frame_size frame] (?f1, [], ?m) = (Inr (), f2, warnings, m2)"
    by (auto simp: GROFormat_write_def Let_def split: prod.splits sum.splits)
  with assms obtain f3 where
    c: "write_cell u (cell frame) f2 = (Inr (), f3)" and
    g: "gro_file fmt' = f3"
    by (auto simp: GROFormat_write_def Let_def split: prod.splits sum.splits)
  from write_atoms_Inr [OF a] obtain ls where
    ls: "lines f2 = lines ?f1 @ ls" "length ls = Frame_size frame"
      "\<forall>k < Frame_size frame. atom_line_written u frame ([0 ..< Frame_size frame] ! k) (ls ! k) warnings"
    by auto
  have box: "f3 = print_line (written_box_line u (cell frame)) f2"
    using write_cell_prints [OF c] .
  have first: "0 < Frame_size frame \<longrightarrow> ls ! 0 = ?line0"
  proof
    assume "0 < Frame_size frame"
    then have "[0 ..< Frame_size frame] = 0 # [Suc 0 ..< Frame_size frame]"
      by (rule upt_conv_Cons)
    with a have "write_atoms u frame (0 # [Suc 0 ..< Frame_size frame]) (?f1, [], ?m)
        = (Inr (), f2, warnings, m2)"
      by (simp only:)
    from write_atoms_first [OF this] obtain ls' where "lines f2 = lines ?f1 @ ?line0 # ls'"
      by blast
    with ls(1) have "ls = ?line0 # ls'" by (simp only: same_append_eq)
    then show "ls ! 0 = ?line0" by simp
  qed
  have all: "lines (gro_file fmt') = lines (gro_file fmt)
        @ [?title, right_align 5 (to_string (Frame_size frame))] @ ls
        @ [written_box_line u (cell frame)]"
    using g box ls(1) by (simp add: print_line_def)
  have each: "\<forall>i < Frame_size frame. atom_line_written u frame i (ls ! i) warnings"
    using ls(3) by simp
  show ?thesis
  proof (intro exI conjI)
    show "lines (gro_file fmt') = lines (gro_file fmt)
        @ [?title, right_align 5 (to_string (Frame_size frame))] @ ls
        @ [written_box_line u (cell frame)]"
      by (rule all)
    show "length ls = Frame_size frame" by (rule ls(2))
    show "\<forall>i < Frame_size frame. atom_line_written u frame i (ls ! i) warnings" by (rule each)
    show "0 < Frame_size frame \<longrightarrow> ls ! 0 = ?line0" by (rule first)
  qed
qed

text \<open>
  \<open>read\<close> fails with the error of the first atom line when this line cannot be read.
\<close>

lemma GROFormat_read_first_line:
  assumes "position (gro_file fmt) + 2 + natoms \<le> length (lines (gro_file fmt))"
    and "0 < natoms"
    and "parse_size_t u (lines (gro_file fmt) ! Suc (position (gro_file fmt))) = Inr natoms"
    and "\<And>st. read_atom_line u (lines (gro_file fmt) ! (position (gro_file fmt) + 2)) st = Inl e"
  shows "fst (GROFormat_read u fmt frame) = Inl e"
proof -
  let ?f = "gro_file fmt"
  let ?L = "lines ?f" and ?p = "position ?f"
  have r1: "readline ?f = (Inr (?L ! ?p), ?f\<lparr>position := Suc ?p\<rparr>)"
    using assms(1) by (simp add: readline_def)
  have r2: "readline (?f\<lparr>position := Suc ?p\<rparr>) = (Inr (?L ! Suc ?p), ?f\<lparr>position := ?p + 2\<rparr>)"
    using assms(1) by (simp add: readline_def)
  have r3: "readlines natoms (?f\<lparr>position := ?p + 2\<rparr>)
      = (Inr (take natoms (drop (?p + 2) ?L)), ?f\<lparr>position := ?p + 2 + natoms\<rparr>)"
    using assms(1) by (simp add: readlines_def)
  from assms(1,2) obtain rest where
    t: "take natoms (drop (?p + 2) ?L) = ?L ! (?p + 2) # rest"
    by (cases natoms) (simp_all add: take_Suc_conv_app_nth Cons_nth_drop_Suc [symmetric]
        del: add_2_eq_Suc add_2_eq_Suc')
  have e: "Suc (Suc ?p) = ?p + 2" by simp
  show ?thesis
    unfolding GROFormat_read_def
    by (simp add: r1 r2 r3 t assms(3,4) Let_def e del: add_2_eq_Suc add_2_eq_Suc')
qed

text \<open>The columns of a written atom line whose fields have their width.\<close>

lemma align_length:
  "length s \<le> w \<Longrightarrow> length (right_align w s) = w"
  "length s \<le> w \<Longrightarrow> length (left_align w s) = w"
  by (simp_all add: right_align_def left_align_def)

lemma field_reads_back_value:
  assumes "field_reads_back u prec (x / 10)"
  shows "length (format_f u 8 prec (x / 10)) = 8 \<and>
    parse_double u (format_f u 8 prec (x / 10)) = Inr (value_read_back u prec x / 10)"
  using assms
  by (auto simp: field_reads_back_def value_read_back_def split: sum.splits)

lemma written_atom_line_fields:
  assumes "length resid \<le> 5" "length resname \<le> 5" "length name \<le> 5" "length index \<le> 5"
    and "vector_reads_back u 3 (Vector3D_div P 10)"
    and "\<forall>w. V = Some w \<longrightarrow> vector_reads_back u 4 (Vector3D_div w 10)"
    and "l = format_atom_line u resid resname name index (Vector3D_div P 10)
               (map_option (\<lambda>w. Vector3D_div w 10) V)"
  shows "atom_line_readable u l \<and>
    substr l 10 5 = right_align 5 name \<and> substr l 15 5 = right_align 5 index \<and>
    (\<forall>p v. spec_atom_values u l p v \<longrightarrow>
       p = vector_read_back u 3 P \<and>
       v = (case V of None \<Rightarrow> Vector3D_zero | Some w \<Rightarrow> vector_read_back u 4 w))"
proof -
  obtain x y z where P: "P = (x, y, z)" by (cases P)
  let ?a = "right_align 5 resid" and ?b = "left_align 5 resname" and ?c = "right_align 5 name"
  let ?d = "right_align 5 index"
  let ?x = "format_f u 8 3 (x / 10)" and ?y = "format_f u 8 3 (y / 10)"
    and ?z = "format_f u 8 3 (z / 10)"
  have la: "length ?a = 5" "length ?b = 5" "length ?c = 5" "length ?d = 5"
    using assms(1-4) by (simp_all add: align_length)
  from assms(5) P have f: "field_reads_back u 3 (x / 10)" "field_reads_back u 3 (y / 10)"
    "field_reads_back u 3 (z / 10)"
    by (simp_all add: vector_reads_back_def Vector3D_div_def)
  note fx = field_reads_back_value [OF f(1)] and fy = field_reads_back_value [OF f(2)]
    and fz = field_reads_back_value [OF f(3)]
  have lx: "length ?x = 8" "length ?y = 8" "length ?z = 8" using fx fy fz by simp_all
  have px: "parse_double u ?x = Inr (value_read_back u 3 x / 10)"
    "parse_double u ?y = Inr (value_read_back u 3 y / 10)"
    "parse_double u ?z = Inr (value_read_back u 3 z / 10)"
    using fx fy fz by simp_all
  have rb: "vector_read_back u 3 P
      = (value_read_back u 3 x, value_read_back u 3 y, value_read_back u 3 z)"
    using P by (simp add: vector_read_back_def)
  show ?thesis
  proof (cases V)
    case None
    let ?l = "?a @ ?b @ ?c @ ?d @ ?x @ ?y @ ?z"
    have l: "l = ?l"
      using None P assms(7) by (simp add: format_atom_line_def Vector3D_div_def)
    have len: "length ?l = 44" using la lx by simp
    have s: "substr ?l 10 5 = ?c" "substr ?l 15 5 = ?d" "substr ?l 20 8 = ?x"
      "substr ?l 28 8 = ?y" "substr ?l 36 8 = ?z"
      using la lx by (simp_all add: substr_def)
    have "atom_line_readable u ?l"
      unfolding atom_line_readable_def using len s px by simp
    moreover have "p = vector_read_back u 3 P \<and> v = Vector3D_zero"
      if "spec_atom_values u ?l p v" for p v
      using that unfolding spec_atom_values_def s len rb px by simp
    ultimately show ?thesis unfolding l using s None by simp
  next
    case (Some w)
    obtain vx vy vz where w: "w = (vx, vy, vz)" by (cases w)
    let ?vx = "format_f u 8 4 (vx / 10)" and ?vy = "format_f u 8 4 (vy / 10)"
      and ?vz = "format_f u 8 4 (vz / 10)"
    let ?l = "?a @ ?b @ ?c @ ?d @ ?x @ ?y @ ?z @ ?vx @ ?vy @ ?vz"
    from assms(6) Some w have g: "field_reads_back u 4 (vx / 10)"
      "field_reads_back u 4 (vy / 10)" "field_reads_back u 4 (vz / 10)"
      by (simp_all add: vector_reads_back_def Vector3D_div_def)
    note gx = field_reads_back_value [OF g(1)] and gy = field_reads_back_value [OF g(2)]
      and gz = field_reads_back_value [OF g(3)]
    have lv: "length ?vx = 8" "length ?vy = 8" "length ?vz = 8" using gx gy gz by simp_all
    have pv: "parse_double u ?vx = Inr (value_read_back u 4 vx / 10)"
      "parse_double u ?vy = Inr (value_read_back u 4 vy / 10)"
      "parse_double u ?vz = Inr (value_read_back u 4 vz / 10)"
      using gx gy gz by simp_all
    have rv: "vector_read_back u 4 w
        = (value_read_back u 4 vx, value_read_back u 4 vy, value_read_back u 4 vz)"
      using w by (simp add: vector_read_back_def)
    have l: "l = ?l"
      using Some w P assms(7) by (simp add: format_atom_line_def Vector3D_div_def)
    have len: "length ?l = 68" using la lx lv by simp
    have s: "substr ?l 10 5 = ?c" "substr ?l 15 5 = ?d" "substr ?l 20 8 = ?x"
      "substr ?l 28 8 = ?y" "substr ?l 36 8 = ?z"
      "substr ?l 44 8 = ?vx" "substr ?l 52 8 = ?vy" "substr ?l 60 8 = ?vz"
      using la lx lv by (simp_all add: substr_def)
    have "atom_line_readable u ?l"
      unfolding atom_line_readable_def using len s px pv by simp
    moreover have "p = vector_read_back u 3 P \<and> v = vector_read_back u 4 w"
      if "spec_atom_values u ?l p v" for p v
      using that unfolding spec_atom_values_def s len rb rv px pv by simp
    ultimately show ?thesis unfolding l using s Some by simp
  qed
qed

text \<open>\<open>read\<close> does not look at columns 15 to 20 of an atom line.\<close>

lemma index_column_skipped:
  assumes "44 \<le> length line" and "length index = 5"
  shows "read_atom_line u (take 15 line @ index @ drop 20 line) st = read_atom_line u line st"
proof -
  let ?l = "take 15 line @ index @ drop 20 line"
  have e: "length ?l = length line"
    "substr ?l 0 5 = substr line 0 5" "substr ?l 5 5 = substr line 5 5"
    "substr ?l 10 5 = substr line 10 5"
    "substr ?l 20 8 = substr line 20 8" "substr ?l 28 8 = substr line 28 8"
    "substr ?l 36 8 = substr line 36 8" "substr ?l 44 8 = substr line 44 8"
    "substr ?l 52 8 = substr line 52 8" "substr ?l 60 8 = substr line 60 8"
    using assms by (simp_all add: substr_def min_def drop_take)
  have "\<not> length line < 44" using assms(1) by simp
  then show ?thesis unfolding read_atom_line_def e by (simp only: if_False)
qed

lemma box_reads_back_readable:
  assumes "box_reads_back u c"
  shows "box_line_readable u (written_box_line u c) \<and>
    length (split u (written_box_line u c) (CHR '' ''))
      = (if shape c = ORTHORHOMBIC \<or> shape c = INFINITE then 3 else 9)"
  using assms by (auto simp: box_reads_back_def box_line_readable_def Let_def split: if_splits)

text \<open>
  Reading back a file of 100000 atoms whose first atom line cannot be read.
\<close>

lemma unreadable_first_line:
  assumes "GROFormat_write u new_format frame = (Inr (), fmt', warnings)"
    and "Frame_size frame = 100000"
    and "parse_size_t u (right_align 5 (to_string 100000)) = Inr 100000"
    and "line0 = format_atom_line u
           (fst (written_resid (residue_for_atom (topology frame) 0)
                   (initial_max_resid (residues (topology frame)))))
           (fst (written_resname (residue_for_atom (topology frame) 0)))
           (atom_name (atoms (topology frame) ! 0)) (fst (to_gro_index 0))
           (Vector3D_div (positions frame ! 0) 10)
           (map_option (\<lambda>vs. Vector3D_div (vs ! 0) 10) (velocities frame))"
    and "\<And>st. read_atom_line u line0 st = Inl e"
  shows "lines (gro_file fmt') ! 2 = line0 \<and>
    fst (GROFormat_read u (fmt'\<lparr>gro_file := rewind (gro_file fmt')\<rparr>) frame0) = Inl e"
proof -
  let ?g = "fmt'\<lparr>gro_file := rewind (gro_file fmt')\<rparr>"
  from GROFormat_write_lines [OF assms(1)] assms(2,4) obtain title ls where
    L: "lines (gro_file fmt') = [title, right_align 5 (to_string 100000)] @ ls
          @ [written_box_line u (cell frame)]" and
    len: "length ls = 100000" and
    first: "ls ! 0 = line0"
    by (auto simp: new_format_def)
  have g: "position (gro_file ?g) = 0" "lines (gro_file ?g) = lines (gro_file fmt')"
    by (simp_all add: rewind_def)
  have l2: "lines (gro_file fmt') ! 2 = line0"
    unfolding L using len first by (simp add: nth_append)
  have r1: "position (gro_file ?g) + 2 + 100000 \<le> length (lines (gro_file ?g))"
    unfolding g L using len by simp
  have r2: "parse_size_t u (lines (gro_file ?g) ! Suc (position (gro_file ?g))) = Inr 100000"
    unfolding g L using assms(3) by simp
  have r3: "read_atom_line u (lines (gro_file ?g) ! (position (gro_file ?g) + 2)) st = Inl e"
    for st
    unfolding g using l2 assms(5) by (simp del: add_2_eq_Suc add_2_eq_Suc')
  from GROFormat_read_first_line [OF r1 _ r2 r3, of frame0] l2 show ?thesis by simp
qed

lemma long_name_frame_fields:
  "Frame_size long_name_frame = 100000"
  "velocities long_name_frame = None"
  "cell long_name_frame = UnitCell_infinite"
  "i < 100000 \<Longrightarrow> positions long_name_frame ! i = (0, 0, 0)"
  "atoms (topology long_name_frame) ! 0 = Atom ''ABCDEFGHIJKLM''"
  "residue_for_atom (topology long_name_frame) 0 = None"
  "residues (topology long_name_frame)
     = [\<lparr>res_name = ''AR'', res_id = Some 100000, res_atoms = [99999]\<rparr>]"
  by (simp_all add: long_name_frame_def huge_frame_def Frame_size_def residue_for_atom_def)

lemma far_atom_frame_fields:
  "Frame_size far_atom_frame = 100000"
  "velocities far_atom_frame = None"
  "cell far_atom_frame = UnitCell_infinite"
  "positions far_atom_frame ! 0 = (123456, 0, 0)"
  "0 < i \<Longrightarrow> i < 100000 \<Longrightarrow> positions far_atom_frame ! i = (0, 0, 0)"
  "atoms (topology far_atom_frame) ! 0 = Atom ''AR''"
  "residue_for_atom (topology far_atom_frame) 0 = None"
  "residues (topology far_atom_frame)
     = [\<lparr>res_name = ''AR'', res_id = Some 100000, res_atoms = [99999]\<rparr>]"
  by (simp_all add: far_atom_frame_def huge_frame_def Frame_size_def residue_for_atom_def
      nth_Cons split: nat.splits)

lemma first_atom_fields:
  "initial_max_resid [\<lparr>res_name = ''AR'', res_id = Some 100000, res_atoms = [99999]\<rparr>] = 100001"
  "fst (written_resid None 100001) = ''-1''"
  "fst (written_resname None) = ''XXXXX''"
  "fst (to_gro_index 0) = ''1''"
  "parse_size_t decimal_utils (right_align 5 (to_string 100000)) = Inr 100000"
  by code_simp+

lemma infinite_cell_fits:
  "fst (write_cell u UnitCell_infinite f) = Inr ()"
  by (simp add: write_cell_def check_values_size_def)

lemma long_name_line:
  "format_atom_line decimal_utils ''-1'' ''XXXXX'' ''ABCDEFGHIJKLM'' ''1''
     (Vector3D_div (0, 0, 0) 10) None
     = ''   -1XXXXXABCDEFGHIJKLM    1   0.000   0.000   0.000''"
  "read_atom_line decimal_utils ''   -1XXXXXABCDEFGHIJKLM    1   0.000   0.000   0.000'' st
     = Inl (Error (''can not convert '' @ quoted ''KLM    1'' @ '' to a number''))"
proof -
  let ?l = "''   -1XXXXXABCDEFGHIJKLM    1   0.000   0.000   0.000''"
  show "format_atom_line decimal_utils ''-1'' ''XXXXX'' ''ABCDEFGHIJKLM'' ''1''
     (Vector3D_div (0, 0, 0) 10) None = ?l"
    by code_simp
  have len: "\<not> length ?l < 44" by code_simp
  have x: "parse_d decimal_utils (substr ?l 20 8)
      = Inl (Error (''can not convert '' @ quoted ''KLM    1'' @ '' to a number''))"
    by code_simp
  obtain fr rs where st: "st = (fr, rs)" by (cases st)
  show "read_atom_line decimal_utils ?l st
     = Inl (Error (''can not convert '' @ quoted ''KLM    1'' @ '' to a number''))"
    unfolding read_atom_line_def st using len x by (simp add: Let_def)
qed

lemma far_atom_line:
  "format_atom_line decimal_utils ''-1'' ''XXXXX'' ''AR'' ''1''
     (Vector3D_div (123456, 0, 0) 10) None
     = ''   -1XXXXX   AR    112345.600   0.000   0.000''"
  "read_atom_line decimal_utils ''   -1XXXXX   AR    112345.600   0.000   0.000'' st
     = Inl (Error (''can not convert '' @ quoted ''0   0.00'' @ '' to a number''))"
proof -
  let ?l = "''   -1XXXXX   AR    112345.600   0.000   0.000''"
  show "format_atom_line decimal_utils ''-1'' ''XXXXX'' ''AR'' ''1''
     (Vector3D_div (123456, 0, 0) 10) None = ?l"
    by code_simp
  have len: "\<not> length ?l < 44" by code_simp
  have x: "parse_d decimal_utils (substr ?l 20 8) = Inr (123456 / 10)"
    by code_simp
  have y: "parse_d decimal_utils (substr ?l 28 8)
      = Inl (Error (''can not convert '' @ quoted ''0   0.00'' @ '' to a number''))"
    by code_simp
  obtain fr rs where st: "st = (fr, rs)" by (cases st)
  show "read_atom_line decimal_utils ?l st
     = Inl (Error (''can not convert '' @ quoted ''0   0.00'' @ '' to a number''))"
    unfolding read_atom_line_def st using len x y by (simp add: Let_def)
qed

text \<open>
  Claim C9. The file that \<open>write\<close> produces for a frame of 100000 atoms is to be read
  back by \<open>read\<close>. The code does not achieve this for two frames of 100000 atoms that it
  writes without error or warning: with a name of 13 characters for the first atom, and
  with the first atom at \<open>x = 123456\<close>. In both files the columns of the first atom line
  are shifted and \<open>read\<close> throws an \<open>Error\<close> at a position field that is not a number.
  \<open>write\<close> cuts a residue name of more than five characters, with a warning, but not an
  atom name; and \<open>check_values_size\<close>, which is there to be sure that the values can be
  represented, lets every value below \<open>10 ^ 8\<close> pass, while the field \<open>{:8.3f}\<close> holds four
  digits before the decimal point.
\<close>

theorem long_fields_are_not_read_back:
  "Frame_size long_name_frame = 100000 \<and>
   fst (GROFormat_write decimal_utils new_format long_name_frame) = Inr () \<and>
   lines (gro_file (fst (snd (GROFormat_write decimal_utils new_format long_name_frame)))) ! 2
     = ''   -1XXXXXABCDEFGHIJKLM    1   0.000   0.000   0.000'' \<and>
   fst (GROFormat_read decimal_utils
      ((fst (snd (GROFormat_write decimal_utils new_format long_name_frame)))
         \<lparr>gro_file := rewind (gro_file
            (fst (snd (GROFormat_write decimal_utils new_format long_name_frame))))\<rparr>)
      Frame_empty)
     = Inl (Error (''can not convert '' @ quoted ''KLM    1'' @ '' to a number'')) \<and>
   Frame_size far_atom_frame = 100000 \<and>
   fst (GROFormat_write decimal_utils new_format far_atom_frame) = Inr () \<and>
   lines (gro_file (fst (snd (GROFormat_write decimal_utils new_format far_atom_frame)))) ! 2
     = ''   -1XXXXX   AR    112345.600   0.000   0.000'' \<and>
   fst (GROFormat_read decimal_utils
      ((fst (snd (GROFormat_write decimal_utils new_format far_atom_frame)))
         \<lparr>gro_file := rewind (gro_file
            (fst (snd (GROFormat_write decimal_utils new_format far_atom_frame))))\<rparr>)
      Frame_empty)
     = Inl (Error (''can not convert '' @ quoted ''0   0.00'' @ '' to a number''))"
proof -
  let ?u = decimal_utils
  let ?a = "GROFormat_write ?u new_format long_name_frame"
  let ?b = "GROFormat_write ?u new_format far_atom_frame"
  have pa: "\<forall>i < Frame_size long_name_frame.
      check_values_size (Vector3D_div (positions long_name_frame ! i) 10) 8 ''atomic position''
        = Inr ()"
    by (simp add: long_name_frame_fields check_values_size_def Vector3D_div_def)
  have va: "\<forall>vs. velocities long_name_frame = Some vs \<longrightarrow> (\<forall>i < Frame_size long_name_frame.
      check_values_size (Vector3D_div (vs ! i) 10) 8 ''atomic velocity'' = Inr ())"
    by (simp add: long_name_frame_fields)
  have ca: "fst (write_cell ?u (cell long_name_frame) (gro_file new_format)) = Inr ()"
    by (simp add: long_name_frame_fields infinite_cell_fits)
  from GROFormat_write_succeeds [OF pa va ca] obtain fa wa where
    a: "?a = (Inr (), fa, wa)" by blast
  have la: "''   -1XXXXXABCDEFGHIJKLM    1   0.000   0.000   0.000'' = format_atom_line ?u
           (fst (written_resid (residue_for_atom (topology long_name_frame) 0)
                   (initial_max_resid (residues (topology long_name_frame)))))
           (fst (written_resname (residue_for_atom (topology long_name_frame) 0)))
           (atom_name (atoms (topology long_name_frame) ! 0)) (fst (to_gro_index 0))
           (Vector3D_div (positions long_name_frame ! 0) 10)
           (map_option (\<lambda>vs. Vector3D_div (vs ! 0) 10) (velocities long_name_frame))"
    by (simp add: long_name_frame_fields first_atom_fields long_name_line(1))
  note ra = unreadable_first_line [OF a long_name_frame_fields(1) first_atom_fields(5) la
      long_name_line(2), of Frame_empty]
  have pb: "\<forall>i < Frame_size far_atom_frame.
      check_values_size (Vector3D_div (positions far_atom_frame ! i) 10) 8 ''atomic position''
        = Inr ()"
  proof (intro allI impI)
    fix i assume "i < Frame_size far_atom_frame"
    then have "i = 0 \<or> (0 < i \<and> i < 100000)"
      by (auto simp: far_atom_frame_fields)
    then show "check_values_size (Vector3D_div (positions far_atom_frame ! i) 10) 8
        ''atomic position'' = Inr ()"
      by (auto simp: far_atom_frame_fields check_values_size_def Vector3D_div_def)
  qed
  have vb: "\<forall>vs. velocities far_atom_frame = Some vs \<longrightarrow> (\<forall>i < Frame_size far_atom_frame.
      check_values_size (Vector3D_div (vs ! i) 10) 8 ''atomic velocity'' = Inr ())"
    by (simp add: far_atom_frame_fields)
  have cb: "fst (write_cell ?u (cell far_atom_frame) (gro_file new_format)) = Inr ()"
    by (simp add: far_atom_frame_fields infinite_cell_fits)
  from GROFormat_write_succeeds [OF pb vb cb] obtain fb wb where
    b: "?b = (Inr (), fb, wb)" by blast
  have lb: "''   -1XXXXX   AR    112345.600   0.000   0.000'' = format_atom_line ?u
           (fst (written_resid (residue_for_atom (topology far_atom_frame) 0)
                   (initial_max_resid (residues (topology far_atom_frame)))))
           (fst (written_resname (residue_for_atom (topology far_atom_frame) 0)))
           (atom_name (atoms (topology far_atom_frame) ! 0)) (fst (to_gro_index 0))
           (Vector3D_div (positions far_atom_frame ! 0) 10)
           (map_option (\<lambda>vs. Vector3D_div (vs ! 0) 10) (velocities far_atom_frame))"
    by (simp add: far_atom_frame_fields first_atom_fields far_atom_line(1))
  note rb = unreadable_first_line [OF b far_atom_frame_fields(1) first_atom_fields(5) lb
      far_atom_line(2), of Frame_empty]
  show ?thesis
    using ra rb by (simp add: a b long_name_frame_fields(1) far_atom_frame_fields(1))
qed

text \<open>
  Where every field fits its column, the file of 100000 atoms is read back. When \<open>write\<close>
  returns normally for a frame of 100000 atoms (with as many positions, and velocities
  if any, as atoms) and a new file, the atom number column (columns 15 to 20) of the
  line of the last atom, line 100001 of the file, is \<open>*****\<close>, and the warning
  \<open>Too many atoms for GRO format\<close> has been emitted. When moreover the atom names have at
  most five characters, each component of a position and of a velocity is printed in the
  8 characters of its field as a number that \<open>parse<double>\<close> accepts, \<open>parse<size_t>\<close>
  reads the atom count printed and the numbers of the box line read back, then reading
  the file back from its beginning returns normally, with 100000 atoms that have the
  names, the positions and the velocities that were printed (velocities zero when the
  frame written had none) and a cell of the shape of the box line. The atom number
  column is skipped: whatever five characters stand in columns 15 to 20 of an atom line
  of at least 44 characters, \<open>read\<close> does the same.
\<close>

theorem stars_are_skipped_on_reading:
  assumes "GROFormat_write u fmt frame = (Inr (), fmt', warnings)"
    and "lines (gro_file fmt) = []"
    and "Frame_size frame = 100000"
    and "Frame_invariant frame"
    and "\<forall>a \<in> set (atoms (topology frame)). length (atom_name a) \<le> 5"
    and "parse_size_t u (right_align 5 (to_string 100000)) = Inr 100000"
    and "\<forall>p \<in> set (positions frame). vector_reads_back u 3 (Vector3D_div p 10)"
    and "\<forall>vs. velocities frame = Some vs \<longrightarrow>
      (\<forall>v \<in> set vs. vector_reads_back u 4 (Vector3D_div v 10))"
    and "box_reads_back u (cell frame)"
  shows "substr (lines (gro_file fmt') ! 100001) 15 5 = ''*****'' \<and>
    ''Too many atoms for GRO format, removing atomic id'' \<in> set warnings \<and>
    (\<exists>frame' fmt'' vs'.
       GROFormat_read u (fmt'\<lparr>gro_file := rewind (gro_file fmt')\<rparr>) frame0
         = (Inr (), frame', fmt'') \<and>
       length (positions frame') = 100000 \<and>
       velocities frame' = Some vs' \<and> length vs' = 100000 \<and>
       (\<forall>i < 100000.
          positions frame' ! i = vector_read_back u 3 (positions frame ! i) \<and>
          vs' ! i = (case velocities frame of
                       None \<Rightarrow> Vector3D_zero
                     | Some vs \<Rightarrow> vector_read_back u 4 (vs ! i)) \<and>
          atoms (topology frame') ! i
            = Atom (trim u (right_align 5 (atom_name (atoms (topology frame) ! i))))) \<and>
       shape (cell frame')
         = (if shape (cell frame) = TRICLINIC then TRICLINIC else ORTHORHOMBIC)) \<and>
    (\<forall>line index st. 44 \<le> length line \<and> length index = 5 \<longrightarrow>
       read_atom_line u (take 15 line @ index @ drop 20 line) st = read_atom_line u line st)"
proof -
  from GROFormat_write_lines [OF assms(1)] assms(2,3) obtain title ls where
    L: "lines (gro_file fmt') = [title, right_align 5 (to_string 100000)] @ ls
          @ [written_box_line u (cell frame)]" and
    len: "length ls = 100000" and
    all: "\<forall>i < 100000. atom_line_written u frame i (ls ! i) warnings"
    by auto
  have sizes: "length (positions frame) = 100000" "length (atoms (topology frame)) = 100000"
    "\<forall>vs. velocities frame = Some vs \<longrightarrow> length vs = 100000"
    using assms(3,4) by (auto simp: Frame_size_def Frame_invariant_def)
  have line: "\<exists>index. length index \<le> 5 \<and> (99999 \<le> i \<longrightarrow> index = ''*****'') \<and>
      atom_line_readable u (ls ! i) \<and>
      substr (ls ! i) 10 5 = right_align 5 (atom_name (atoms (topology frame) ! i)) \<and>
      substr (ls ! i) 15 5 = right_align 5 index \<and>
      (\<forall>p v. spec_atom_values u (ls ! i) p v \<longrightarrow>
         p = vector_read_back u 3 (positions frame ! i) \<and>
         v = (case velocities frame of
                None \<Rightarrow> Vector3D_zero
              | Some vs \<Rightarrow> vector_read_back u 4 (vs ! i)))"
    if i: "i < 100000" for i
  proof -
    let ?V = "map_option (\<lambda>vs. vs ! i) (velocities frame)"
    from all i obtain resid resname index where
      l: "ls ! i = format_atom_line u resid resname (atom_name (atoms (topology frame) ! i))
                 index (Vector3D_div (positions frame ! i) 10)
                 (map_option (\<lambda>vs. Vector3D_div (vs ! i) 10) (velocities frame))" and
      w: "length resid \<le> 5" "length resname \<le> 5" "length index \<le> 5" and
      s: "99999 \<le> i \<longrightarrow> index = ''*****''"
      unfolding atom_line_written_def by blast
    have n: "length (atom_name (atoms (topology frame) ! i)) \<le> 5"
      using assms(5) sizes(2) i by simp
    have p: "vector_reads_back u 3 (Vector3D_div (positions frame ! i) 10)"
      using assms(7) sizes(1) i by simp
    have v: "\<forall>w. ?V = Some w \<longrightarrow> vector_reads_back u 4 (Vector3D_div w 10)"
      using assms(8) sizes(3) i by (cases "velocities frame") auto
    have l': "ls ! i = format_atom_line u resid resname (atom_name (atoms (topology frame) ! i))
                 index (Vector3D_div (positions frame ! i) 10)
                 (map_option (\<lambda>w. Vector3D_div w 10) ?V)"
      using l by (simp add: option.map_comp comp_def)
    have c: "(case ?V of None \<Rightarrow> Vector3D_zero | Some w \<Rightarrow> vector_read_back u 4 w)
        = (case velocities frame of
                None \<Rightarrow> Vector3D_zero
              | Some vs \<Rightarrow> vector_read_back u 4 (vs ! i))"
      by (cases "velocities frame") simp_all
    from written_atom_line_fields [OF w(1,2) n w(3) p v l'] w(3) s show ?thesis
      unfolding c by blast
  qed
  from line [of 99999] have "substr (ls ! 99999) 15 5 = right_align 5 ''*****''" by auto
  moreover have "lines (gro_file fmt') ! 100001 = ls ! 99999"
    unfolding L using len by (simp add: nth_append)
  ultimately have stars: "substr (lines (gro_file fmt') ! 100001) 15 5 = ''*****''"
    by (simp add: right_align_def)
  from all have "atom_line_written u frame 99999 (ls ! 99999) warnings" by simp
  then have warned: "''Too many atoms for GRO format, removing atomic id'' \<in> set warnings"
    unfolding atom_line_written_def by auto
  let ?g = "fmt'\<lparr>gro_file := rewind (gro_file fmt')\<rparr>"
  let ?box = "written_box_line u (cell frame)"
  have g: "position (gro_file ?g) = 0" "lines (gro_file ?g) = lines (gro_file fmt')"
    by (simp_all add: rewind_def)
  have r1: "position (gro_file ?g) + 100000 + 3 \<le> length (lines (gro_file ?g))"
    unfolding g L using len by simp
  have r2: "parse_size_t u (lines (gro_file ?g) ! Suc (position (gro_file ?g))) = Inr 100000"
    unfolding g L using assms(6) by simp
  have t: "take 100000 (drop (position (gro_file ?g) + 2) (lines (gro_file ?g))) = ls"
    unfolding g L using len by simp
  have r3: "\<forall>l \<in> set (take 100000 (drop (position (gro_file ?g) + 2) (lines (gro_file ?g)))).
      atom_line_readable u l"
    unfolding t using line len by (metis in_set_conv_nth)
  have b: "lines (gro_file ?g) ! (position (gro_file ?g) + 2 + 100000) = ?box"
    unfolding g L using len by (simp add: nth_append)
  note rb = box_reads_back_readable [OF assms(9)]
  have r4: "\<forall>fr. \<exists>fr'. read_box u (lines (gro_file ?g) ! (position (gro_file ?g) + 2 + 100000)) fr
      = Inr fr'"
    unfolding b using rb read_box_readable by blast
  from GROFormat_read_succeeds [OF r1 r2 r3 r4, of frame0] obtain frame' fmt'' where
    r: "GROFormat_read u ?g frame0 = (Inr (), frame', fmt'')"
    by (cases "GROFormat_read u ?g frame0") auto
  from GROFormat_read_frame [OF r] r2 obtain vs' where
    f: "length (positions frame') = 100000" "velocities frame' = Some vs'" "length vs' = 100000"
      "\<forall>i < 100000. spec_atom_values u
         (lines (gro_file ?g) ! (position (gro_file ?g) + 2 + i)) (positions frame' ! i) (vs' ! i)"
      "atoms (topology frame') = map (\<lambda>l. Atom (trim u (substr l 10 5)))
         (take 100000 (drop (position (gro_file ?g) + 2) (lines (gro_file ?g))))"
    by auto
  have nth: "lines (gro_file ?g) ! (position (gro_file ?g) + 2 + i) = ls ! i"
    if "i < 100000" for i
    unfolding g L using len that by (simp add: nth_append)
  have each: "positions frame' ! i = vector_read_back u 3 (positions frame ! i) \<and>
          vs' ! i = (case velocities frame of
                       None \<Rightarrow> Vector3D_zero
                     | Some vs \<Rightarrow> vector_read_back u 4 (vs ! i)) \<and>
          atoms (topology frame') ! i
            = Atom (trim u (right_align 5 (atom_name (atoms (topology frame) ! i))))"
    if i: "i < 100000" for i
  proof -
    from f(4) i have "spec_atom_values u
         (lines (gro_file ?g) ! (position (gro_file ?g) + 2 + i)) (positions frame' ! i) (vs' ! i)"
      by blast
    then have sv: "spec_atom_values u (ls ! i) (positions frame' ! i) (vs' ! i)"
      unfolding nth [OF i] .
    from line [OF i] obtain index where
      n: "substr (ls ! i) 10 5 = right_align 5 (atom_name (atoms (topology frame) ! i))" and
      pv: "\<forall>p v. spec_atom_values u (ls ! i) p v \<longrightarrow>
         p = vector_read_back u 3 (positions frame ! i) \<and>
         v = (case velocities frame of
                None \<Rightarrow> Vector3D_zero
              | Some vs \<Rightarrow> vector_read_back u 4 (vs ! i))"
      by blast
    have "atoms (topology frame') ! i = Atom (trim u (substr (ls ! i) 10 5))"
      unfolding f(5) t using i len by simp
    then have "atoms (topology frame') ! i
        = Atom (trim u (right_align 5 (atom_name (atoms (topology frame) ! i))))"
      unfolding n .
    moreover from pv sv have "positions frame' ! i = vector_read_back u 3 (positions frame ! i) \<and>
          vs' ! i = (case velocities frame of
                       None \<Rightarrow> Vector3D_zero
                     | Some vs \<Rightarrow> vector_read_back u 4 (vs ! i))"
      by blast
    ultimately show ?thesis by blast
  qed
  from GROFormat_read_Inr [OF r] r2 obtain frame3 frame4
    and rs :: "(nat \<times> Residue) list" where
    bx: "read_box u (lines (gro_file ?g) ! (position (gro_file ?g) + 2 + 100000)) frame3
        = Inr frame4" and
    fr: "frame' = foldl (\<lambda>fr kr. add_residue (snd kr) fr) frame4 rs"
    by auto
  from read_box_cell [OF bx [unfolded b]] rb
  have "shape (cell frame4) = (if shape (cell frame) = TRICLINIC then TRICLINIC else ORTHORHOMBIC)"
    by (cases "shape (cell frame)") auto
  with fr have cell: "shape (cell frame')
      = (if shape (cell frame) = TRICLINIC then TRICLINIC else ORTHORHOMBIC)"
    by simp
  have skipped: "\<forall>line index st. 44 \<le> length line \<and> length index = 5 \<longrightarrow>
       read_atom_line u (take 15 line @ index @ drop 20 line) st = read_atom_line u line st"
    using index_column_skipped by blast
  from r f(1-3) each cell have "\<exists>frame' fmt'' vs'.
       GROFormat_read u ?g frame0 = (Inr (), frame', fmt'') \<and>
       length (positions frame') = 100000 \<and>
       velocities frame' = Some vs' \<and> length vs' = 100000 \<and>
       (\<forall>i < 100000.
          positions frame' ! i = vector_read_back u 3 (positions frame ! i) \<and>
          vs' ! i = (case velocities frame of
                       None \<Rightarrow> Vector3D_zero
                     | Some vs \<Rightarrow> vector_read_back u 4 (vs ! i)) \<and>
          atoms (topology frame') ! i
            = Atom (trim u (right_align 5 (atom_name (atoms (topology frame) ! i))))) \<and>
       shape (cell frame')
         = (if shape (cell frame) = TRICLINIC then TRICLINIC else ORTHORHOMBIC)"
    by blast
  with stars warned skipped show ?thesis by blast
qed

text \<open>
  These hypotheses hold for the frame of 100000 atoms at the origin, with decimal
  numbers.
\<close>

lemma zero_reads_back:
  "vector_reads_back decimal_utils 3 (Vector3D_div (0, 0, 0) 10)"
  "vector_read_back decimal_utils 3 (0, 0, 0) = (0, 0, 0)"
  "box_reads_back decimal_utils UnitCell_infinite"
  "trim decimal_utils (right_align 5 ''AR'') = ''AR''"
  by code_simp+

theorem stars_are_skipped_on_reading_witness:
  "\<exists>fmt' warnings frame' fmt''.
     GROFormat_write decimal_utils new_format huge_frame = (Inr (), fmt', warnings) \<and>
     lines (gro_file new_format) = [] \<and>
     Frame_size huge_frame = 100000 \<and>
     Frame_invariant huge_frame \<and>
     (\<forall>a \<in> set (atoms (topology huge_frame)). length (atom_name a) \<le> 5) \<and>
     parse_size_t decimal_utils (right_align 5 (to_string 100000)) = Inr 100000 \<and>
     (\<forall>p \<in> set (positions huge_frame). vector_reads_back decimal_utils 3 (Vector3D_div p 10)) \<and>
     (\<forall>vs. velocities huge_frame = Some vs \<longrightarrow>
        (\<forall>v \<in> set vs. vector_reads_back decimal_utils 4 (Vector3D_div v 10))) \<and>
     box_reads_back decimal_utils (cell huge_frame) \<and>
     substr (lines (gro_file fmt') ! 100001) 15 5 = ''*****'' \<and>
     ''Too many atoms for GRO format, removing atomic id'' \<in> set warnings \<and>
     GROFormat_read decimal_utils (fmt'\<lparr>gro_file := rewind (gro_file fmt')\<rparr>) Frame_empty
       = (Inr (), frame', fmt'') \<and>
     length (positions frame') = 100000 \<and>
     positions frame' ! 99999 = (0, 0, 0) \<and>
     atoms (topology frame') ! 99999 = Atom ''AR'' \<and>
     velocities frame' = Some (replicate 100000 Vector3D_zero) \<and>
     shape (cell frame') = ORTHORHOMBIC"
proof -
  let ?u = decimal_utils
  from GROFormat_write_succeeds [OF huge_frame_fits] obtain fmt' warnings where
    w: "GROFormat_write ?u new_format huge_frame = (Inr (), fmt', warnings)"
    by blast
  have new: "lines (gro_file new_format) = []" by (simp add: new_format_def)
  have size: "Frame_size huge_frame = 100000" by (rule huge_frame_fields)
  have inv: "Frame_invariant huge_frame"
    by (simp add: Frame_invariant_def huge_frame_def)
  have names: "\<forall>a \<in> set (atoms (topology huge_frame)). length (atom_name a) \<le> 5"
    by (simp add: huge_frame_def)
  have count: "parse_size_t ?u (right_align 5 (to_string 100000)) = Inr 100000"
    by (rule first_atom_fields)
  have pos: "\<forall>p \<in> set (positions huge_frame). vector_reads_back ?u 3 (Vector3D_div p 10)"
    using zero_reads_back(1) by (simp add: huge_frame_def)
  have vel: "\<forall>vs. velocities huge_frame = Some vs \<longrightarrow>
        (\<forall>v \<in> set vs. vector_reads_back ?u 4 (Vector3D_div v 10))"
    by (simp add: huge_frame_fields)
  have box: "box_reads_back ?u (cell huge_frame)"
    using zero_reads_back(3) by (simp add: huge_frame_fields)
  from stars_are_skipped_on_reading [OF w new size inv names count pos vel box, of Frame_empty]
  obtain frame' fmt'' vs' where
    s: "substr (lines (gro_file fmt') ! 100001) 15 5 = ''*****''"
      "''Too many atoms for GRO format, removing atomic id'' \<in> set warnings"
      "GROFormat_read ?u (fmt'\<lparr>gro_file := rewind (gro_file fmt')\<rparr>) Frame_empty
         = (Inr (), frame', fmt'')"
      "length (positions frame') = 100000"
      "velocities frame' = Some vs'" "length vs' = 100000" and
    each: "\<forall>i < 100000.
          positions frame' ! i = vector_read_back ?u 3 (positions huge_frame ! i) \<and>
          vs' ! i = (case velocities huge_frame of
                       None \<Rightarrow> Vector3D_zero
                     | Some vs \<Rightarrow> vector_read_back ?u 4 (vs ! i)) \<and>
          atoms (topology frame') ! i
            = Atom (trim ?u (right_align 5 (atom_name (atoms (topology huge_frame) ! i))))" and
    cell: "shape (cell frame')
         = (if shape (cell huge_frame) = TRICLINIC then TRICLINIC else ORTHORHOMBIC)"
    by blast
  have i: "(99999::nat) < 100000" by simp
  from each [THEN spec, THEN mp, OF i]
  have last: "positions frame' ! 99999 = (0, 0, 0)" "atoms (topology frame') ! 99999 = Atom ''AR''"
    by (simp_all add: huge_frame_fields zero_reads_back)
  have "vs' = replicate 100000 Vector3D_zero"
  proof (rule nth_equalityI)
    show "length vs' = length (replicate 100000 Vector3D_zero)" using s(6) by simp
  next
    fix k assume "k < length vs'"
    then have k: "k < 100000" using s(6) by simp
    from each [THEN spec, THEN mp, OF k] have "vs' ! k = Vector3D_zero"
      by (simp add: huge_frame_fields)
    with k show "vs' ! k = replicate 100000 Vector3D_zero ! k" by simp
  qed
  with s(5) have v: "velocities frame' = Some (replicate 100000 Vector3D_zero)" by simp
  have c: "shape (cell frame') = ORTHORHOMBIC" using cell by (simp add: huge_frame_fields)
  show ?thesis
    using w new size inv names count pos vel box s(1-4) last v c by blast
qed

end
